(* ===== verification/Prelude.thy ===== *)
theory Prelude
  imports Main "HOL-Library.AList" "HOL-Library.Char_ord" "HOL-Library.List_Lexorder"
begin

text \<open>
  What every component shares: Go's machine integers, byte strings and maps as HOL values,
  the interface of a keyed store with the lemmas its clients use, and the theorem
  collections that the component proofs rest on.

  \<^item> A Go \<open>string\<close> and a \<open>[]byte\<close> are byte sequences. Isabelle's \<open>char\<close> is an 8-bit value,
    so both are lists of \<open>char\<close>, and the conversions between them are the identity.
  \<^item> A Go \<open>int64\<close> (and \<open>int\<close>, 64 bits wide on the supported platforms) is an \<open>int\<close>; every
    operation that can overflow is wrapped in \<open>wrap64\<close>, two's complement wrap-around.
  \<^item> A Go map is an association list with distinct keys. The order of the list is the order in
    which a \<open>range\<close> loop visits the entries, which Go leaves open: a statement proved for every
    list holds for every iteration order.
  \<^item> A \<open>time.Time\<close> is the number of nanoseconds since the epoch, a \<open>time.Duration\<close> a number
    of nanoseconds; the current time is an argument of the operations that read the clock.
\<close>

named_theorems store_laws "laws of the keyed stores"

type_synonym byte = char
type_synonym bytes = "byte list"
type_synonym int64 = int
type_synonym time = int

abbreviation byte_val :: "byte \<Rightarrow> nat" where
  "byte_val b \<equiv> of_char b"

section \<open>64-bit integers\<close>

definition wrap64 :: "int \<Rightarrow> int64" where
  "wrap64 x = (x + 2 ^ 63) mod 2 ^ 64 - 2 ^ 63"

definition in_int64 :: "int \<Rightarrow> bool" where
  "in_int64 x \<longleftrightarrow> - (2 ^ 63) \<le> x \<and> x < 2 ^ 63"

lemma wrap64_id [simp]: "in_int64 x \<Longrightarrow> wrap64 x = x"
  by (simp add: wrap64_def in_int64_def)

lemma in_int64_wrap64 [simp, intro]: "in_int64 (wrap64 x)"
  by (simp add: wrap64_def in_int64_def)

lemma wrap64_eq_iff_in_range: "wrap64 x = x \<longleftrightarrow> in_int64 x"
  by (metis in_int64_wrap64 wrap64_id)

lemma wrap64_max: "wrap64 (2 ^ 63 - 1 + 1) = - (2 ^ 63)"
  by (simp add: wrap64_def)

text \<open>Go's \<open>/\<close> on integers truncates towards zero; the caller handles a zero divisor.\<close>

definition go_quot :: "int \<Rightarrow> int \<Rightarrow> int" where
  "go_quot a b = (if (a < 0) = (b < 0) then \<bar>a\<bar> div \<bar>b\<bar> else - (\<bar>a\<bar> div \<bar>b\<bar>))"

lemma go_quot_pos: "0 \<le> a \<Longrightarrow> 0 < b \<Longrightarrow> go_quot a b = a div b"
  by (simp add: go_quot_def)

text \<open>The zero \<open>time.Time\<close>, the first of January of the year 1.\<close>

definition zero_time :: time where
  "zero_time = - 62135596800 * 1000000000"

text \<open>\<open>Time.Sub\<close> saturates at the bounds of a duration.\<close>

definition time_sub :: "time \<Rightarrow> time \<Rightarrow> int64" where
  "time_sub t u = max (- (2 ^ 63)) (min (2 ^ 63 - 1) (t - u))"

lemma time_sub_exact [simp]: "in_int64 (t - u) \<Longrightarrow> time_sub t u = t - u"
  by (simp add: time_sub_def in_int64_def)

lemma time_sub_nonneg: "u \<le> t \<Longrightarrow> 0 \<le> time_sub t u"
  by (simp add: time_sub_def)

lemma time_sub_le: "u \<le> t \<Longrightarrow> time_sub t u \<le> t - u" "time_sub t u < 2 ^ 63"
  by (simp_all add: time_sub_def)

section \<open>Interfaces of a keyed store\<close>

text \<open>
  The contract of everything in the program that stores a value under a key: Go maps, the
  tables of the database, the in-memory registries. \<open>store\<close> is the read side, \<open>keyed_store\<close>
  adds replacement and removal.
\<close>

locale store =
  fixes lookup :: "'s \<Rightarrow> 'k \<Rightarrow> 'v option"
    and ok :: "'s \<Rightarrow> bool"
    and put :: "'k \<Rightarrow> 'v \<Rightarrow> 's \<Rightarrow> 's"
  assumes lookup_put: "ok s \<Longrightarrow> lookup (put k v s) k' = (if k' = k then Some v else lookup s k')"
    and ok_put: "ok s \<Longrightarrow> ok (put k v s)"
begin

lemma lookup_put_same: "ok s \<Longrightarrow> lookup (put k v s) k = Some v"
  by (simp add: lookup_put)

lemma lookup_put_other: "ok s \<Longrightarrow> k' \<noteq> k \<Longrightarrow> lookup (put k v s) k' = lookup s k'"
  by (simp add: lookup_put)

lemma put_overwrites: "ok s \<Longrightarrow> lookup (put k w (put k v s)) = lookup (put k w s)"
  by (rule ext) (simp add: lookup_put ok_put)

lemma put_commutes:
  "ok s \<Longrightarrow> k \<noteq> k' \<Longrightarrow> lookup (put k v (put k' w s)) = lookup (put k' w (put k v s))"
  by (rule ext) (simp add: lookup_put ok_put)

lemma ok_fold_put: "ok s \<Longrightarrow> ok (fold (\<lambda>(k, v). put k v) kvs s)"
  by (induction kvs arbitrary: s) (auto simp: ok_put)

text \<open>After a sequence of writes a key holds the last value written under it.\<close>

lemma lookup_fold_put:
  "ok s \<Longrightarrow> lookup (fold (\<lambda>(k, v). put k v) kvs s) k =
     (case map_of (rev kvs) k of None \<Rightarrow> lookup s k | Some v \<Rightarrow> Some v)"
  by (induction kvs arbitrary: s)
     (auto simp: ok_put lookup_put map_add_def split: option.splits)

end

locale keyed_store = store lookup ok put
  for lookup :: "'s \<Rightarrow> 'k \<Rightarrow> 'v option" and ok put +
  fixes del :: "'k \<Rightarrow> 's \<Rightarrow> 's"
  assumes lookup_del: "ok s \<Longrightarrow> lookup (del k s) k' = (if k' = k then None else lookup s k')"
    and ok_del: "ok s \<Longrightarrow> ok (del k s)"
begin

lemma lookup_del_same: "ok s \<Longrightarrow> lookup (del k s) k = None"
  by (simp add: lookup_del)

lemma del_put: "ok s \<Longrightarrow> lookup (del k (put k v s)) = lookup (del k s)"
  by (rule ext) (simp add: lookup_del lookup_put ok_put)

lemma del_absent: "ok s \<Longrightarrow> lookup s k = None \<Longrightarrow> lookup (del k s) = lookup s"
  by (rule ext) (simp add: lookup_del)

lemma del_idem: "ok s \<Longrightarrow> lookup (del k (del k s)) = lookup (del k s)"
  by (rule ext) (simp add: lookup_del ok_del)

end

section \<open>Go maps\<close>

type_synonym ('k, 'v) gomap = "('k \<times> 'v) list"

definition gm_ok :: "('k, 'v) gomap \<Rightarrow> bool" where
  "gm_ok m \<longleftrightarrow> distinct (map fst m)"

definition gm_put :: "'k \<Rightarrow> 'v \<Rightarrow> ('k, 'v) gomap \<Rightarrow> ('k, 'v) gomap" where
  "gm_put k v m = AList.update k v m"

definition gm_del :: "'k \<Rightarrow> ('k, 'v) gomap \<Rightarrow> ('k, 'v) gomap" where
  "gm_del k m = AList.delete k m"

text \<open>\<open>m[k]\<close> without the second result: the zero value for a missing key.\<close>

definition gm_get :: "'v \<Rightarrow> ('k, 'v) gomap \<Rightarrow> 'k \<Rightarrow> 'v" where
  "gm_get zero m k = (case map_of m k of None \<Rightarrow> zero | Some v \<Rightarrow> v)"

interpretation gm: keyed_store map_of gm_ok gm_put gm_del
  by unfold_locales
     (auto simp: gm_ok_def gm_put_def gm_del_def update_conv' delete_conv' distinct_update
        distinct_delete)

lemmas gm_laws [simp] = gm_put_def [THEN arg_cong [where f = map_of], unfolded update_conv']
  gm_del_def [THEN arg_cong [where f = map_of], unfolded delete_conv']

lemma gm_ok_Nil [simp]: "gm_ok []"
  by (simp add: gm_ok_def)

lemma gm_ok_Cons [simp]: "gm_ok ((k, v) # m) \<longleftrightarrow> map_of m k = None \<and> gm_ok m"
  by (simp add: gm_ok_def map_of_eq_None_iff)

lemma gm_ok_put [simp, intro]: "gm_ok m \<Longrightarrow> gm_ok (gm_put k v m)"
  by (rule gm.ok_put)

lemma gm_ok_del [simp, intro]: "gm_ok m \<Longrightarrow> gm_ok (gm_del k m)"
  by (rule gm.ok_del)

lemma gm_get_put [store_laws]: "gm_get z (gm_put k v m) k' = (if k' = k then v else gm_get z m k')"
  by (simp add: gm_get_def)

lemma gm_get_del [store_laws]: "gm_get z (gm_del k m) k' = (if k' = k then z else gm_get z m k')"
  by (simp add: gm_get_def)

lemma set_gm_put_keys [store_laws]: "fst ` set (gm_put k v m) = insert k (fst ` set m)"
  by (metis dom_map_of_conv_image_fst dom_fun_upd gm_laws(1) option.distinct(1))

lemma set_gm_del_keys [store_laws]: "fst ` set (gm_del k m) = fst ` set m - {k}"
  by (metis gm_del_def delete_keys list.set_map removeAll.simps set_removeAll)

lemma gm_length_put:
  "length (gm_put k v m) = (if k \<in> fst ` set m then length m else Suc (length m))"
  by (induction m) (auto simp: gm_put_def)

text \<open>A loop over a map that deletes the entries satisfying a condition.\<close>

definition gm_drop :: "('v \<Rightarrow> bool) \<Rightarrow> ('k, 'v) gomap \<Rightarrow> ('k, 'v) gomap" where
  "gm_drop P m = filter (\<lambda>(k, v). \<not> P v) m"

lemma gm_ok_drop [simp, intro]: "gm_ok m \<Longrightarrow> gm_ok (gm_drop P m)"
  by (simp add: gm_ok_def gm_drop_def distinct_map_filter)

lemma map_of_gm_drop:
  "gm_ok m \<Longrightarrow> map_of (gm_drop P m) k =
     (case map_of m k of None \<Rightarrow> None | Some v \<Rightarrow> if P v then None else Some v)"
  by (induction m) (auto simp: gm_ok_def gm_drop_def map_of_eq_None_iff rev_image_eqI
        split: option.splits)

section \<open>Lists\<close>

lemma filter_eq_imp_append: "filter P (xs @ [x]) = (if P x then filter P xs @ [x] else filter P xs)"
  by simp

lemma sort_key_Nil_iff [simp]: "sort_key f xs = [] \<longleftrightarrow> xs = []"
proof -
  have "length (sort_key f xs) = length xs" by (rule length_sort)
  then show ?thesis by (cases xs; cases "sort_key f xs") auto
qed

lemma map_of_filter_key:
  "map_of (filter (\<lambda>(k, v). k \<noteq> k0) m) k = (if k = k0 then None else map_of m k)"
  by (induction m) auto

end
