(* ===== verification/VectorClock.thy ===== *)
theory VectorClock
  imports Prelude
begin

text \<open>
  Vector clocks, \<^verbatim>\<open>internal/sync/vectorclock.go\<close>: a Go map from peer ids to \<open>int64\<close> counters,
  a missing peer counting as 0. The operations are those of the file; the lemmas give the
  pointwise meaning of \<open>Merge\<close> and \<open>Compare\<close>, the join-semilattice laws of \<open>Merge\<close>
  (locale \<open>clock_join\<close>), and the invariant of a system of peers that exchange clocks.
\<close>

section \<open>The operations\<close>

type_synonym vclock = "(string, int64) gomap"

definition NewVectorClock :: vclock where
  "NewVectorClock = []"

definition vc_get :: "vclock \<Rightarrow> string \<Rightarrow> int64" where
  "vc_get vc p = gm_get 0 vc p"

definition vc_set :: "vclock \<Rightarrow> string \<Rightarrow> int64 \<Rightarrow> vclock" where
  "vc_set vc p v = gm_put p v vc"

definition vc_increment :: "vclock \<Rightarrow> string \<Rightarrow> vclock" where
  "vc_increment vc p = gm_put p (wrap64 (gm_get 0 vc p + 1)) vc"

text \<open>\<open>Merge\<close> visits the entries of the other clock in some order, the order of the list.\<close>

fun vc_merge :: "vclock \<Rightarrow> vclock \<Rightarrow> vclock" where
  "vc_merge vc [] = vc"
| "vc_merge vc ((p, value) # other) =
     vc_merge (if gm_get 0 vc p < value then gm_put p value vc else vc) other"

fun all_peers :: "vclock \<Rightarrow> (string, bool) gomap \<Rightarrow> (string, bool) gomap" where
  "all_peers [] acc = acc"
| "all_peers ((p, _) # vc) acc = all_peers vc (gm_put p True acc)"

fun compare_loop :: "vclock \<Rightarrow> vclock \<Rightarrow> (string, bool) gomap \<Rightarrow> bool \<times> bool \<Rightarrow> bool \<times> bool" where
  "compare_loop vc other [] (lt, gt) = (lt, gt)"
| "compare_loop vc other ((p, _) # ps) (lt, gt) =
     (let v1 = gm_get 0 vc p; v2 = gm_get 0 other p
      in if v1 < v2 then compare_loop vc other ps (True, gt)
         else if v1 > v2 then compare_loop vc other ps (lt, True)
         else compare_loop vc other ps (lt, gt))"

definition vc_compare :: "vclock \<Rightarrow> vclock \<Rightarrow> int" where
  "vc_compare vc other =
     (let allPeers = all_peers other (all_peers vc []);
          (lt, gt) = compare_loop vc other allPeers (False, False)
      in if lt \<and> \<not> gt then -1 else if gt \<and> \<not> lt then 1 else 0)"

definition vc_is_concurrent :: "vclock \<Rightarrow> vclock \<Rightarrow> bool" where
  "vc_is_concurrent vc other \<longleftrightarrow> vc_compare vc other = 0"

section \<open>Pointwise meaning\<close>

lemma vc_get_new [simp]: "vc_get NewVectorClock p = 0"
  by (simp add: vc_get_def NewVectorClock_def gm_get_def)

lemma vc_get_Nil [simp]: "vc_get [] p = 0"
  by (simp add: vc_get_def gm_get_def)

lemma vc_get_set: "vc_get (vc_set vc p v) q = (if q = p then v else vc_get vc q)"
  by (simp add: vc_get_def vc_set_def store_laws)

lemma vc_get_increment:
  "vc_get (vc_increment vc p) q = (if q = p then wrap64 (vc_get vc p + 1) else vc_get vc q)"
  by (simp add: vc_get_def vc_increment_def store_laws)

lemma gm_ok_increment [simp]: "gm_ok vc \<Longrightarrow> gm_ok (vc_increment vc p)"
  by (simp add: vc_increment_def)

lemma gm_ok_merge [simp]: "gm_ok vc \<Longrightarrow> gm_ok (vc_merge vc other)"
  by (induction vc other rule: vc_merge.induct) auto

lemma map_of_merge:
  "gm_ok other \<Longrightarrow> map_of (vc_merge vc other) q =
     (case map_of other q of None \<Rightarrow> map_of vc q
      | Some v \<Rightarrow> if gm_get 0 vc q < v then Some v else map_of vc q)"
proof (induction vc other rule: vc_merge.induct)
  case (1 vc)
  show ?case by simp
next
  case (2 vc p v other)
  then show ?case
    by (cases "q = p"; cases "map_of other q") (simp_all add: gm_get_put)
qed

lemma vc_get_merge:
  "gm_ok other \<Longrightarrow> vc_get (vc_merge vc other) p =
     (case map_of other p of None \<Rightarrow> vc_get vc p | Some v \<Rightarrow> max (vc_get vc p) v)"
  by (cases "map_of other p") (simp_all add: vc_get_def gm_get_def map_of_merge)

definition vc_nonneg :: "vclock \<Rightarrow> bool" where
  "vc_nonneg vc \<longleftrightarrow> gm_ok vc \<and> (\<forall>(p, v) \<in> set vc. 0 \<le> v)"

definition vc_le :: "vclock \<Rightarrow> vclock \<Rightarrow> bool" where
  "vc_le a b \<longleftrightarrow> (\<forall>p. vc_get a p \<le> vc_get b p)"

lemma vc_nonneg_ok [simp]: "vc_nonneg vc \<Longrightarrow> gm_ok vc"
  by (simp add: vc_nonneg_def)

lemma vc_nonneg_get: "vc_nonneg vc \<Longrightarrow> 0 \<le> vc_get vc p"
  by (auto simp: vc_nonneg_def vc_get_def gm_get_def split: option.splits dest: map_of_SomeD)

lemma vc_nonneg_map_of: "vc_nonneg vc \<Longrightarrow> map_of vc p = Some v \<Longrightarrow> 0 \<le> v"
  by (auto simp: vc_nonneg_def dest: map_of_SomeD)

lemma vc_nonneg_alt:
  "vc_nonneg vc \<longleftrightarrow> gm_ok vc \<and> (\<forall>p v. map_of vc p = Some v \<longrightarrow> 0 \<le> v)"
  by (force simp: vc_nonneg_def gm_ok_def dest: map_of_SomeD)

lemma vc_nonneg_Nil [simp]: "vc_nonneg []"
  by (simp add: vc_nonneg_def)

lemma vc_get_merge_max:
  assumes "vc_nonneg a" "vc_nonneg b"
  shows "vc_get (vc_merge a b) p = max (vc_get a p) (vc_get b p)"
proof (cases "map_of b p")
  case None
  with assms show ?thesis
    using vc_nonneg_get [of a p] by (simp add: vc_get_merge vc_get_def [of b] gm_get_def [of _ b])
next
  case (Some v)
  with assms show ?thesis by (simp add: vc_get_merge vc_get_def [of b] gm_get_def [of _ b])
qed

lemma vc_nonneg_merge [simp]: "vc_nonneg a \<Longrightarrow> vc_nonneg b \<Longrightarrow> vc_nonneg (vc_merge a b)"
  by (auto simp: vc_nonneg_alt map_of_merge split: option.splits if_splits)

section \<open>The result of Compare\<close>

lemma keys_all_peers: "fst ` set (all_peers vc acc) = fst ` set vc \<union> fst ` set acc"
  by (induction vc acc rule: all_peers.induct) (auto simp: set_gm_put_keys)

lemma compare_loop_flags:
  "compare_loop a b ps (l, g) =
     (l \<or> (\<exists>p \<in> fst ` set ps. vc_get a p < vc_get b p),
      g \<or> (\<exists>p \<in> fst ` set ps. vc_get a p > vc_get b p))"
  by (induction a b ps "(l, g)" arbitrary: l g rule: compare_loop.induct)
     (auto simp: vc_get_def Let_def)

lemma vc_get_outside: "p \<notin> fst ` set vc \<Longrightarrow> vc_get vc p = 0"
  by (auto simp: vc_get_def gm_get_def map_of_eq_None_iff split: option.splits
      dest: map_of_SomeD intro: rev_image_eqI)

text \<open>Peers outside both key sets read 0 on both sides, so the loop decides for all peers.\<close>

lemma compare_loop_all:
  "compare_loop a b (all_peers b (all_peers a [])) (False, False) =
     (\<exists>p. vc_get a p < vc_get b p, \<exists>p. vc_get b p < vc_get a p)"
proof -
  let ?P = "fst ` set (all_peers b (all_peers a []))"
  have "vc_get a p = vc_get b p" if "p \<notin> ?P" for p
    using that by (simp add: keys_all_peers vc_get_outside)
  then have "(\<exists>p \<in> ?P. vc_get a p < vc_get b p) = (\<exists>p. vc_get a p < vc_get b p)"
    and "(\<exists>p \<in> ?P. vc_get b p < vc_get a p) = (\<exists>p. vc_get b p < vc_get a p)"
    by (metis less_irrefl)+
  then show ?thesis by (simp add: compare_loop_flags)
qed

lemma vc_compare_alt:
  "vc_compare a b =
     (if vc_le a b \<and> \<not> vc_le b a then -1 else if vc_le b a \<and> \<not> vc_le a b then 1 else 0)"
  by (auto simp: vc_compare_def compare_loop_all vc_le_def Let_def not_less)

lemma vc_compare_range: "vc_compare a b \<in> {-1, 0, 1}"
  by (simp add: vc_compare_alt)

lemma vc_le_refl [simp]: "vc_le a a"
  by (simp add: vc_le_def)

lemma vc_le_trans [trans]: "vc_le a b \<Longrightarrow> vc_le b c \<Longrightarrow> vc_le a c"
  unfolding vc_le_def by (meson order_trans)

lemma vc_compare_uminus: "vc_compare b a = - vc_compare a b"
  by (simp add: vc_compare_alt)

lemma vc_compare_less_iff: "vc_compare a b < 0 \<longleftrightarrow> vc_le a b \<and> \<not> vc_le b a"
  by (simp add: vc_compare_alt)

section \<open>Merge as a join\<close>

text \<open>
  The contract of a clock type that peers merge: an order and a binary upper bound on a carrier.
  From it follow the laws that make the result independent of the order and the number of times
  clocks arrive.
\<close>

locale clock_join =
  fixes C :: "'c \<Rightarrow> bool" and le :: "'c \<Rightarrow> 'c \<Rightarrow> bool" and merge :: "'c \<Rightarrow> 'c \<Rightarrow> 'c"
  assumes le_refl: "le a a"
    and le_trans: "le a b \<Longrightarrow> le b c \<Longrightarrow> le a c"
    and C_merge: "C a \<Longrightarrow> C b \<Longrightarrow> C (merge a b)"
    and upper1: "C a \<Longrightarrow> C b \<Longrightarrow> le a (merge a b)"
    and upper2: "C a \<Longrightarrow> C b \<Longrightarrow> le b (merge a b)"
    and least: "C a \<Longrightarrow> C b \<Longrightarrow> le a c \<Longrightarrow> le b c \<Longrightarrow> le (merge a b) c"
begin

lemma merge_mono:
  "C a \<Longrightarrow> C b \<Longrightarrow> C a' \<Longrightarrow> C b' \<Longrightarrow> le a a' \<Longrightarrow> le b b' \<Longrightarrow> le (merge a b) (merge a' b')"
  by (meson least le_trans upper1 upper2)

lemma C_fold: "C a \<Longrightarrow> \<forall>x \<in> set xs. C x \<Longrightarrow> C (foldl merge a xs)"
  by (induction xs arbitrary: a) (auto intro: C_merge)

lemma fold_upper0: "C a \<Longrightarrow> \<forall>x \<in> set xs. C x \<Longrightarrow> le a (foldl merge a xs)"
proof (induction xs arbitrary: a)
  case Nil
  show ?case by (simp add: le_refl)
next
  case (Cons x xs)
  then have "le (merge a x) (foldl merge (merge a x) xs)" by (simp add: C_merge)
  with Cons.prems show ?case by (auto intro: le_trans upper1)
qed

lemma fold_upper: "C a \<Longrightarrow> \<forall>x \<in> set xs. C x \<Longrightarrow> x \<in> set xs \<Longrightarrow> le x (foldl merge a xs)"
proof (induction xs arbitrary: a)
  case (Cons y ys)
  show ?case
  proof (cases "x \<in> set ys")
    case True
    with Cons show ?thesis by (simp add: C_merge)
  next
    case False
    with Cons.prems have "x = y" by simp
    with Cons.prems show ?thesis
      using fold_upper0 [of "merge a y" ys] by (auto intro: le_trans upper2 C_merge)
  qed
qed simp

lemma fold_least:
  "C a \<Longrightarrow> \<forall>x \<in> set xs. C x \<Longrightarrow> le a c \<Longrightarrow> \<forall>x \<in> set xs. le x c \<Longrightarrow> le (foldl merge a xs) c"
  by (induction xs arbitrary: a) (auto intro: C_merge least)

text \<open>Which clocks were merged decides the result; their order and repetitions do not.\<close>

lemma fold_set_eq:
  assumes "C a" "\<forall>x \<in> set xs. C x" "set xs = set ys"
  shows "le (foldl merge a xs) (foldl merge a ys)"
  using assms by (intro fold_least) (auto intro: fold_upper0 fold_upper)

end

interpretation vc: clock_join vc_nonneg vc_le vc_merge
  by unfold_locales (auto simp: vc_le_def vc_get_merge_max intro: order_trans)

section \<open>Peers that exchange clocks\<close>

text \<open>
  The engine increments its own entry and attaches a copy of its clock to every local operation
  (\<^verbatim>\<open>queueOperation\<close>), and merges the clock of every operation it receives
  (\<^verbatim>\<open>processIncomingFileAsync\<close>). Operations can be lost, repeated and delivered in any order:
  \<open>in_transit\<close> keeps every clock ever sent. A peer stops at \<open>2 ^ 63 - 1\<close> operations of its own.
\<close>

record clocks =
  clock_of :: "string \<Rightarrow> vclock"
  in_transit :: "vclock list"

definition init_clocks :: clocks where
  "init_clocks = \<lparr>clock_of = (\<lambda>_. NewVectorClock), in_transit = []\<rparr>"

inductive clock_step :: "clocks \<Rightarrow> clocks \<Rightarrow> bool" where
  send: "in_int64 (vc_get (clock_of s p) p + 1) \<Longrightarrow>
    clock_step s (s\<lparr>clock_of := (clock_of s)(p := vc_increment (clock_of s p) p),
                   in_transit := vc_increment (clock_of s p) p # in_transit s\<rparr>)"
| receive: "m \<in> set (in_transit s) \<Longrightarrow>
    clock_step s (s\<lparr>clock_of := (clock_of s)(p := vc_merge (clock_of s p) m)\<rparr>)"

inductive clocks_reachable :: "clocks \<Rightarrow> bool" where
  start: "clocks_reachable init_clocks"
| step: "clocks_reachable s \<Longrightarrow> clock_step s t \<Longrightarrow> clocks_reachable t"

inductive_cases clock_stepE: "clock_step s t"

text \<open>The strengthened invariant: clocks are well formed, and a peer knows most about itself.\<close>

definition clocks_inv :: "clocks \<Rightarrow> bool" where
  "clocks_inv s \<longleftrightarrow>
     (\<forall>p. vc_nonneg (clock_of s p)) \<and> (\<forall>m \<in> set (in_transit s). vc_nonneg m) \<and>
     (\<forall>p q. vc_get (clock_of s q) p \<le> vc_get (clock_of s p) p) \<and>
     (\<forall>p. \<forall>m \<in> set (in_transit s). vc_get m p \<le> vc_get (clock_of s p) p)"

lemma vc_nonneg_increment:
  "vc_nonneg vc \<Longrightarrow> in_int64 (vc_get vc p + 1) \<Longrightarrow> vc_nonneg (vc_increment vc p)"
  using vc_nonneg_get [of vc p]
  by (auto simp: vc_nonneg_alt vc_increment_def vc_get_def split: if_splits)

lemma vc_get_increment_le:
  "in_int64 (vc_get vc p + 1) \<Longrightarrow> vc_get vc q \<le> vc_get (vc_increment vc p) q"
  by (simp add: vc_get_increment)

lemma clocks_inv_init: "clocks_inv init_clocks"
  by (simp add: clocks_inv_def init_clocks_def NewVectorClock_def)

lemma clocks_inv_send:
  assumes inv: "clocks_inv s" and room: "in_int64 (vc_get (clock_of s p) p + 1)"
  shows "clocks_inv (s\<lparr>clock_of := (clock_of s)(p := vc_increment (clock_of s p) p),
                       in_transit := vc_increment (clock_of s p) p # in_transit s\<rparr>)"
proof -
  have own: "vc_get (clock_of s q) p \<le> vc_get (vc_increment (clock_of s p) p) p"
    "m \<in> set (in_transit s) \<Longrightarrow> vc_get m p \<le> vc_get (vc_increment (clock_of s p) p) p" for q m
    using inv vc_get_increment_le [OF room, of p] by (auto simp: clocks_inv_def; meson order_trans)+
  moreover have "vc_nonneg (vc_increment (clock_of s p) p)"
    using inv room by (auto simp: clocks_inv_def intro: vc_nonneg_increment)
  ultimately show ?thesis
    using inv by (auto simp: clocks_inv_def) (auto simp: vc_get_increment)
qed

lemma clocks_inv_receive:
  assumes inv: "clocks_inv s" and m: "m \<in> set (in_transit s)"
  shows "clocks_inv (s\<lparr>clock_of := (clock_of s)(p := vc_merge (clock_of s p) m)\<rparr>)"
proof -
  have ok: "vc_nonneg m" "vc_nonneg (clock_of s p)"
    using inv m by (auto simp: clocks_inv_def)
  then have max: "vc_get (vc_merge (clock_of s p) m) q = max (vc_get (clock_of s p) q) (vc_get m q)"
    for q by (simp add: vc_get_merge_max)
  have "vc_get m q \<le> vc_get (clock_of s q) q" for q
    using inv m by (auto simp: clocks_inv_def)
  with ok max inv show ?thesis
    by (auto simp: clocks_inv_def)
qed

lemma clocks_inv_step: "clock_step s t \<Longrightarrow> clocks_inv s \<Longrightarrow> clocks_inv t"
  by (auto elim!: clock_stepE simp: clocks_inv_send clocks_inv_receive)

lemma clocks_reachable_inv: "clocks_reachable s \<Longrightarrow> clocks_inv s"
  by (induction rule: clocks_reachable.induct) (auto intro: clocks_inv_init clocks_inv_step)

lemma clocks_inv_own: "clocks_inv s \<Longrightarrow> vc_get (clock_of s q) p \<le> vc_get (clock_of s p) p"
  by (simp add: clocks_inv_def)

lemma clocks_inv_transit:
  "clocks_inv s \<Longrightarrow> m \<in> set (in_transit s) \<Longrightarrow> vc_nonneg m \<and> vc_get m p \<le> vc_get (clock_of s p) p"
  by (simp add: clocks_inv_def)

lemma clocks_inv_nonneg: "clocks_inv s \<Longrightarrow> vc_nonneg (clock_of s p)"
  by (simp add: clocks_inv_def)

section \<open>Properties\<close>

text \<open>C18. \<open>Merge\<close> computes the least upper bound of two clocks: it is above both, and below every
  clock that is above both.\<close>

theorem merge_least_upper_bound:
  assumes "vc_nonneg a" and "vc_nonneg b"
  shows "vc_le a (vc_merge a b) \<and> vc_le b (vc_merge a b) \<and>
    (\<forall>c. vc_le a c \<and> vc_le b c \<longrightarrow> vc_le (vc_merge a b) c)"
  using assms by (auto intro: vc.upper1 vc.upper2 vc.least)

lemma merge_least_upper_bound_witness:
  "vc_le [(''p'', 2)] (vc_merge [(''p'', 2)] [(''p'', 1), (''q'', 3)]) \<and>
   vc_le [(''p'', 1), (''q'', 3)] (vc_merge [(''p'', 2)] [(''p'', 1), (''q'', 3)])"
  using merge_least_upper_bound [of "[(''p'', 2)]" "[(''p'', 1), (''q'', 3)]"]
  by (simp add: vc_nonneg_def)

text \<open>Merging a collection of clocks gives clocks with the same entries whatever the order
  and the number of times they are merged: delivery order and duplicates do not matter.\<close>

theorem merge_order_independent:
  assumes "vc_nonneg a" and "\<forall>x \<in> set xs. vc_nonneg x" and "set xs = set ys"
  shows "vc_get (foldl vc_merge a xs) = vc_get (foldl vc_merge a ys)"
proof
  fix p
  have "vc_le (foldl vc_merge a xs) (foldl vc_merge a ys)"
    and "vc_le (foldl vc_merge a ys) (foldl vc_merge a xs)"
    using assms by (auto intro!: vc.fold_set_eq)
  then show "vc_get (foldl vc_merge a xs) p = vc_get (foldl vc_merge a ys) p"
    by (simp add: vc_le_def order_antisym)
qed

lemma merge_order_independent_witness:
  "vc_get (foldl vc_merge [] [[(''p'', 2)], [(''q'', 1), (''p'', 1)]]) =
   vc_get (foldl vc_merge [] [[(''q'', 1), (''p'', 1)], [(''p'', 2)], [(''p'', 2)]])"
  by (rule merge_order_independent) (auto simp: vc_nonneg_def)

text \<open>\<open>Compare\<close> returns -1 exactly when the first clock is below the second and differs from it,
  1 exactly in the mirrored case, and 0 exactly when the clocks are equal or each is ahead of
  the other at some peer: its result does not depend on which keys are present.\<close>

theorem compare_decides_order:
  "(vc_compare a b = - 1 \<longleftrightarrow> vc_le a b \<and> vc_get a \<noteq> vc_get b) \<and>
   (vc_compare a b = 1 \<longleftrightarrow> vc_le b a \<and> vc_get a \<noteq> vc_get b) \<and>
   (vc_compare a b = 0 \<longleftrightarrow> vc_get a = vc_get b \<or>
      (\<exists>p q. vc_get a p < vc_get b p \<and> vc_get b q < vc_get a q))"
proof -
  have eq: "vc_get a = vc_get b \<longleftrightarrow> vc_le a b \<and> vc_le b a"
    by (auto simp: vc_le_def fun_eq_iff order_antisym)
  have "(\<exists>p q. vc_get a p < vc_get b p \<and> vc_get b q < vc_get a q) \<longleftrightarrow> \<not> vc_le a b \<and> \<not> vc_le b a"
    by (auto simp: vc_le_def not_le)
  with eq show ?thesis by (auto simp: vc_compare_alt)
qed

text \<open>In every reachable state of the peers, no clock and no operation under way is ahead of a
  peer's own clock in that peer's entry.\<close>

theorem owner_entry_is_maximal:
  assumes "clocks_reachable s"
  shows "vc_get (clock_of s q) p \<le> vc_get (clock_of s p) p \<and>
    (\<forall>m \<in> set (in_transit s). vc_get m p \<le> vc_get (clock_of s p) p)"
  using clocks_reachable_inv [OF assms] by (simp add: clocks_inv_def)

text \<open>Two peers have each sent one operation.\<close>

definition two_sends :: clocks where
  "two_sends =
     \<lparr>clock_of = (clock_of init_clocks)(''p'' := [(''p'', 1)], ''q'' := [(''q'', 1)]),
      in_transit = [[(''q'', 1)], [(''p'', 1)]]\<rparr>"

lemma two_sends_reachable: "clocks_reachable two_sends"
proof -
  let ?s = "init_clocks\<lparr>clock_of := (clock_of init_clocks)(''p'' := [(''p'', 1)]),
                        in_transit := [[(''p'', 1)]]\<rparr>"
  have "clock_step init_clocks ?s"
    using clock_step.send [of init_clocks "''p''"]
    by (simp add: init_clocks_def NewVectorClock_def vc_increment_def vc_get_def gm_get_def
        gm_put_def in_int64_def)
  moreover have "clock_step ?s two_sends"
    using clock_step.send [of ?s "''q''"]
    by (simp add: two_sends_def init_clocks_def NewVectorClock_def vc_increment_def vc_get_def
        gm_get_def gm_put_def in_int64_def)
  ultimately show ?thesis
    by (meson clocks_reachable.intros)
qed

lemma owner_entry_is_maximal_witness:
  "vc_get (clock_of two_sends ''q'') ''p'' \<le> vc_get (clock_of two_sends ''p'') ''p''"
  using owner_entry_is_maximal [OF two_sends_reachable] by blast

text \<open>Causality is seen: an operation that a peer sends after it has received \<open>m\<close> carries a clock
  that \<open>Compare\<close> places strictly after \<open>m\<close>.\<close>

theorem reply_is_ordered_after:
  assumes reach: "clocks_reachable s" and m: "m \<in> set (in_transit s)"
    and room: "in_int64 (vc_get (clock_of s q) q + 1)"
  shows "vc_compare m (vc_increment (vc_merge (clock_of s q) m) q) = - 1"
proof -
  note inv = clocks_reachable_inv [OF reach]
  let ?c = "vc_merge (clock_of s q) m"
  have nn: "vc_nonneg (clock_of s q)" "vc_nonneg m" and own: "vc_get m q \<le> vc_get (clock_of s q) q"
    using inv m by (auto simp: clocks_inv_nonneg clocks_inv_transit)
  then have c: "vc_get ?c p = max (vc_get (clock_of s q) p) (vc_get m p)" for p
    by (rule_tac vc_get_merge_max)
  with own room have "vc_get (vc_increment ?c q) p =
      (if p = q then vc_get (clock_of s q) q + 1 else vc_get ?c p)" for p
    by (simp add: vc_get_increment max_def)
  with c own have "vc_le m (vc_increment ?c q)" and "\<not> vc_le (vc_increment ?c q) m"
    by (auto simp: vc_le_def not_le intro: exI [of _ q])
  then show ?thesis by (simp add: vc_compare_alt)
qed

lemma reply_is_ordered_after_witness:
  "vc_compare [(''p'', 1)] (vc_increment (vc_merge (clock_of two_sends ''q'') [(''p'', 1)]) ''q'') = - 1"
  by (rule reply_is_ordered_after [OF two_sends_reachable])
     (simp_all add: two_sends_def vc_get_def gm_get_def in_int64_def)

end
