(* ===== verification/Operations.thy ===== *)
theory Operations
  imports VectorClock
begin

text \<open>
  Synchronisation operations and the per-file operation queue:
  \<^verbatim>\<open>internal/sync/operation.go\<close> and \<^verbatim>\<open>internal/sync/queue.go\<close>. The record \<open>sync_op\<close> has the
  fields of the Go struct, a pointer field being an option. The queue is shown to be a first-in
  first-out queue for every file on its own (locale \<open>keyed_fifo\<close>), under any interleaving of the
  operations of other files, and to hold no entry for a file without operations.
\<close>

section \<open>Operations\<close>

definition OpCreate :: string where "OpCreate = ''create''"
definition OpUpdate :: string where "OpUpdate = ''update''"
definition OpDelete :: string where "OpDelete = ''delete''"
definition OpRename :: string where "OpRename = ''rename''"
definition OpMkdir :: string where "OpMkdir = ''mkdir''"
definition OpRmdir :: string where "OpRmdir = ''rmdir''"

lemmas op_types = OpCreate_def OpUpdate_def OpDelete_def OpRename_def OpMkdir_def OpRmdir_def

record sync_op =
  so_id :: string
  so_type :: string
  so_path :: string
  so_from_path :: "string option"
  so_file_id :: string
  so_checksum :: string
  so_size :: int64
  so_timestamp :: int64
  so_vector_clock :: "vclock option"
  so_peer_id :: string
  so_source :: string
  so_mtime :: int64
  so_mode :: "int option"
  so_data :: bytes
  so_chunk_id :: "int option"
  so_is_last :: "bool option"
  so_compressed :: "bool option"
  so_original_size :: "int64 option"
  so_compression_algorithm :: "string option"
  so_compression_level :: "int option"

text \<open>The zero value of the struct: what a composite literal leaves unset.\<close>

definition zero_op :: sync_op where
  "zero_op = \<lparr>so_id = '''', so_type = '''', so_path = '''', so_from_path = None, so_file_id = '''',
     so_checksum = '''', so_size = 0, so_timestamp = 0, so_vector_clock = None, so_peer_id = '''',
     so_source = '''', so_mtime = 0, so_mode = None, so_data = [], so_chunk_id = None,
     so_is_last = None, so_compressed = None, so_original_size = None,
     so_compression_algorithm = None, so_compression_level = None\<rparr>"

text \<open>\<open>fmt.Sprintf("%d", n)\<close> for a 64-bit integer.\<close>

definition digit_char :: "nat \<Rightarrow> char" where
  "digit_char d = char_of (48 + d)"

fun dec_nat :: "nat \<Rightarrow> string" where
  "dec_nat n = (if n < 10 then [digit_char n] else dec_nat (n div 10) @ [digit_char (n mod 10)])"

declare dec_nat.simps [simp del]

definition dec_int :: "int \<Rightarrow> string" where
  "dec_int i = (if i < 0 then ''-'' @ dec_nat (nat (- i)) else dec_nat (nat i))"

definition unix_milli :: "time \<Rightarrow> int64" where
  "unix_milli t = t div 1000000"

definition unix_sec :: "time \<Rightarrow> int64" where
  "unix_sec t = t div 1000000000"

definition generateOperationID :: "time \<Rightarrow> string" where
  "generateOperationID now = ''op-'' @ dec_int now"

text \<open>The clock is read twice, for the id and for the timestamp.\<close>

definition NewSyncOperation :: "time \<Rightarrow> time \<Rightarrow> string \<Rightarrow> string \<Rightarrow> string \<Rightarrow> string \<Rightarrow> sync_op" where
  "NewSyncOperation now_id now_ts opType path fileID peerID =
     zero_op\<lparr>so_id := generateOperationID now_id, so_type := opType, so_path := path,
       so_file_id := fileID, so_peer_id := peerID, so_source := ''local'',
       so_timestamp := unix_milli now_ts, so_vector_clock := Some NewVectorClock\<rparr>"

text \<open>The decimal representation is injective, so ids made at different instants differ.\<close>

fun dec_val :: "string \<Rightarrow> nat" where
  "dec_val s = foldl (\<lambda>acc c. 10 * acc + (of_char c - 48)) 0 s"

lemma of_digit_char: "d < 10 \<Longrightarrow> of_char (digit_char d) = 48 + d"
  by (simp add: digit_char_def)

lemma dec_val_dec_nat: "dec_val (dec_nat n) = n"
proof (induction n rule: dec_nat.induct)
  case (1 n)
  show ?case
  proof (cases "n < 10")
    case True
    then show ?thesis by (subst dec_nat.simps) (simp add: of_digit_char)
  next
    case False
    with "1.IH" show ?thesis by (subst dec_nat.simps) (simp add: of_digit_char)
  qed
qed

lemma dec_nat_inj: "dec_nat m = dec_nat n \<longleftrightarrow> m = n"
  by (metis dec_val_dec_nat)

lemma dec_nat_not_minus: "dec_nat n \<noteq> CHR ''-'' # s"
proof (induction n arbitrary: s rule: dec_nat.induct)
  case (1 n)
  have minus: "digit_char d \<noteq> CHR ''-''" if "d < 10" for d
    using of_digit_char [OF that] by auto
  show ?case
  proof (cases "n < 10")
    case True
    then show ?thesis using minus by (subst dec_nat.simps) simp
  next
    case False
    then have "dec_nat n = dec_nat (n div 10) @ [digit_char (n mod 10)]"
      by (subst dec_nat.simps) simp
    with "1.IH" [OF False] minus [of "n mod 10"] show ?thesis
      by (cases "dec_nat (n div 10)") auto
  qed
qed

lemma dec_int_inj: "dec_int i = dec_int j \<longleftrightarrow> i = j"
  using dec_nat_not_minus by (auto simp: dec_int_def dec_nat_inj split: if_splits) metis+

lemma generateOperationID_inj: "generateOperationID t = generateOperationID u \<longleftrightarrow> t = u"
  by (simp add: generateOperationID_def dec_int_inj)

section \<open>The per-file queue\<close>

type_synonym 'op op_queue = "(string, 'op list) gomap"

definition NewOperationQueue :: "'op op_queue" where
  "NewOperationQueue = []"

definition Enqueue :: "'op op_queue \<Rightarrow> string \<Rightarrow> 'op \<Rightarrow> 'op op_queue" where
  "Enqueue q fileID op = gm_put fileID (gm_get [] q fileID @ [op]) q"

definition Dequeue :: "'op op_queue \<Rightarrow> string \<Rightarrow> 'op option \<times> 'op op_queue" where
  "Dequeue q fileID =
     (case map_of q fileID of
        None \<Rightarrow> (None, q)
      | Some [] \<Rightarrow> (None, q)
      | Some (op # rest) \<Rightarrow>
          (let q1 = gm_put fileID rest q
           in (Some op, if length (gm_get [] q1 fileID) = 0 then gm_del fileID q1 else q1)))"

definition Peek :: "'op op_queue \<Rightarrow> string \<Rightarrow> 'op option" where
  "Peek q fileID =
     (case map_of q fileID of None \<Rightarrow> None | Some [] \<Rightarrow> None | Some (op # _) \<Rightarrow> Some op)"

definition IsEmpty :: "'op op_queue \<Rightarrow> string \<Rightarrow> bool" where
  "IsEmpty q fileID = (case map_of q fileID of None \<Rightarrow> True | Some ops \<Rightarrow> length ops = 0)"

definition Size :: "'op op_queue \<Rightarrow> string \<Rightarrow> nat" where
  "Size q fileID = length (gm_get [] q fileID)"

text \<open>The operations waiting for a file.\<close>

definition waiting :: "'op op_queue \<Rightarrow> string \<Rightarrow> 'op list" where
  "waiting q fileID = gm_get [] q fileID"

section \<open>A queue per key\<close>

datatype ('k, 'a) qevent = Enq 'k 'a | Deq 'k

text \<open>A run over a sequence of events: the final queue and what came out, with its key.\<close>

fun fifo_run :: "('q \<Rightarrow> 'k \<Rightarrow> 'a \<Rightarrow> 'q) \<Rightarrow> ('q \<Rightarrow> 'k \<Rightarrow> 'a option \<times> 'q) \<Rightarrow> 'q \<Rightarrow>
    ('k, 'a) qevent list \<Rightarrow> 'q \<times> ('k \<times> 'a) list" where
  "fifo_run enq deq q [] = (q, [])"
| "fifo_run enq deq q (Enq k x # es) = fifo_run enq deq (enq q k x) es"
| "fifo_run enq deq q (Deq k # es) =
     (case deq q k of (r, q') \<Rightarrow>
        (case fifo_run enq deq q' es of (q'', out) \<Rightarrow>
           (q'', (case r of None \<Rightarrow> out | Some x \<Rightarrow> (k, x) # out))))"

fun put_in :: "'k \<Rightarrow> ('k, 'a) qevent list \<Rightarrow> 'a list" where
  "put_in k [] = []"
| "put_in k (Enq k' x # es) = (if k' = k then x # put_in k es else put_in k es)"
| "put_in k (Deq _ # es) = put_in k es"

definition taken_out :: "'k \<Rightarrow> ('k \<times> 'a) list \<Rightarrow> 'a list" where
  "taken_out k out = map snd (filter (\<lambda>(k', x). k' = k) out)"

locale keyed_fifo =
  fixes ok :: "'q \<Rightarrow> bool" and enq :: "'q \<Rightarrow> 'k \<Rightarrow> 'a \<Rightarrow> 'q"
    and deq :: "'q \<Rightarrow> 'k \<Rightarrow> 'a option \<times> 'q" and view :: "'q \<Rightarrow> 'k \<Rightarrow> 'a list"
  assumes ok_enq: "ok q \<Longrightarrow> ok (enq q k x)"
    and ok_deq: "ok q \<Longrightarrow> ok (snd (deq q k))"
    and view_enq: "ok q \<Longrightarrow> view (enq q k x) k' = (if k' = k then view q k @ [x] else view q k')"
    and view_deq: "ok q \<Longrightarrow> view (snd (deq q k)) k' = (if k' = k then tl (view q k) else view q k')"
    and deq_first: "ok q \<Longrightarrow>
      fst (deq q k) = (case view q k of [] \<Rightarrow> None | x # _ \<Rightarrow> Some x)"
begin

text \<open>Nothing is lost, invented, repeated or reordered: what went in for a key is what came out for
  it, in order, followed by what still waits.\<close>

lemma run_fifo:
  "ok q \<Longrightarrow> view q k @ put_in k es =
     taken_out k (snd (fifo_run enq deq q es)) @ view (fst (fifo_run enq deq q es)) k"
proof (induction es arbitrary: q)
  case Nil
  show ?case by (simp add: taken_out_def)
next
  case (Cons e es)
  show ?case
  proof (cases e)
    case (Enq k' x)
    with Cons.prems show ?thesis
      using Cons.IH [of "enq q k' x"] by (cases "k' = k") (simp_all add: ok_enq view_enq)
  next
    case (Deq k')
    obtain r q' where d: "deq q k' = (r, q')" by (cases "deq q k'")
    obtain q'' out where e: "fifo_run enq deq q' es = (q'', out)" by (cases "fifo_run enq deq q' es")
    have IH: "view q' k @ put_in k es = taken_out k out @ view q'' k"
      using Cons.IH [of q'] Cons.prems d e ok_deq [of q k'] by simp
    then show ?thesis
      using Deq Cons.prems d e view_deq [of q k' k] deq_first [of q k']
      by (cases "view q k'") (auto simp: taken_out_def split: if_splits)
  qed
qed

lemma ok_run: "ok q \<Longrightarrow> ok (fst (fifo_run enq deq q es))"
proof (induction es arbitrary: q)
  case (Cons e es)
  show ?case
  proof (cases e)
    case (Enq k x)
    with Cons show ?thesis by (simp add: ok_enq)
  next
    case (Deq k)
    with Cons show ?thesis using ok_deq [of q k] by (auto split: prod.splits) (metis fst_conv)
  qed
qed simp

end

definition queue_inv :: "'op op_queue \<Rightarrow> bool" where
  "queue_inv q \<longleftrightarrow> gm_ok q \<and> (\<forall>k. map_of q k \<noteq> Some [])"

lemma queue_inv_new: "queue_inv NewOperationQueue"
  by (simp add: queue_inv_def NewOperationQueue_def)

lemma queue_inv_Enqueue: "queue_inv q \<Longrightarrow> queue_inv (Enqueue q k x)"
  by (simp add: queue_inv_def Enqueue_def)

lemma queue_inv_Dequeue: "queue_inv q \<Longrightarrow> queue_inv (snd (Dequeue q k))"
  by (auto simp: queue_inv_def Dequeue_def Let_def gm_get_def split: option.splits list.splits)

lemma waiting_Enqueue: "waiting (Enqueue q k x) k' = (if k' = k then waiting q k @ [x] else waiting q k')"
  by (simp add: waiting_def Enqueue_def store_laws)

lemma waiting_Dequeue:
  "waiting (snd (Dequeue q k)) k' = (if k' = k then tl (waiting q k) else waiting q k')"
  by (auto simp: waiting_def Dequeue_def Let_def gm_get_def split: option.splits list.splits)

lemma fst_Dequeue: "fst (Dequeue q k) = (case waiting q k of [] \<Rightarrow> None | x # _ \<Rightarrow> Some x)"
  by (auto simp: waiting_def Dequeue_def Let_def gm_get_def split: option.splits list.splits)

interpretation opq: keyed_fifo queue_inv Enqueue Dequeue waiting
  by unfold_locales
     (simp_all add: queue_inv_Enqueue queue_inv_Dequeue waiting_Enqueue waiting_Dequeue fst_Dequeue)

lemma IsEmpty_waiting: "IsEmpty q k \<longleftrightarrow> waiting q k = []"
  by (auto simp: IsEmpty_def waiting_def gm_get_def split: option.splits)

lemma Peek_waiting: "Peek q k = (case waiting q k of [] \<Rightarrow> None | x # _ \<Rightarrow> Some x)"
  by (auto simp: Peek_def waiting_def gm_get_def split: option.splits list.splits)

section \<open>Properties\<close>

text \<open>C19. Per-file first-in first-out order under any interleaving: from the new queue, the operations
  dequeued for a file followed by those still waiting are the operations enqueued for it, in order.\<close>

theorem queue_is_fifo_per_file:
  "put_in k es =
     taken_out k (snd (fifo_run Enqueue Dequeue NewOperationQueue es)) @
     waiting (fst (fifo_run Enqueue Dequeue NewOperationQueue es)) k"
  using opq.run_fifo [OF queue_inv_new, of k es]
  by (simp add: waiting_def NewOperationQueue_def gm_get_def)

text \<open>No run leaves an entry without operations in the map, so a file has an entry exactly when
  \<open>IsEmpty\<close> is false for it, which is when \<open>Peek\<close> returns an operation and \<open>Size\<close> is positive.\<close>

theorem queue_has_no_empty_entries:
  "let q = fst (fifo_run Enqueue Dequeue NewOperationQueue es) in
     (map_of q k \<noteq> None \<longleftrightarrow> \<not> IsEmpty q k) \<and> (Peek q k \<noteq> None \<longleftrightarrow> \<not> IsEmpty q k) \<and>
     (0 < Size q k \<longleftrightarrow> \<not> IsEmpty q k)"
proof -
  have "queue_inv (fst (fifo_run Enqueue Dequeue NewOperationQueue es))"
    by (rule opq.ok_run [OF queue_inv_new])
  then show ?thesis
    unfolding Let_def
    by (auto simp: IsEmpty_def Peek_def Size_def gm_get_def queue_inv_def
        split: option.splits list.splits)
qed

end
