(* ===== verification/LineMerge.thy ===== *)
theory LineMerge
  imports Operations
begin

text \<open>
  The line-based merge of two versions of a text file, \<^verbatim>\<open>internal/sync/conflict/merge.go\<close>, with
  the parts of Go's \<^verbatim>\<open>strings\<close> package it uses. A file is split at newlines; \<open>mergeLinesDiff\<close> keeps
  the common prefix and suffix and combines what lies between. The lemmas say which lines survive,
  which branch of the code is dead, and what happens when prefix and suffix overlap.
\<close>

section \<open>Strings\<close>

definition newline :: char where "newline = CHR 0x0A"

text \<open>\<open>strings.Split\<close> with a one-byte separator, and \<open>strings.Join\<close>.\<close>

fun split_on :: "char \<Rightarrow> string \<Rightarrow> string list" where
  "split_on c [] = [[]]"
| "split_on c (x # xs) =
     (if x = c then [] # split_on c xs
      else (case split_on c xs of [] \<Rightarrow> [[x]] | l # ls \<Rightarrow> (x # l) # ls))"

fun join_with :: "string \<Rightarrow> string list \<Rightarrow> string" where
  "join_with sep [] = []"
| "join_with sep [l] = l"
| "join_with sep (l # ls) = l @ sep @ join_with sep ls"

definition split_lines :: "string \<Rightarrow> string list" where
  "split_lines s = split_on newline s"

definition join_lines :: "string list \<Rightarrow> string" where
  "join_lines ls = join_with [newline] ls"

lemma split_on_not_Nil [simp]: "split_on c s \<noteq> []"
  by (cases s) (auto split: list.splits)

lemma join_split_on: "join_with [c] (split_on c s) = s"
proof (induction s)
  case (Cons x xs)
  obtain l ls where ls: "split_on c xs = l # ls"
    by (cases "split_on c xs") auto
  with Cons show ?case by (cases ls) auto
qed simp

lemma join_split_lines [simp]: "join_lines (split_lines s) = s"
  by (simp add: join_lines_def split_lines_def join_split_on)

lemma split_on_no_sep: "c \<notin> set l \<Longrightarrow> split_on c l = [l]"
  by (induction l) auto

lemma split_on_append_sep: "c \<notin> set l \<Longrightarrow> split_on c (l @ c # s) = l # split_on c s"
  by (induction l) auto

lemma split_join_on: "ls \<noteq> [] \<Longrightarrow> \<forall>l \<in> set ls. c \<notin> set l \<Longrightarrow> split_on c (join_with [c] ls) = ls"
  by (induction "[c]" ls rule: join_with.induct)
     (auto simp: split_on_no_sep split_on_append_sep)

lemma split_on_lines_no_sep: "l \<in> set (split_on c s) \<Longrightarrow> c \<notin> set l"
  by (induction s arbitrary: l) (force split: if_splits list.splits)+

lemma split_lines_inj: "split_lines s = split_lines t \<longleftrightarrow> s = t"
  by (metis join_split_lines)

text \<open>\<open>xs[i:j]\<close>\<close>

definition slice :: "nat \<Rightarrow> nat \<Rightarrow> 'a list \<Rightarrow> 'a list" where
  "slice i j xs = take (j - i) (drop i xs)"

text \<open>
  \<open>strings.TrimSpace\<close>: the ASCII white space and the UTF-8 encodings of the other code points of
  Unicode's \<^verbatim>\<open>White_Space\<close> property.
\<close>

definition space_seqs :: "string list" where
  "space_seqs =
     [[CHR 0x09], [CHR 0x0A], [CHR 0x0B], [CHR 0x0C], [CHR 0x0D], [CHR 0x20],
      [CHR 0xC2, CHR 0x85], [CHR 0xC2, CHR 0xA0], [CHR 0xE1, CHR 0x9A, CHR 0x80],
      [CHR 0xE2, CHR 0x80, CHR 0xA8], [CHR 0xE2, CHR 0x80, CHR 0xA9],
      [CHR 0xE2, CHR 0x80, CHR 0xAF], [CHR 0xE2, CHR 0x81, CHR 0x9F],
      [CHR 0xE3, CHR 0x80, CHR 0x80]] @
     map (\<lambda>n. [CHR 0xE2, CHR 0x80, char_of (n :: nat)]) [128..<139]"

fun strip_one :: "string list \<Rightarrow> string \<Rightarrow> string option" where
  "strip_one [] s = None"
| "strip_one (w # ws) s =
     (if w \<noteq> [] \<and> take (length w) s = w then Some (drop (length w) s) else strip_one ws s)"

lemma strip_one_shorter: "strip_one ws s = Some t \<Longrightarrow> length t < length s"
  by (induction ws; cases s) (auto split: if_splits)

function trim_left :: "string list \<Rightarrow> string \<Rightarrow> string" where
  "trim_left ws s = (case strip_one ws s of None \<Rightarrow> s | Some t \<Rightarrow> trim_left ws t)"
  by pat_completeness auto
termination
  by (relation "measure (\<lambda>(ws, s). length s)") (auto dest: strip_one_shorter)

declare trim_left.simps [simp del]

definition TrimSpace :: "string \<Rightarrow> string" where
  "TrimSpace s = rev (trim_left (map rev space_seqs) (rev (trim_left space_seqs s)))"

section \<open>The merge\<close>

record conflict_op =
  co_id :: string
  co_type :: string
  co_path :: string
  co_from_path :: "string option"
  co_file_id :: string
  co_checksum :: string
  co_size :: int64
  co_timestamp :: int64
  co_peer_id :: string
  co_data :: bytes

fun findCommonPrefix :: "string list \<Rightarrow> string list \<Rightarrow> string list" where
  "findCommonPrefix (x # xs) (y # ys) = (if x = y then x # findCommonPrefix xs ys else [])"
| "findCommonPrefix _ _ = []"

text \<open>The loop of \<open>findCommonSuffix\<close> reads both lists from the end: it runs on the reversed lists.\<close>

fun suffix_loop :: "string list \<Rightarrow> string list \<Rightarrow> string list \<Rightarrow> string list" where
  "suffix_loop (x # xs) (y # ys) common = (if x = y then suffix_loop xs ys (x # common) else common)"
| "suffix_loop _ _ common = common"

definition findCommonSuffix :: "string list \<Rightarrow> string list \<Rightarrow> string list" where
  "findCommonSuffix lines1 lines2 = suffix_loop (rev lines1) (rev lines2) []"

definition line_set :: "string list \<Rightarrow> (string, bool) gomap" where
  "line_set ls = fold (\<lambda>l m. gm_put l True m) ls []"

definition areDisjoint :: "string list \<Rightarrow> string list \<Rightarrow> bool" where
  "areDisjoint lines1 lines2 = list_all (\<lambda>l. \<not> gm_get False (line_set lines1) l) lines2"

fun contains_line :: "string list \<Rightarrow> string \<Rightarrow> bool" where
  "contains_line [] line = False"
| "contains_line (l # ls) line = (if l = line then True else contains_line ls line)"

text \<open>\<open>strings.SplitN(line, ":", 2)\<close> gives two parts when the line has a colon.\<close>

fun before_colon :: "string \<Rightarrow> string option" where
  "before_colon [] = None"
| "before_colon (c # cs) = (if c = CHR '':'' then Some [] else map_option ((#) c) (before_colon cs))"

definition getLinePrefix :: "string \<Rightarrow> string" where
  "getLinePrefix line =
     (case before_colon line of
        Some part \<Rightarrow>
          (let pre = TrimSpace part
           in if take 5 pre = ''Line '' \<or> CHR '' '' \<in> set pre then pre @ '':'' else '''')
      | None \<Rightarrow> '''')"

definition isModificationOf :: "string \<Rightarrow> string list \<Rightarrow> bool" where
  "isModificationOf line lines =
     (let linePrefix = getLinePrefix line
      in if linePrefix = '''' then False else list_ex (\<lambda>l. getLinePrefix l = linePrefix) lines)"

text \<open>The part of \<open>mergeLinesDiff\<close> that combines the two middle sections.\<close>

definition merge_sections :: "string list \<Rightarrow> string list \<Rightarrow> string list \<Rightarrow> string list" where
  "merge_sections middle1 middle2 suffix =
     (if middle1 = [] \<and> middle2 = [] then []
      else if middle1 = [] then middle2
      else if middle2 = [] then middle1
      else
        (let middleSuffix = findCommonSuffix middle1 middle2;
             before1 = (if length middleSuffix > 0
                        then take (length middle1 - length middleSuffix) middle1 else middle1);
             before2 = (if length middleSuffix > 0
                        then take (length middle2 - length middleSuffix) middle2 else middle2)
         in if before1 = [] \<and> before2 = [] then middleSuffix
            else if before1 = [] then before2 @ middleSuffix
            else if before2 = [] then before1 @ middleSuffix
            else if \<not> areDisjoint before1 before2 then
              before2 @ middleSuffix @
              filter (\<lambda>line. \<not> contains_line before2 line \<and> \<not> contains_line middleSuffix line \<and>
                \<not> isModificationOf line before2) before1
            else if length middleSuffix > 0 then
              before2 @ middleSuffix @ filter (\<lambda>line. \<not> contains_line before2 line) before1
            else if length suffix > 0 then
              [''<<<<<<< branch1''] @ before1 @ [''=======''] @ before2 @ [''>>>>>>> branch2'']
            else before1 @ before2))"

definition mergeLinesDiff :: "string list \<Rightarrow> string list \<Rightarrow> string list" where
  "mergeLinesDiff lines1 lines2 =
     (let pre = findCommonPrefix lines1 lines2;
          suffix = findCommonSuffix lines1 lines2;
          middle1Start = length pre; middle1End = length lines1 - length suffix;
          middle2Start = length pre; middle2End = length lines2 - length suffix;
          middle1 = (if middle1End > middle1Start then slice middle1Start middle1End lines1 else []);
          middle2 = (if middle2End > middle2Start then slice middle2Start middle2End lines2 else [])
      in pre @ merge_sections middle1 middle2 suffix @ suffix)"

definition mergeLines :: "string list \<Rightarrow> string list \<Rightarrow> string list" where
  "mergeLines lines1 lines2 = mergeLinesDiff lines1 lines2"

definition maxInt64 :: "int64 \<Rightarrow> int64 \<Rightarrow> int64" where
  "maxInt64 a b = (if a > b then a else b)"

text \<open>The error result of \<open>ThreeWayMerge\<close> is always nil, and so is left out.\<close>

definition ThreeWayMerge :: "conflict_op \<Rightarrow> conflict_op \<Rightarrow> conflict_op" where
  "ThreeWayMerge op1 op2 =
     (let lines1 = split_lines (co_data op1);
          lines2 = split_lines (co_data op2);
          merged = mergeLines lines1 lines2
      in op1\<lparr>co_data := join_lines merged, co_checksum := '''',
             co_timestamp := wrap64 (maxInt64 (co_timestamp op1) (co_timestamp op2) + 1)\<rparr>)"

text \<open>Helpers of the file that the merge does not call.\<close>

definition isSubset :: "string list \<Rightarrow> string list \<Rightarrow> bool" where
  "isSubset lines1 lines2 =
     (if length lines1 > length lines2 then False
      else list_all (\<lambda>line. gm_get False (line_set lines2) line) lines1)"

definition mergeMiddles :: "string list \<Rightarrow> string list \<Rightarrow> string list" where
  "mergeMiddles middle1 middle2 =
     (if isSubset middle1 middle2 then middle2
      else if isSubset middle2 middle1 then middle1
      else middle1 @ middle2)"

function findNextMatch :: "string list \<Rightarrow> nat \<Rightarrow> string \<Rightarrow> int" where
  "findNextMatch lines i target =
     (if i < length lines then if lines ! i = target then int i else findNextMatch lines (Suc i) target
      else -1)"
  by pat_completeness auto
termination
  by (relation "measure (\<lambda>(lines, i, _). length lines - i)") auto

declare findNextMatch.simps [simp del]

fun isAddition :: "string list \<Rightarrow> string list \<Rightarrow> bool" where
  "isAddition lines1 [] = True"
| "isAddition [] (l # ls) = False"
| "isAddition (x # xs) (l # ls) = (x = l \<and> isAddition xs ls)"

section \<open>Lemmas\<close>

lemma findCommonPrefix_prefix:
  "take (length (findCommonPrefix xs ys)) xs = findCommonPrefix xs ys \<and>
   take (length (findCommonPrefix xs ys)) ys = findCommonPrefix xs ys"
  by (induction xs ys rule: findCommonPrefix.induct) auto

lemma length_findCommonPrefix:
  "length (findCommonPrefix xs ys) \<le> length xs \<and> length (findCommonPrefix xs ys) \<le> length ys"
  by (induction xs ys rule: findCommonPrefix.induct) auto

lemma findCommonPrefix_self [simp]: "findCommonPrefix xs xs = xs"
  by (induction xs) auto

lemma findCommonPrefix_maximal:
  "length (findCommonPrefix xs ys) < length xs \<Longrightarrow> length (findCommonPrefix xs ys) < length ys \<Longrightarrow>
   xs ! length (findCommonPrefix xs ys) \<noteq> ys ! length (findCommonPrefix xs ys)"
  by (induction xs ys rule: findCommonPrefix.induct) auto

lemma suffix_loop_prefix: "suffix_loop xs ys acc = rev (findCommonPrefix xs ys) @ acc"
  by (induction xs ys acc rule: suffix_loop.induct) auto

lemma findCommonSuffix_rev:
  "findCommonSuffix xs ys = rev (findCommonPrefix (rev xs) (rev ys))"
  by (simp add: findCommonSuffix_def suffix_loop_prefix)

lemma findCommonSuffix_self [simp]: "findCommonSuffix xs xs = xs"
  by (simp add: findCommonSuffix_rev)

lemma length_findCommonSuffix:
  "length (findCommonSuffix xs ys) \<le> length xs" "length (findCommonSuffix xs ys) \<le> length ys"
  using length_findCommonPrefix [of "rev xs" "rev ys"] by (simp_all add: findCommonSuffix_rev)

lemma findCommonSuffix_suffix:
  "drop (length xs - length (findCommonSuffix xs ys)) xs = findCommonSuffix xs ys"
  "drop (length ys - length (findCommonSuffix xs ys)) ys = findCommonSuffix xs ys"
proof -
  let ?p = "findCommonPrefix (rev xs) (rev ys)"
  have "drop (length xs - length ?p) xs = rev (take (length ?p) (rev xs))"
    and "drop (length ys - length ?p) ys = rev (take (length ?p) (rev ys))"
    by (simp_all add: take_rev)
  then show "drop (length xs - length (findCommonSuffix xs ys)) xs = findCommonSuffix xs ys"
    and "drop (length ys - length (findCommonSuffix xs ys)) ys = findCommonSuffix xs ys"
    by (simp_all add: findCommonPrefix_prefix findCommonSuffix_rev)
qed

text \<open>Two lists whose last elements differ have no common suffix.\<close>

lemma findCommonSuffix_last:
  "xs \<noteq> [] \<Longrightarrow> ys \<noteq> [] \<Longrightarrow> last xs \<noteq> last ys \<Longrightarrow> findCommonSuffix xs ys = []"
  by (cases xs rule: rev_cases; cases ys rule: rev_cases) (auto simp: findCommonSuffix_def)

lemma contains_line_iff [simp]: "contains_line ls l \<longleftrightarrow> l \<in> set ls"
  by (induction ls) auto

lemma map_of_line_set: "map_of (line_set ls) l = (if l \<in> set ls then Some True else None)"
proof -
  have "map_of (fold (\<lambda>l m. gm_put l True m) ls m) l =
      (if l \<in> set ls then Some True else map_of m l)" for m
    by (induction ls arbitrary: m) auto
  from this [of "[]"] show ?thesis by (simp add: line_set_def)
qed

lemma gm_get_line_set [simp]: "gm_get False (line_set ls) l \<longleftrightarrow> l \<in> set ls"
  by (simp add: gm_get_def map_of_line_set)

lemma areDisjoint_iff: "areDisjoint xs ys \<longleftrightarrow> set xs \<inter> set ys = {}"
  by (auto simp: areDisjoint_def list_all_iff)

lemma isSubset_iff: "isSubset xs ys \<longleftrightarrow> length xs \<le> length ys \<and> set xs \<subseteq> set ys"
  by (auto simp: isSubset_def list_all_iff)

lemma isAddition_iff: "isAddition xs ys \<longleftrightarrow> take (length ys) xs = ys"
  by (induction xs ys rule: isAddition.induct) auto

text \<open>The middle section of a list between a common prefix and a common suffix.\<close>

definition middle :: "string list \<Rightarrow> string list \<Rightarrow> string list \<Rightarrow> string list" where
  "middle pre suffix ls = slice (length pre) (length ls - length suffix) ls"

lemma mergeLinesDiff_alt:
  "mergeLinesDiff xs ys =
     (let pre = findCommonPrefix xs ys; suffix = findCommonSuffix xs ys
      in pre @ merge_sections (middle pre suffix xs) (middle pre suffix ys) suffix @ suffix)"
  by (simp add: mergeLinesDiff_def middle_def slice_def Let_def)

lemma append_slice: "i \<le> j \<Longrightarrow> take i xs @ slice i j xs @ drop j xs = xs"
proof -
  assume "i \<le> j"
  then have "drop j xs = drop (j - i) (drop i xs)" by simp
  then show ?thesis unfolding slice_def by (simp only: append_take_drop_id)
qed

lemma slice_covers: "set xs \<subseteq> set (take i xs) \<union> set (slice i j xs) \<union> set (drop j xs)"
proof (cases "i \<le> j")
  case True
  then have "set xs = set (take i xs @ slice i j xs @ drop j xs)" by (simp only: append_slice)
  then show ?thesis by auto
next
  case False
  then have "set (drop i xs) \<subseteq> set (drop j xs)" by (simp add: set_drop_subset_set_drop)
  moreover have "set xs = set (take i xs) \<union> set (drop i xs)"
    by (metis append_take_drop_id set_append)
  ultimately show ?thesis by auto
qed

lemma middle_covers:
  "set xs \<subseteq> set (findCommonPrefix xs ys) \<union>
     set (middle (findCommonPrefix xs ys) (findCommonSuffix xs ys) xs) \<union> set (findCommonSuffix xs ys)"
  "set ys \<subseteq> set (findCommonPrefix xs ys) \<union>
     set (middle (findCommonPrefix xs ys) (findCommonSuffix xs ys) ys) \<union> set (findCommonSuffix xs ys)"
  using slice_covers [of xs "length (findCommonPrefix xs ys)" "length xs - length (findCommonSuffix xs ys)"]
    slice_covers [of ys "length (findCommonPrefix xs ys)" "length ys - length (findCommonSuffix xs ys)"]
  by (simp_all add: middle_def findCommonPrefix_prefix findCommonSuffix_suffix)

lemma middle_subset: "set (middle p s xs) \<subseteq> set xs"
  unfolding middle_def slice_def by (meson order_trans set_drop_subset set_take_subset)

text \<open>The last lines of two non-empty middle sections differ, since the suffix is maximal.\<close>

lemma last_middle:
  assumes "middle p s xs \<noteq> []"
  shows "last (middle p s xs) = rev xs ! length s \<and> length s < length xs"
proof -
  have ne: "length p < length xs - length s"
    using assms by (auto simp: middle_def slice_def)
  have len: "length (middle p s xs) = length xs - length s - length p"
    by (simp add: middle_def slice_def)
  have "last (middle p s xs) = middle p s xs ! (length xs - length s - length p - 1)"
    using assms by (simp add: last_conv_nth len)
  also have "\<dots> = xs ! (length p + (length xs - length s - length p - 1))"
    using ne by (simp add: middle_def slice_def)
  also have "length p + (length xs - length s - length p - 1) = length xs - Suc (length s)"
    using ne by simp
  finally show ?thesis using ne by (simp add: rev_nth)
qed

lemma middle_suffix_empty:
  assumes "m1 = middle (findCommonPrefix xs ys) (findCommonSuffix xs ys) xs" "m1 \<noteq> []"
    and "m2 = middle (findCommonPrefix xs ys) (findCommonSuffix xs ys) ys" "m2 \<noteq> []"
  shows "findCommonSuffix m1 m2 = []"
proof (rule findCommonSuffix_last)
  let ?s = "findCommonSuffix xs ys"
  have "last m1 = rev xs ! length ?s" "length ?s < length xs"
    and "last m2 = rev ys ! length ?s" "length ?s < length ys"
    using assms last_middle by metis+
  then show "last m1 \<noteq> last m2"
    using findCommonPrefix_maximal [of "rev xs" "rev ys"] by (simp add: findCommonSuffix_rev)
qed (use assms in auto)

text \<open>What the middle sections contribute once the dead branches are removed.\<close>

lemma merge_sections_no_suffix:
  assumes "findCommonSuffix m1 m2 = []" "m1 \<noteq> []" "m2 \<noteq> []"
  shows "merge_sections m1 m2 s =
    (if set m1 \<inter> set m2 \<noteq> {} then m2 @ filter (\<lambda>l. l \<notin> set m2 \<and> \<not> isModificationOf l m2) m1
     else if s \<noteq> [] then [''<<<<<<< branch1''] @ m1 @ [''=======''] @ m2 @ [''>>>>>>> branch2'']
     else m1 @ m2)"
  using assms by (simp add: merge_sections_def areDisjoint_iff Let_def)

lemma isModificationOf_mono: "isModificationOf l xs \<Longrightarrow> set xs \<subseteq> set ys \<Longrightarrow> isModificationOf l ys"
  by (auto simp: isModificationOf_def Let_def list_ex_iff split: if_splits)

lemma mergeLinesDiff_cases:
  assumes "m1 = middle (findCommonPrefix xs ys) (findCommonSuffix xs ys) xs"
    and "m2 = middle (findCommonPrefix xs ys) (findCommonSuffix xs ys) ys"
  shows "merge_sections m1 m2 s =
    (if m1 = [] then m2 else if m2 = [] then m1
     else if set m1 \<inter> set m2 \<noteq> {} then m2 @ filter (\<lambda>l. l \<notin> set m2 \<and> \<not> isModificationOf l m2) m1
     else if s \<noteq> [] then [''<<<<<<< branch1''] @ m1 @ [''=======''] @ m2 @ [''>>>>>>> branch2'']
     else m1 @ m2)"
proof (cases "m1 = [] \<or> m2 = []")
  case True
  then show ?thesis by (auto simp: merge_sections_def)
next
  case False
  then show ?thesis
    using merge_sections_no_suffix [OF middle_suffix_empty [OF assms(1) _ assms(2)]] by auto
qed

lemma merge_sections_keeps:
  assumes "m1 = middle (findCommonPrefix xs ys) (findCommonSuffix xs ys) xs"
    and "m2 = middle (findCommonPrefix xs ys) (findCommonSuffix xs ys) ys"
  shows "set m2 \<subseteq> set (merge_sections m1 m2 s)"
    and "l \<in> set m1 \<Longrightarrow> l \<in> set (merge_sections m1 m2 s) \<or> isModificationOf l m2"
  by (auto simp: mergeLinesDiff_cases [OF assms])

lemma append_middle:
  assumes "length (findCommonPrefix xs ys) + length (findCommonSuffix xs ys) \<le> length ys"
  shows "findCommonPrefix xs ys @
    middle (findCommonPrefix xs ys) (findCommonSuffix xs ys) ys @ findCommonSuffix xs ys = ys"
  using append_slice [of "length (findCommonPrefix xs ys)" "length ys - length (findCommonSuffix xs ys)" ys]
    assms by (simp add: middle_def findCommonPrefix_prefix findCommonSuffix_suffix(2))

lemma findCommonPrefix_append: "findCommonPrefix (a @ xs) (a @ ys) = a @ findCommonPrefix xs ys"
  by (induction a) auto

lemma findCommonSuffix_append: "findCommonSuffix (xs @ b) (ys @ b) = findCommonSuffix xs ys @ b"
  by (simp add: findCommonSuffix_rev findCommonPrefix_append)

text \<open>Around an insertion the shorter list has no middle section.\<close>

lemma middle_insertion:
  "middle (findCommonPrefix (a @ b) (a @ x @ b)) (findCommonSuffix (a @ b) (a @ x @ b)) (a @ b) = []"
proof -
  have "length (findCommonSuffix (a @ b) (a @ x @ b)) \<ge> length b"
    using findCommonSuffix_append [of a b "a @ x"] by simp
  then show ?thesis by (simp add: middle_def slice_def findCommonPrefix_append)
qed

lemma mergeLines_insertion:
  "mergeLines (a @ b) (a @ x @ b) =
    (let p = findCommonPrefix (a @ b) (a @ x @ b); s = findCommonSuffix (a @ b) (a @ x @ b)
     in p @ middle p s (a @ x @ b) @ s)"
  by (simp add: mergeLines_def mergeLinesDiff_alt Let_def merge_sections_def middle_insertion)

lemma join_with_append:
  "xs \<noteq> [] \<Longrightarrow> ys \<noteq> [] \<Longrightarrow> join_with sep (xs @ ys) = join_with sep xs @ sep @ join_with sep ys"
proof (induction sep xs rule: join_with.induct)
  case (2 sep l)
  then show ?case by (cases ys) auto
qed auto

lemma join_lines_double: "join_lines (split_lines s @ split_lines s) = s @ newline # s"
proof -
  have "join_lines (split_lines s @ split_lines s) =
      join_lines (split_lines s) @ newline # join_lines (split_lines s)"
    unfolding join_lines_def split_lines_def by (subst join_with_append) auto
  then show ?thesis by simp
qed

section \<open>Properties\<close>


text \<open>The branches for a common suffix inside the differing sections are never taken: the merge is
  the common prefix, one of five outcomes for the sections, and the common suffix. Conflict
  markers appear exactly when both sections are non-empty, share no line and are followed by a
  common suffix.\<close>

theorem merge_outcomes:
  "mergeLines lines1 lines2 =
    (let p = findCommonPrefix lines1 lines2; s = findCommonSuffix lines1 lines2;
         m1 = middle p s lines1; m2 = middle p s lines2
     in p @
        (if m1 = [] then m2 else if m2 = [] then m1
         else if set m1 \<inter> set m2 \<noteq> {} then
           m2 @ filter (\<lambda>l. l \<notin> set m2 \<and> \<not> isModificationOf l m2) m1
         else if s \<noteq> [] then [''<<<<<<< branch1''] @ m1 @ [''=======''] @ m2 @ [''>>>>>>> branch2'']
         else m1 @ m2) @ s)"
  by (simp only: mergeLines_def mergeLinesDiff_alt Let_def mergeLinesDiff_cases [OF refl refl])

text \<open>Merging a version with the same version plus inserted lines gives the longer version exactly
  when the common prefix and the common suffix do not overlap in it.\<close>

theorem insertion_merge_exact:
  "mergeLines (a @ b) (a @ x @ b) = a @ x @ b \<longleftrightarrow>
   length (findCommonPrefix (a @ b) (a @ x @ b)) + length (findCommonSuffix (a @ b) (a @ x @ b))
     \<le> length (a @ x @ b)"
proof -
  let ?p = "findCommonPrefix (a @ b) (a @ x @ b)" and ?s = "findCommonSuffix (a @ b) (a @ x @ b)"
  have "mergeLines (a @ b) (a @ x @ b) = ?p @ middle ?p ?s (a @ x @ b) @ ?s"
    by (simp add: mergeLines_insertion Let_def)
  then show ?thesis
    using append_middle [of "a @ b" "a @ x @ b"]
    by (metis add_left_mono le_add2 length_append)
qed

text \<open>The overlap is real: two sides that hold the same content merge to that content twice, and the
  merged operation carries the doubled bytes, the first side's size and an empty checksum.\<close>

theorem merge_of_equal_versions_doubles:
  "ThreeWayMerge op1 (op2\<lparr>co_data := co_data op1\<rparr>) =
     op1\<lparr>co_data := co_data op1 @ [newline] @ co_data op1, co_checksum := '''',
         co_timestamp := wrap64 (maxInt64 (co_timestamp op1) (co_timestamp op2) + 1)\<rparr>"
proof -
  have "mergeLines l l = l @ l" for l
    by (simp add: mergeLines_def mergeLinesDiff_alt Let_def middle_def slice_def merge_sections_def)
  then show ?thesis by (simp add: ThreeWayMerge_def join_lines_double)
qed

end
