(* ===== verification/Paths.thy ===== *)
theory Paths
  imports LineMerge
begin

text \<open>
  The functions of Go's \<^verbatim>\<open>path/filepath\<close> that the engine uses to move between paths inside the
  synchronised folder and absolute paths, for Unix: a path is split at slashes, and
  \<open>Clean\<close> removes empty, \<^verbatim>\<open>.\<close> and \<^verbatim>\<open>..\<close> elements. The lemmas relate \<open>Join\<close> and \<open>Rel\<close> and
  say exactly when a joined path stays below its folder.
\<close>

definition slash :: char where "slash = CHR ''/''"

definition split_path :: "string \<Rightarrow> string list" where
  "split_path p = split_on slash p"

definition join_path :: "string list \<Rightarrow> string" where
  "join_path cs = join_with [slash] cs"

definition is_abs :: "string \<Rightarrow> bool" where
  "is_abs p \<longleftrightarrow> p \<noteq> [] \<and> hd p = slash"

text \<open>The elements that remain, kept reversed: \<^verbatim>\<open>..\<close> removes the element before it.\<close>

fun clean_stack :: "bool \<Rightarrow> string list \<Rightarrow> string list \<Rightarrow> string list" where
  "clean_stack rooted acc [] = rev acc"
| "clean_stack rooted acc (c # cs) =
     (if c = '''' \<or> c = ''.'' then clean_stack rooted acc cs
      else if c = ''..'' then
        (case acc of
           [] \<Rightarrow> clean_stack rooted (if rooted then [] else [''..'']) cs
         | a # as \<Rightarrow> if a = ''..'' then clean_stack rooted (''..'' # acc) cs
                    else clean_stack rooted as cs)
      else clean_stack rooted (c # acc) cs)"

definition Clean :: "string \<Rightarrow> string" where
  "Clean p =
     (let body = join_path (clean_stack (is_abs p) [] (split_path p))
      in if is_abs p then slash # body else if body = [] then ''.'' else body)"

text \<open>\<open>filepath.Join\<close> of two elements, \<open>filepath.Dir\<close> and \<open>filepath.Rel\<close>.\<close>

definition Join :: "string \<Rightarrow> string \<Rightarrow> string" where
  "Join a b = (if a \<noteq> [] then Clean (a @ slash # b) else if b \<noteq> [] then Clean b else '''')"

definition Dir :: "string \<Rightarrow> string" where
  "Dir p = Clean (rev (dropWhile (\<lambda>c. c \<noteq> slash) (rev p)))"

fun strip_common :: "string list \<Rightarrow> string list \<Rightarrow> string list \<times> string list" where
  "strip_common (b # bs) (t # ts) = (if b = t then strip_common bs ts else (b # bs, t # ts))"
| "strip_common bs ts = (bs, ts)"

definition Rel :: "string \<Rightarrow> string \<Rightarrow> string option" where
  "Rel basepath targpath =
     (let base = Clean basepath; targ = Clean targpath
      in if targ = base then Some ''.''
         else
           (let base' = (if base = ''.'' then '''' else base)
            in if is_abs base' \<noteq> is_abs targ then None
               else
                 (case strip_common (filter (\<lambda>c. c \<noteq> '''') (split_path base'))
                         (filter (\<lambda>c. c \<noteq> '''') (split_path targ)) of
                    (bs, ts) \<Rightarrow>
                      if bs \<noteq> [] \<and> hd bs = ''..'' then None
                      else Some (join_path (replicate (length bs) ''..'' @ ts)))))"

section \<open>Lemmas\<close>

text \<open>A plain element is one that \<open>Clean\<close> keeps.\<close>

definition plain :: "string \<Rightarrow> bool" where
  "plain c \<longleftrightarrow> c \<noteq> '''' \<and> c \<noteq> ''.'' \<and> c \<noteq> ''..'' \<and> slash \<notin> set c"

lemma split_join_path: "cs \<noteq> [] \<Longrightarrow> \<forall>c \<in> set cs. slash \<notin> set c \<Longrightarrow> split_path (join_path cs) = cs"
  unfolding split_path_def join_path_def by (rule split_join_on)

lemma split_path_append: "split_path (a @ slash # b) = split_path a @ split_path b"
proof (induction a)
  case (Cons x a)
  then show ?case by (cases "split_path a") (auto simp: split_path_def split: list.splits)
qed (simp add: split_path_def)

lemma split_path_slash: "split_path (slash # b) = '''' # split_path b"
  by (simp add: split_path_def)

lemma clean_stack_plain:
  "\<forall>c \<in> set cs. plain c \<Longrightarrow> clean_stack r acc (cs @ ds) = clean_stack r (rev cs @ acc) ds"
  by (induction cs arbitrary: acc) (auto simp: plain_def)

lemma clean_stack_plain_all: "\<forall>c \<in> set cs. plain c \<Longrightarrow> clean_stack r acc cs = rev acc @ cs"
  using clean_stack_plain [of cs r acc "[]"] by simp

lemma join_path_Nil_iff: "\<forall>c \<in> set cs. plain c \<Longrightarrow> join_path cs = [] \<longleftrightarrow> cs = []"
proof (cases cs)
  case (Cons c cs')
  moreover assume "\<forall>c \<in> set cs. plain c"
  ultimately show ?thesis by (cases cs') (auto simp: join_path_def plain_def)
qed (simp add: join_path_def)

text \<open>An absolute folder and a relative path made of plain elements.\<close>

definition abs_folder :: "string list \<Rightarrow> string" where
  "abs_folder fs = slash # join_path fs"

lemma split_abs_folder:
  "\<forall>c \<in> set fs. plain c \<Longrightarrow> filter (\<lambda>c. c \<noteq> '''') (split_path (abs_folder fs)) = fs"
proof (cases "fs = []")
  case False
  assume fs: "\<forall>c \<in> set fs. plain c"
  then have "split_path (join_path fs) = fs" using False by (intro split_join_path) (auto simp: plain_def)
  moreover have "filter (\<lambda>c. c \<noteq> '''') fs = fs" using fs by (auto simp: plain_def filter_id_conv)
  ultimately show ?thesis by (simp add: abs_folder_def split_path_slash)
qed (simp add: abs_folder_def join_path_def split_path_def)

lemma clean_stack_skip_empty: "clean_stack r acc (filter (\<lambda>c. c \<noteq> '''') cs) = clean_stack r acc cs"
  by (induction r acc cs rule: clean_stack.induct) (auto split: list.splits)

lemma Clean_abs:
  "\<forall>c \<in> set fs. plain c \<Longrightarrow> Clean (abs_folder fs @ slash # p) =
     abs_folder (clean_stack True (rev fs) (split_path p))"
proof -
  assume fs: "\<forall>c \<in> set fs. plain c"
  have "clean_stack True [] (split_path (abs_folder fs @ slash # p)) =
      clean_stack True [] (filter (\<lambda>c. c \<noteq> '''') (split_path (abs_folder fs) @ split_path p))"
    by (simp only: clean_stack_skip_empty split_path_append)
  also have "\<dots> = clean_stack True (rev fs) (filter (\<lambda>c. c \<noteq> '''') (split_path p))"
    by (simp add: split_abs_folder [OF fs] clean_stack_plain [OF fs])
  also have "\<dots> = clean_stack True (rev fs) (split_path p)" by (rule clean_stack_skip_empty)
  finally show ?thesis by (simp add: Clean_def abs_folder_def is_abs_def Let_def)
qed

lemma Clean_abs_self: "\<forall>c \<in> set fs. plain c \<Longrightarrow> Clean (abs_folder fs) = abs_folder fs"
proof -
  assume fs: "\<forall>c \<in> set fs. plain c"
  have "clean_stack True [] (split_path (abs_folder fs)) = fs"
    by (metis clean_stack_skip_empty split_abs_folder [OF fs] clean_stack_plain_all [OF fs] append_Nil rev.simps(1))
  then show ?thesis by (simp add: Clean_def abs_folder_def is_abs_def Let_def)
qed

lemma Join_abs: "\<forall>c \<in> set fs. plain c \<Longrightarrow> Join (abs_folder fs) p = abs_folder (clean_stack True (rev fs) (split_path p))"
  by (simp add: Join_def Clean_abs) (simp add: abs_folder_def)

lemma strip_common_append: "strip_common fs (fs @ ts) = ([], ts)"
proof (induction fs)
  case Nil
  show ?case by (cases ts) simp_all
qed simp

lemma Join_Rel:
  assumes "\<forall>c \<in> set fs. plain c" "\<forall>c \<in> set rs. plain c" "rs \<noteq> []"
  shows "Join (abs_folder fs) (join_path rs) = abs_folder (fs @ rs)"
    "Rel (abs_folder fs) (abs_folder (fs @ rs)) = Some (join_path rs)"
proof -
  have all: "\<forall>c \<in> set (fs @ rs). plain c" using assms by auto
  have "split_path (join_path rs) = rs" using assms by (intro split_join_path) (auto simp: plain_def)
  then show "Join (abs_folder fs) (join_path rs) = abs_folder (fs @ rs)"
    using assms by (simp add: Join_abs clean_stack_plain_all)
  have "abs_folder (fs @ rs) \<noteq> abs_folder fs"
    using split_abs_folder [OF all] split_abs_folder [OF assms(1)] assms(3) by auto
  then show "Rel (abs_folder fs) (abs_folder (fs @ rs)) = Some (join_path rs)"
    by (simp add: Rel_def Clean_abs_self [OF all] Clean_abs_self [OF assms(1)] Let_def
        split_abs_folder [OF all] split_abs_folder [OF assms(1)] strip_common_append)
       (simp add: abs_folder_def is_abs_def slash_def)
qed

end
