(* ===== verification/Watcher.thy ===== *)
theory Watcher
  imports Paths
begin

text \<open>
  The watcher, \<^verbatim>\<open>internal/filesystem/watcher.go\<close>. The events of fsnotify are an input of the model.
  The goroutines that share the watcher's maps are steps on one record: a timer that expires starts a
  goroutine (\<open>wt_fired\<close>), which takes the pending event under the lock (\<open>wt_taken\<close>), looks whether the
  watcher is closed (\<open>wt_cleared\<close>) and sends on the channel. The channel of events holds 100 of them;
  an event that finds it full is dropped, and a send on a closed channel panics.
\<close>

section \<open>State\<close>

text \<open>The operations of fsnotify are single bits; an event carries a set of them.\<close>

datatype notify_op = NotifyCreate | NotifyWrite | NotifyRemove | NotifyRename | NotifyChmod

record file_event =
  fe_path :: string
  fe_op :: "notify_op list"
  fe_operation :: string

record debounce_entry =
  dbe_event :: file_event
  dbe_timer :: nat

record timer =
  tm_id :: nat
  tm_path :: string
  tm_deadline :: time

record watcher =
  wt_events :: "file_event list"
  wt_ignore :: "(string, bool) gomap"
  wt_closed :: bool
  wt_debounce :: time
  wt_pending :: "(string, debounce_entry) gomap"
  wt_timers :: "timer list"
  wt_next :: nat
  wt_fired :: "string list"
  wt_taken :: "file_event list"
  wt_cleared :: "file_event list"
  wt_panicked :: bool

definition events_capacity :: nat where "events_capacity = 100"

definition NewWatcher :: watcher where
  "NewWatcher =
     \<lparr>wt_events = [], wt_ignore = [], wt_closed = False, wt_debounce = 500 * 10 ^ 6, wt_pending = [],
      wt_timers = [], wt_next = 0, wt_fired = [], wt_taken = [], wt_cleared = [], wt_panicked = False\<rparr>"

definition IgnoreWatchPath :: "string \<Rightarrow> watcher \<Rightarrow> watcher" where
  "IgnoreWatchPath path w = w\<lparr>wt_ignore := gm_put path True (wt_ignore w)\<rparr>"

definition RewatchPath :: "string \<Rightarrow> watcher \<Rightarrow> watcher" where
  "RewatchPath path w = w\<lparr>wt_ignore := gm_del path (wt_ignore w)\<rparr>"

section \<open>Names\<close>

text \<open>\<open>strings.HasPrefix\<close>, \<open>strings.Contains\<close> and \<open>filepath.Base\<close>.\<close>

definition has_prefix :: "string \<Rightarrow> string \<Rightarrow> bool" where
  "has_prefix s p \<longleftrightarrow> take (length p) s = p"

fun contains_str :: "string \<Rightarrow> string \<Rightarrow> bool" where
  "contains_str [] sub = (sub = [])"
| "contains_str (c # s) sub = (has_prefix (c # s) sub \<or> contains_str s sub)"

definition Base :: "string \<Rightarrow> string" where
  "Base p =
     (if p = '''' then ''.''
      else (let stripped = rev (dropWhile (\<lambda>c. c = slash) (rev p));
                base = rev (takeWhile (\<lambda>c. c \<noteq> slash) (rev stripped))
            in if base = '''' then [slash] else base))"

definition operation_of :: "notify_op list \<Rightarrow> string" where
  "operation_of op =
     (if NotifyCreate \<in> set op then ''create''
      else if NotifyWrite \<in> set op then ''update''
      else if NotifyRemove \<in> set op then ''delete''
      else if NotifyRename \<in> set op then ''rename''
      else ''unknown'')"

definition is_ignored :: "string \<Rightarrow> watcher \<Rightarrow> bool" where
  "is_ignored name w \<longleftrightarrow> gm_get False (wt_ignore w) name \<or> contains_str name ''.p2p-sync''"

text \<open>The check for temporary files: a base name that starts with \<^verbatim>\<open>.p\<close>.\<close>

definition is_temporary :: "string \<Rightarrow> bool" where
  "is_temporary name \<longleftrightarrow>
     hd (Base name) = CHR ''.'' \<and> length (Base name) > 1 \<and> take 2 (Base name) = ''.p''"

section \<open>Debouncing\<close>

text \<open>\<open>time.AfterFunc\<close> and \<open>Timer.Stop\<close>: a timer that has expired can no longer be stopped.\<close>

definition after_func :: "time \<Rightarrow> string \<Rightarrow> watcher \<Rightarrow> nat \<times> watcher" where
  "after_func now path w =
     (wt_next w, w\<lparr>wt_next := Suc (wt_next w),
                   wt_timers := wt_timers w @ [\<lparr>tm_id = wt_next w, tm_path = path, tm_deadline = now + wt_debounce w\<rparr>]\<rparr>)"

definition stop_timer :: "nat \<Rightarrow> watcher \<Rightarrow> watcher" where
  "stop_timer i w = w\<lparr>wt_timers := filter (\<lambda>t. tm_id t \<noteq> i) (wt_timers w)\<rparr>"

definition debounceEvent :: "time \<Rightarrow> file_event \<Rightarrow> watcher \<Rightarrow> watcher" where
  "debounceEvent now event w =
     (case map_of (wt_pending w) (fe_path event) of
        Some entry \<Rightarrow>
          (let w1 = stop_timer (dbe_timer entry) w;
               kept = (if fe_operation (dbe_event entry) \<noteq> ''create'' then event else dbe_event entry);
               (i, w2) = after_func now (fe_path event) w1
           in w2\<lparr>wt_pending := gm_put (fe_path event) \<lparr>dbe_event = kept, dbe_timer = i\<rparr> (wt_pending w2)\<rparr>)
      | None \<Rightarrow>
          (let (i, w1) = after_func now (fe_path event) w
           in w1\<lparr>wt_pending := gm_put (fe_path event) \<lparr>dbe_event = event, dbe_timer = i\<rparr> (wt_pending w1)\<rparr>))"

text \<open>One event of fsnotify in \<open>processEvents\<close>.\<close>

definition processEvent :: "time \<Rightarrow> string \<Rightarrow> notify_op list \<Rightarrow> watcher \<Rightarrow> watcher" where
  "processEvent now name op w =
     (if is_ignored name w then w
      else if is_temporary name then w
      else if wt_closed w then w
      else debounceEvent now \<lparr>fe_path = name, fe_op = op, fe_operation = operation_of op\<rparr> w)"

text \<open>An expired timer starts its goroutine; \<open>sendDebouncedEvent\<close> then runs in three steps.\<close>

definition fire_timer :: "time \<Rightarrow> nat \<Rightarrow> watcher \<Rightarrow> watcher" where
  "fire_timer now i w =
     (case filter (\<lambda>t. tm_id t = i \<and> tm_deadline t \<le> now) (wt_timers w) of
        [] \<Rightarrow> w
      | t # _ \<Rightarrow> (stop_timer i w)\<lparr>wt_fired := wt_fired w @ [tm_path t]\<rparr>)"

definition take_event :: "string \<Rightarrow> watcher \<Rightarrow> watcher" where
  "take_event path w =
     (if path \<notin> set (wt_fired w) then w
      else (let w1 = w\<lparr>wt_fired := remove1 path (wt_fired w)\<rparr>
            in case map_of (wt_pending w1) path of
                 None \<Rightarrow> w1
               | Some entry \<Rightarrow> w1\<lparr>wt_pending := gm_del path (wt_pending w1),
                                 wt_taken := wt_taken w1 @ [dbe_event entry]\<rparr>))"

definition check_closed :: "file_event \<Rightarrow> watcher \<Rightarrow> watcher" where
  "check_closed event w =
     (if event \<notin> set (wt_taken w) then w
      else (let w1 = w\<lparr>wt_taken := remove1 event (wt_taken w)\<rparr>
            in if wt_closed w then w1 else w1\<lparr>wt_cleared := wt_cleared w1 @ [event]\<rparr>))"

definition send_event :: "file_event \<Rightarrow> watcher \<Rightarrow> watcher" where
  "send_event event w =
     (if event \<notin> set (wt_cleared w) then w
      else (let w1 = w\<lparr>wt_cleared := remove1 event (wt_cleared w)\<rparr>
            in if wt_closed w then w1\<lparr>wt_panicked := True\<rparr>
               else if length (wt_events w) < events_capacity then w1\<lparr>wt_events := wt_events w @ [event]\<rparr>
               else w1))"

definition receive_event :: "watcher \<Rightarrow> file_event option \<times> watcher" where
  "receive_event w =
     (case wt_events w of [] \<Rightarrow> (None, w) | e # es \<Rightarrow> (Some e, w\<lparr>wt_events := es\<rparr>))"

definition CloseWatcher :: "watcher \<Rightarrow> watcher" where
  "CloseWatcher w =
     (if wt_closed w then w
      else (let stopped = map (dbe_timer \<circ> snd) (wt_pending w)
            in w\<lparr>wt_closed := True, wt_timers := filter (\<lambda>t. tm_id t \<notin> set stopped) (wt_timers w),
                 wt_pending := []\<rparr>))"

inductive watcher_step :: "watcher \<Rightarrow> watcher \<Rightarrow> bool" where
  notified: "watcher_step w (processEvent now name op w)"
| expired: "watcher_step w (fire_timer now i w)"
| taken: "watcher_step w (take_event path w)"
| checked: "watcher_step w (check_closed event w)"
| sent: "watcher_step w (send_event event w)"
| received: "watcher_step w (snd (receive_event w))"
| ignored: "watcher_step w (IgnoreWatchPath path w)"
| rewatched: "watcher_step w (RewatchPath path w)"
| closed: "watcher_step w (CloseWatcher w)"

definition watcher_reachable :: "watcher \<Rightarrow> bool" where
  "watcher_reachable w \<longleftrightarrow> watcher_step\<^sup>*\<^sup>* NewWatcher w"

section \<open>Lemmas\<close>

lemma debounceEvent_eq:
  "debounceEvent now event w =
    (let entry = map_of (wt_pending w) (fe_path event);
         kept = (case entry of Some d \<Rightarrow> if fe_operation (dbe_event d) \<noteq> ''create'' then event else dbe_event d | None \<Rightarrow> event);
         old = (case entry of Some d \<Rightarrow> filter (\<lambda>t. tm_id t \<noteq> dbe_timer d) (wt_timers w) | None \<Rightarrow> wt_timers w)
     in w\<lparr>wt_next := Suc (wt_next w),
          wt_timers := old @ [\<lparr>tm_id = wt_next w, tm_path = fe_path event, tm_deadline = now + wt_debounce w\<rparr>],
          wt_pending := gm_put (fe_path event) \<lparr>dbe_event = kept, dbe_timer = wt_next w\<rparr> (wt_pending w)\<rparr>)"
  by (simp add: debounceEvent_def after_func_def stop_timer_def Let_def split: option.split)

text \<open>No pending event is without a timer or a goroutine that will take it.\<close>

definition served :: "watcher \<Rightarrow> string \<Rightarrow> debounce_entry \<Rightarrow> bool" where
  "served w p d \<longleftrightarrow>
     dbe_timer d < wt_next w \<and> (\<forall>t \<in> set (wt_timers w). tm_id t = dbe_timer d \<longrightarrow> tm_path t = p) \<and>
     (dbe_timer d \<in> tm_id ` set (wt_timers w) \<or> p \<in> set (wt_fired w))"

definition own_timers :: "(string, debounce_entry) gomap \<Rightarrow> bool" where
  "own_timers m \<longleftrightarrow> (\<forall>p d p' d'. map_of m p = Some d \<and> map_of m p' = Some d' \<and> dbe_timer d' = dbe_timer d \<longrightarrow> p' = p)"

definition watcher_inv :: "watcher \<Rightarrow> bool" where
  "watcher_inv w \<longleftrightarrow>
     gm_ok (wt_pending w) \<and> own_timers (wt_pending w) \<and> (\<forall>t \<in> set (wt_timers w). tm_id t < wt_next w) \<and>
     (\<forall>p d. map_of (wt_pending w) p = Some d \<longrightarrow> served w p d)"

lemma watcher_inv_new: "watcher_inv NewWatcher"
  by (simp add: watcher_inv_def NewWatcher_def own_timers_def)

lemma watcher_inv_cong:
  "watcher_inv w \<Longrightarrow> wt_pending w' = wt_pending w \<Longrightarrow> wt_timers w' = wt_timers w \<Longrightarrow> wt_next w' = wt_next w \<Longrightarrow>
   set (wt_fired w) \<subseteq> set (wt_fired w') \<Longrightarrow> watcher_inv w'"
  unfolding watcher_inv_def served_def by (simp; blast)

lemma own_timers_put:
  assumes own: "own_timers m" and less: "\<And>p d. map_of m p = Some d \<Longrightarrow> dbe_timer d < dbe_timer e"
  shows "own_timers (gm_put q e m)"
  unfolding own_timers_def
proof (intro allI impI)
  fix p d p' d'
  assume *: "map_of (gm_put q e m) p = Some d \<and> map_of (gm_put q e m) p' = Some d' \<and> dbe_timer d' = dbe_timer d"
  have new: "r = q" if "map_of (gm_put q e m) r = Some c" "dbe_timer c = dbe_timer e" for r c
  proof (rule ccontr)
    assume "r \<noteq> q"
    then have "map_of m r = Some c" using that(1) by simp
    then show False using less [of r c] that(2) by linarith
  qed
  show "p' = p"
  proof (cases "p = q \<or> p' = q")
    case True
    moreover have "dbe_timer d = dbe_timer e" if "p = q" using * that by simp
    moreover have "dbe_timer d' = dbe_timer e" if "p' = q" using * that by simp
    ultimately have "dbe_timer d = dbe_timer e" "dbe_timer d' = dbe_timer e" using * by metis+
    then show ?thesis using * new [of p d] new [of p' d'] by metis
  next
    case False
    then have "map_of m p = Some d \<and> map_of m p' = Some d' \<and> dbe_timer d' = dbe_timer d" using * by simp
    then show ?thesis using own unfolding own_timers_def by blast
  qed
qed

lemma watcher_inv_debounce:
  assumes inv: "watcher_inv w"
  shows "watcher_inv (debounceEvent now event w)"
proof -
  let ?w = "debounceEvent now event w" and ?p = "fe_path event"
  let ?t = "\<lparr>tm_id = wt_next w, tm_path = ?p, tm_deadline = now + wt_debounce w\<rparr>"
  have next_eq: "wt_next ?w = Suc (wt_next w)" "wt_fired ?w = wt_fired w" by (simp_all add: debounceEvent_eq Let_def)
  obtain k where pend: "wt_pending ?w = gm_put ?p \<lparr>dbe_event = k, dbe_timer = wt_next w\<rparr> (wt_pending w)"
    by (simp add: debounceEvent_eq Let_def)
  have tms: "set (wt_timers ?w) = insert ?t {t \<in> set (wt_timers w). \<forall>d. map_of (wt_pending w) ?p = Some d \<longrightarrow> tm_id t \<noteq> dbe_timer d}"
    by (auto simp: debounceEvent_eq Let_def split: option.split)
  have tlt: "tm_id t < wt_next w" if "t \<in> set (wt_timers w)" for t using inv that by (simp add: watcher_inv_def)
  have less: "dbe_timer d < wt_next w" if "map_of (wt_pending w) p = Some d" for p d
    using inv that by (auto simp: watcher_inv_def served_def)
  have "served ?w p d" if "map_of (wt_pending ?w) p = Some d" for p d
  proof (cases "p = ?p")
    case True
    then show ?thesis using that tlt unfolding served_def next_eq tms by (force simp: pend)
  next
    case False
    then have p: "map_of (wt_pending w) p = Some d" using that by (simp add: pend)
    then have ne: "dbe_timer d' \<noteq> dbe_timer d" if "map_of (wt_pending w) ?p = Some d'" for d'
      using inv that False unfolding watcher_inv_def own_timers_def by metis
    have "served w p d" using inv p by (simp add: watcher_inv_def)
    then show ?thesis using less [OF p] ne unfolding served_def next_eq tms by (auto simp: image_iff)
  qed
  moreover have "gm_ok (wt_pending ?w)" "own_timers (wt_pending ?w)"
    unfolding pend using inv less by (auto simp: watcher_inv_def intro!: own_timers_put)
  ultimately show ?thesis using tlt by (auto simp: watcher_inv_def next_eq tms less_Suc_eq)
qed

lemma watcher_inv_fire:
  assumes inv: "watcher_inv w"
  shows "watcher_inv (fire_timer now i w)"
proof (cases "filter (\<lambda>t. tm_id t = i \<and> tm_deadline t \<le> now) (wt_timers w)")
  case (Cons t ts)
  have t: "t \<in> set (wt_timers w)" "tm_id t = i"
    using arg_cong [OF Cons, of set] by auto
  have w': "fire_timer now i w = (stop_timer i w)\<lparr>wt_fired := wt_fired w @ [tm_path t]\<rparr>"
    by (simp add: fire_timer_def Cons)
  have "served (fire_timer now i w) p d" if "map_of (wt_pending w) p = Some d" for p d
  proof -
    have s: "served w p d" using inv that by (simp add: watcher_inv_def)
    show ?thesis
    proof (cases "dbe_timer d = i")
      case True
      then have "tm_path t = p" using s t by (simp add: served_def)
      then show ?thesis using s by (auto simp: w' served_def stop_timer_def)
    next
      case False
      then show ?thesis using s by (auto simp: w' served_def stop_timer_def image_iff)
    qed
  qed
  then show ?thesis using inv by (auto simp: watcher_inv_def w' stop_timer_def)
qed (simp add: fire_timer_def inv)

lemma watcher_inv_take:
  assumes inv: "watcher_inv w"
  shows "watcher_inv (take_event path w)"
proof -
  have "own_timers (gm_del path (wt_pending w))" using inv by (auto simp: watcher_inv_def own_timers_def)
  moreover have "p \<in> set (remove1 path (wt_fired w))" if "p \<in> set (wt_fired w)" "p \<noteq> path" for p
    using that by (simp add: in_set_remove1)
  moreover have "p \<noteq> path" if "map_of (wt_pending w) path = None" "map_of (wt_pending w) p = Some d" for p d
    using that by auto
  ultimately show ?thesis
    using inv by (auto simp: watcher_inv_def served_def take_event_def Let_def split: option.split if_splits)
qed

lemma watcher_inv_step: "watcher_step w w' \<Longrightarrow> watcher_inv w \<Longrightarrow> watcher_inv w'"
proof (induction rule: watcher_step.induct)
  case (notified w now name op)
  then show ?case by (simp add: processEvent_def watcher_inv_debounce)
next
  case (closed w)
  have "own_timers []" by (simp add: own_timers_def)
  then show ?case using closed by (simp add: CloseWatcher_def watcher_inv_def Let_def)
next
  case (received w)
  then show ?case
    by (auto simp: receive_event_def elim!: watcher_inv_cong split: list.split)
next
  case (expired w now i)
  then show ?case by (rule watcher_inv_fire)
next
  case (taken w path)
  then show ?case by (rule watcher_inv_take)
next
  case (checked w event)
  then show ?case by (rule watcher_inv_cong) (simp_all add: check_closed_def Let_def)
next
  case (sent w event)
  then show ?case by (rule watcher_inv_cong) (simp_all add: send_event_def Let_def)
next
  case (ignored w path)
  then show ?case by (rule watcher_inv_cong) (simp_all add: IgnoreWatchPath_def)
next
  case (rewatched w path)
  then show ?case by (rule watcher_inv_cong) (simp_all add: RewatchPath_def)
qed

lemma watcher_reachable_inv: "watcher_reachable w \<Longrightarrow> watcher_inv w"
  unfolding watcher_reachable_def
  by (induction rule: rtranclp_induct) (auto intro: watcher_inv_new watcher_inv_step)

text \<open>The event that a burst of events on one path leaves pending.\<close>

definition burst_event :: "file_event list \<Rightarrow> file_event" where
  "burst_event es = (case find (\<lambda>e. fe_operation e = ''create'') es of Some e \<Rightarrow> e | None \<Rightarrow> last es)"

lemma find_append: "find P (xs @ ys) = (case find P xs of None \<Rightarrow> find P ys | Some x \<Rightarrow> Some x)"
  by (induction xs) simp_all

lemma find_SomeD: "find P xs = Some x \<Longrightarrow> P x"
  by (induction xs) (auto split: if_splits)

lemma burst_event_snoc:
  "es \<noteq> [] \<Longrightarrow> burst_event (es @ [e]) = (if fe_operation (burst_event es) \<noteq> ''create'' then e else burst_event es)"
proof (cases "find (\<lambda>e. fe_operation e = ''create'') es")
  case None
  assume "es \<noteq> []"
  then have "fe_operation (last es) \<noteq> ''create''" using None by (simp add: find_None_iff)
  then show ?thesis using None by (simp add: burst_event_def find_append)
next
  case (Some x)
  then show ?thesis using find_SomeD [OF Some] by (simp add: burst_event_def find_append)
qed

abbreviation debounce_all :: "(time \<times> file_event) list \<Rightarrow> watcher \<Rightarrow> watcher" where
  "debounce_all tes w \<equiv> fold (\<lambda>(t, e) w. debounceEvent t e w) tes w"

lemma debounce_all_state:
  assumes "tes \<noteq> []" "\<forall>(t, e) \<in> set tes. fe_path e = p" "map_of (wt_pending w) p = None"
    and "\<forall>t \<in> set (wt_timers w). tm_path t \<noteq> p"
  shows "\<exists>d t. map_of (wt_pending (debounce_all tes w)) p = Some d \<and> dbe_event d = burst_event (map snd tes) \<and>
      filter (\<lambda>t. tm_path t = p) (wt_timers (debounce_all tes w)) = [t] \<and> tm_id t = dbe_timer d \<and>
      tm_deadline t = fst (last tes) + wt_debounce w"
    "wt_debounce (debounce_all tes w) = wt_debounce w" "wt_closed (debounce_all tes w) = wt_closed w"
    "wt_events (debounce_all tes w) = wt_events w" "wt_fired (debounce_all tes w) = wt_fired w"
    "wt_taken (debounce_all tes w) = wt_taken w" "wt_cleared (debounce_all tes w) = wt_cleared w"
proof -
  show "wt_debounce (debounce_all tes w) = wt_debounce w" "wt_closed (debounce_all tes w) = wt_closed w"
    "wt_events (debounce_all tes w) = wt_events w" "wt_fired (debounce_all tes w) = wt_fired w"
    "wt_taken (debounce_all tes w) = wt_taken w" "wt_cleared (debounce_all tes w) = wt_cleared w" for w :: watcher
    by (induction tes arbitrary: w) (auto simp: debounceEvent_eq Let_def)
  note deb = this(1)
  show "\<exists>d t. map_of (wt_pending (debounce_all tes w)) p = Some d \<and> dbe_event d = burst_event (map snd tes) \<and>
      filter (\<lambda>t. tm_path t = p) (wt_timers (debounce_all tes w)) = [t] \<and> tm_id t = dbe_timer d \<and>
      tm_deadline t = fst (last tes) + wt_debounce w"
    using assms
  proof (induction tes rule: rev_induct)
    case (snoc te tes)
    obtain t e where te: "te = (t, e)" "fe_path e = p" using snoc.prems(2) by (cases te) auto
    show ?case
    proof (cases "tes = []")
      case True
      then show ?thesis using te snoc.prems(3,4)
        by (simp add: debounceEvent_eq Let_def burst_event_def filter_empty_conv)
    next
      case False
      then obtain d u where d: "map_of (wt_pending (debounce_all tes w)) p = Some d"
        "dbe_event d = burst_event (map snd tes)"
        "filter (\<lambda>t. tm_path t = p) (wt_timers (debounce_all tes w)) = [u]" "tm_id u = dbe_timer d"
        using snoc by auto
      have "filter (\<lambda>t. tm_path t = p) (filter (\<lambda>t. tm_id t \<noteq> dbe_timer d) (wt_timers (debounce_all tes w))) = []"
        using arg_cong [OF d(3), of "filter (\<lambda>t. tm_id t \<noteq> dbe_timer d)"] d(4) by (simp add: conj_commute)
      moreover have "wt_debounce (debounce_all tes w) = wt_debounce w"
        by (induction tes arbitrary: w) (auto simp: debounceEvent_eq Let_def)
      ultimately show ?thesis
        using False te d(1,2) by (simp add: debounceEvent_eq Let_def burst_event_snoc)
    qed
  qed simp
qed

lemma wt_next_debounce: "wt_next (debounceEvent now e w) = Suc (wt_next w)"
  by (simp add: debounceEvent_eq Let_def)

lemma watcher_inv_debounce_all: "watcher_inv w \<Longrightarrow> watcher_inv (debounce_all tes w)"
  by (induction tes arbitrary: w) (auto simp: watcher_inv_debounce)

text \<open>The timer of the last event of a burst, once it has expired.\<close>

lemma fire_last_timer:
  assumes "watcher_inv w" "t + wt_debounce w \<le> now"
  shows "fire_timer now (wt_next w) (debounceEvent t e w) =
    (stop_timer (wt_next w) (debounceEvent t e w))\<lparr>wt_fired := wt_fired w @ [fe_path e]\<rparr>"
proof -
  have "tm_id u \<noteq> wt_next w" if "u \<in> set (wt_timers w)" for u
    using assms(1) that by (auto simp: watcher_inv_def)
  then have "filter (\<lambda>u. tm_id u = wt_next w \<and> tm_deadline u \<le> now) (wt_timers (debounceEvent t e w)) =
      [\<lparr>tm_id = wt_next w, tm_path = fe_path e, tm_deadline = t + wt_debounce w\<rparr>]"
    using assms(2) by (auto simp: debounceEvent_eq Let_def filter_empty_conv split: option.split)
  then show ?thesis by (simp add: fire_timer_def) (simp add: debounceEvent_eq Let_def)
qed

lemma deliver_pending:
  assumes "p \<in> set (wt_fired w)" "map_of (wt_pending w) p = Some d" "\<not> wt_closed w"
    "length (wt_events w) < events_capacity"
  shows "let w' = send_event (dbe_event d) (check_closed (dbe_event d) (take_event p w))
    in wt_events w' = wt_events w @ [dbe_event d] \<and> map_of (wt_pending w') p = None \<and> \<not> wt_closed w'"
  using assms by (simp add: take_event_def check_closed_def send_event_def Let_def)

lemma burst_delivered:
  assumes "watcher_reachable w" "\<not> wt_closed w" "length (wt_events w) < events_capacity"
    and "tes \<noteq> []" "\<forall>(t, e) \<in> set tes. fe_path e = p" "map_of (wt_pending w) p = None"
    and "\<forall>t \<in> set (wt_timers w). tm_path t \<noteq> p" "fst (last tes) + wt_debounce w \<le> now"
  shows "let w1 = debounce_all tes w; e = burst_event (map snd tes);
      w2 = send_event e (check_closed e (take_event p (fire_timer now (wt_next w1 - 1) w1)))
    in (\<exists>d. map_of (wt_pending w1) p = Some d \<and> dbe_event d = e) \<and>
       length (filter (\<lambda>t. tm_path t = p) (wt_timers w1)) = 1 \<and>
       wt_events w2 = wt_events w @ [e] \<and> map_of (wt_pending w2) p = None"
proof -
  obtain t e rest where tes: "tes = rest @ [(t, e)]" "fe_path e = p"
    using assms(4,5) by (cases tes rule: rev_cases) auto
  let ?w0 = "debounce_all rest w" and ?w1 = "debounce_all tes w" and ?e = "burst_event (map snd tes)"
  have inv: "watcher_inv ?w0" by (intro watcher_inv_debounce_all watcher_reachable_inv assms(1))
  have w1: "?w1 = debounceEvent t e ?w0" by (simp add: tes)
  have deb: "wt_debounce ?w0 = wt_debounce w"
    by (induction rest arbitrary: w) (auto simp: debounceEvent_eq Let_def)
  note s = debounce_all_state [OF assms(4-7)]
  obtain d u where d: "map_of (wt_pending ?w1) p = Some d" "dbe_event d = ?e"
    "filter (\<lambda>t. tm_path t = p) (wt_timers ?w1) = [u]" using s(1) by blast
  have n: "wt_next ?w1 - 1 = wt_next ?w0" by (simp add: w1 wt_next_debounce)
  have "t + wt_debounce ?w0 \<le> now" using assms(8) deb tes by simp
  from fire_last_timer [OF inv this, of e]
  have f: "fire_timer now (wt_next ?w1 - 1) ?w1 = (stop_timer (wt_next ?w0) ?w1)\<lparr>wt_fired := wt_fired ?w0 @ [p]\<rparr>"
    unfolding n unfolding w1 using tes(2) by simp
  have "wt_events ?w1 = wt_events w" "wt_closed ?w1 = wt_closed w" using s by simp_all
  moreover obtain w2 where w2: "fire_timer now (wt_next ?w1 - 1) ?w1 = w2" by blast
  ultimately have "p \<in> set (wt_fired w2)" "map_of (wt_pending w2) p = Some d" "\<not> wt_closed w2" "wt_events w2 = wt_events w"
    using d(1) assms(2) f unfolding w2 by (simp_all add: stop_timer_def)
  then show ?thesis
    using deliver_pending [of p w2 d] d assms(3) unfolding w2 Let_def by simp
qed

section \<open>Properties\<close>

text \<open>A burst of events on one path reaches the engine as one event, half a second after the last of
  them: the first creation among them, if there is one, and otherwise the last event. When the timer
  of the last event has expired and its goroutine has run, that event is the only one sent.\<close>

theorem burst_sends_one_event:
  assumes "watcher_reachable w" "\<not> wt_closed w" "length (wt_events w) < events_capacity"
    and "tes \<noteq> []" "\<forall>(t, e) \<in> set tes. fe_path e = p" "map_of (wt_pending w) p = None"
    and "\<forall>t \<in> set (wt_timers w). tm_path t \<noteq> p" "fst (last tes) + wt_debounce w \<le> now"
  shows "let w1 = debounce_all tes w; e = burst_event (map snd tes);
      w2 = send_event e (check_closed e (take_event p (fire_timer now (wt_next w1 - 1) w1)))
    in (\<exists>d. map_of (wt_pending w1) p = Some d \<and> dbe_event d = e) \<and>
       length (filter (\<lambda>t. tm_path t = p) (wt_timers w1)) = 1 \<and>
       wt_events w2 = wt_events w @ [e] \<and> map_of (wt_pending w2) p = None"
  by (rule burst_delivered [OF assms])

text \<open>C23. No event is stranded: in every state that the watcher can reach, each pending event has a running
  timer of its own, or a goroutine that will take it.\<close>

theorem no_event_stranded:
  assumes "watcher_reachable w" "map_of (wt_pending w) p = Some d"
  shows "(\<exists>t \<in> set (wt_timers w). tm_id t = dbe_timer d \<and> tm_path t = p) \<or> p \<in> set (wt_fired w)"
proof -
  have "served w p d" using watcher_reachable_inv [OF assms(1)] assms(2) by (simp add: watcher_inv_def)
  then show ?thesis by (auto simp: served_def image_iff)
qed

lemma watcher_reachable_step: "watcher_reachable w \<Longrightarrow> watcher_step w w' \<Longrightarrow> watcher_reachable w'"
  unfolding watcher_reachable_def by (rule rtranclp.rtrancl_into_rtrancl)

definition created_a :: file_event where
  "created_a = \<lparr>fe_path = ''a'', fe_op = [NotifyCreate], fe_operation = ''create''\<rparr>"

text \<open>Closing the watcher can panic: a goroutine that has seen the watcher open may send after the
  channel is closed.\<close>

lemma close_race_panics: "\<exists>w. watcher_reachable w \<and> wt_panicked w"
proof
  let ?w = "check_closed created_a (take_event ''a'' (fire_timer (500 * 10 ^ 6) 0
    (processEvent 0 ''a'' [NotifyCreate] NewWatcher)))"
  have "watcher_reachable NewWatcher" by (simp add: watcher_reachable_def)
  then have "watcher_reachable (send_event created_a (CloseWatcher ?w))"
    by (elim watcher_reachable_step [OF _ watcher_step.notified, THEN watcher_reachable_step [OF _ watcher_step.expired],
        THEN watcher_reachable_step [OF _ watcher_step.taken], THEN watcher_reachable_step [OF _ watcher_step.checked],
        THEN watcher_reachable_step [OF _ watcher_step.closed], THEN watcher_reachable_step [OF _ watcher_step.sent]])
  moreover have "wt_panicked (send_event created_a (CloseWatcher ?w))" by code_simp
  ultimately show "watcher_reachable (send_event created_a (CloseWatcher ?w)) \<and>
    wt_panicked (send_event created_a (CloseWatcher ?w))" by simp
qed

lemma no_event_stranded_witness:
  "let w = processEvent 0 ''a'' [NotifyCreate] NewWatcher
   in \<exists>d. map_of (wt_pending w) ''a'' = Some d \<and>
     ((\<exists>t \<in> set (wt_timers w). tm_id t = dbe_timer d \<and> tm_path t = ''a'') \<or> ''a'' \<in> set (wt_fired w))"
proof -
  let ?w = "processEvent 0 ''a'' [NotifyCreate] NewWatcher"
  have r: "watcher_reachable ?w"
    by (rule watcher_reachable_step [OF _ watcher_step.notified]) (simp add: watcher_reachable_def)
  have "map_of (wt_pending ?w) ''a'' = Some \<lparr>dbe_event = created_a, dbe_timer = 0\<rparr>" by code_simp
  from no_event_stranded [OF r this] this show ?thesis unfolding Let_def by blast
qed

lemma burst_sends_one_event_witness:
  "let tes = [(0, created_a), (1, created_a\<lparr>fe_operation := ''update''\<rparr>)]; w1 = debounce_all tes NewWatcher;
       e = burst_event (map snd tes);
       w2 = send_event e (check_closed e (take_event ''a'' (fire_timer (10 ^ 9) (wt_next w1 - 1) w1)))
   in e = created_a \<and> wt_events w2 = [e]"
proof -
  have "watcher_reachable NewWatcher" by (simp add: watcher_reachable_def)
  from burst_sends_one_event [OF this, where tes = "[(0, created_a), (1, created_a\<lparr>fe_operation := ''update''\<rparr>)]"
      and p = "''a''" and now = "10 ^ 9"]
  show ?thesis unfolding Let_def
    by (simp add: NewWatcher_def events_capacity_def created_a_def burst_event_def)
qed

end
