(* ===== verification/Chunking.thy ===== *)
theory Chunking
  imports LineMerge "HOL-Library.Multiset"
begin

text \<open>
  Splitting a file into chunks and putting it together again: \<^verbatim>\<open>internal/chunking/chunker.go\<close> and
  \<^verbatim>\<open>internal/chunking/assembler.go\<close>, with \<open>HashString\<close> of \<^verbatim>\<open>internal/hashing/blake3.go\<close>. BLAKE3 is a
  third-party package, so the digest is a parameter \<open>H\<close>. A panic of the Go run time (division by
  zero, a slice out of bounds, a negative allocation) is a value of the result.
\<close>

section \<open>Hashing\<close>

text \<open>\<open>hex.EncodeToString\<close>\<close>

definition hex_digit :: "nat \<Rightarrow> char" where
  "hex_digit n = (if n < 10 then char_of (48 + n) else char_of (87 + n))"

definition hex_encode :: "bytes \<Rightarrow> string" where
  "hex_encode bs = concat (map (\<lambda>b. [hex_digit (byte_val b div 16), hex_digit (byte_val b mod 16)]) bs)"

definition HashString :: "(bytes \<Rightarrow> bytes) \<Rightarrow> bytes \<Rightarrow> string" where
  "HashString H data = hex_encode (H data)"

section \<open>The chunker\<close>

record chunk =
  ck_file_id :: string
  ck_id :: int
  ck_offset :: int64
  ck_length :: int64
  ck_data :: bytes
  ck_hash :: string
  ck_file_hash :: string
  ck_is_last :: bool
  ck_total :: int

record chunker =
  chunkSize :: int64

definition NewChunker :: "int64 \<Rightarrow> chunker" where
  "NewChunker sz = \<lparr>chunkSize = sz\<rparr>"

text \<open>
  \<open>int((n + c.chunkSize - 1) / c.chunkSize)\<close>: None is the panic of a division by zero.
\<close>

definition ceil_div :: "int64 \<Rightarrow> int64 \<Rightarrow> int option" where
  "ceil_div n sz =
     (if sz = 0 then None else Some (wrap64 (go_quot (wrap64 (wrap64 (n + sz) - 1)) sz)))"

text \<open>One turn of the loop of \<open>ChunkFile\<close>: None is the panic of \<open>data[offset:end]\<close>.\<close>

definition chunk_at :: "(bytes \<Rightarrow> bytes) \<Rightarrow> chunker \<Rightarrow> string \<Rightarrow> bytes \<Rightarrow> int \<Rightarrow> int \<Rightarrow> chunk option" where
  "chunk_at H c fileID data totalChunks i =
     (let totalSize = int (length data);
          offset = wrap64 (i * chunkSize c);
          end0 = wrap64 (offset + chunkSize c);
          end1 = (if end0 > totalSize then totalSize else end0)
      in if 0 \<le> offset \<and> offset \<le> end1 then
           (let chunkData = slice (nat offset) (nat end1) data
            in Some \<lparr>ck_file_id = fileID, ck_id = i, ck_offset = offset,
                     ck_length = int (length chunkData), ck_data = chunkData,
                     ck_hash = HashString H chunkData, ck_file_hash = '''',
                     ck_is_last = (i = totalChunks - 1), ck_total = totalChunks\<rparr>)
         else None)"

definition ChunkFile :: "(bytes \<Rightarrow> bytes) \<Rightarrow> chunker \<Rightarrow> string \<Rightarrow> bytes \<Rightarrow> chunk list option" where
  "ChunkFile H c fileID data =
     (if length data = 0 then
        Some [\<lparr>ck_file_id = fileID, ck_id = 0, ck_offset = 0, ck_length = 0, ck_data = [],
               ck_hash = HashString H data, ck_file_hash = '''', ck_is_last = True, ck_total = 1\<rparr>]
      else
        (case ceil_div (int (length data)) (chunkSize c) of
           None \<Rightarrow> None
         | Some totalChunks \<Rightarrow>
             those (map (\<lambda>i. chunk_at H c fileID data totalChunks (int i)) [0..<nat totalChunks])))"

definition CalculateChunkCount :: "chunker \<Rightarrow> int64 \<Rightarrow> int option" where
  "CalculateChunkCount c fileSize = (if fileSize = 0 then Some 1 else ceil_div fileSize (chunkSize c))"

text \<open>
  \<open>ChunkReader\<close> reads from an \<open>io.Reader\<close>: \<open>rd s n\<close> is the result of \<open>Read\<close> on a buffer of \<open>n\<close> bytes
  in the reader's state \<open>s\<close>, the bytes read, the error and the next state. A reader may never
  end, so the loop is a partial function, and None says that the call does not return.
\<close>

datatype read_error = NoError | EOF | ReadFailed string

datatype 'a chunked = Chunks 'a | ReadError string | ChunkPanic

type_synonym 'r io_reader = "'r \<Rightarrow> int \<Rightarrow> bytes \<times> read_error \<times> 'r"

partial_function (option) reader_loop ::
  "(bytes \<Rightarrow> bytes) \<Rightarrow> 'r io_reader \<Rightarrow> int64 \<Rightarrow> string \<Rightarrow> 'r \<Rightarrow> chunk list \<Rightarrow> int64 \<Rightarrow> int \<Rightarrow> chunk list chunked option" where
  "reader_loop H rd sz fileID s chunks offset chunkID =
     (if sz < 0 then Some ChunkPanic
      else
        (case rd s sz of (chunkData, err, s') \<Rightarrow>
           (case err of
              ReadFailed e \<Rightarrow> Some (ReadError e)
            | _ \<Rightarrow>
                if length chunkData = 0 then Some (Chunks chunks)
                else
                  (let isLast = (err = EOF);
                       chunk = \<lparr>ck_file_id = fileID, ck_id = chunkID, ck_offset = offset,
                                ck_length = int (length chunkData), ck_data = chunkData,
                                ck_hash = HashString H chunkData, ck_file_hash = '''',
                                ck_is_last = isLast, ck_total = -1\<rparr>;
                       chunks' = chunks @ [chunk]
                   in if isLast then Some (Chunks chunks')
                      else reader_loop H rd sz fileID s' chunks'
                             (wrap64 (offset + int (length chunkData))) (wrap64 (chunkID + 1))))))"

definition ChunkReader ::
  "(bytes \<Rightarrow> bytes) \<Rightarrow> 'r io_reader \<Rightarrow> chunker \<Rightarrow> string \<Rightarrow> 'r \<Rightarrow> chunk list chunked option" where
  "ChunkReader H rd c fileID s =
     (case reader_loop H rd (chunkSize c) fileID s [] 0 0 of
        None \<Rightarrow> None
      | Some (Chunks chunks) \<Rightarrow> Some (Chunks (map (\<lambda>ck. ck\<lparr>ck_total := int (length chunks)\<rparr>) chunks))
      | Some r \<Rightarrow> Some r)"

section \<open>The assembler\<close>

datatype assemble_error =
    NoChunks
  | OffsetMismatch int int
  | FileHashMismatch string string
  | AssemblePanic

text \<open>\<open>copy(dst[n:], src)\<close>\<close>

definition copy_at :: "nat \<Rightarrow> bytes \<Rightarrow> bytes \<Rightarrow> bytes" where
  "copy_at n src dst = take n dst @ take (length dst - n) src @ drop (n + length src) dst"

fun assemble_loop :: "chunk list \<Rightarrow> int64 \<Rightarrow> bytes \<Rightarrow> assemble_error + bytes" where
  "assemble_loop [] offset assembled = Inr assembled"
| "assemble_loop (ck # cks) offset assembled =
     (if ck_offset ck \<noteq> offset then Inl (OffsetMismatch offset (ck_offset ck))
      else if offset < 0 \<or> offset > int (length assembled) then Inl AssemblePanic
      else assemble_loop cks (wrap64 (offset + ck_length ck))
             (copy_at (nat offset) (ck_data ck) assembled))"

definition total_length :: "chunk list \<Rightarrow> int64" where
  "total_length cks = foldl (\<lambda>n ck. wrap64 (n + ck_length ck)) 0 cks"

text \<open>
  \<open>sort.Slice\<close> by chunk id: for chunks of distinct ids every sorting algorithm gives the list of
  \<open>sort_key\<close>; chunks of equal ids, which the chunk manager never passes, are kept in order here.
\<close>

definition AssembleChunks :: "(bytes \<Rightarrow> bytes) \<Rightarrow> chunk list \<Rightarrow> string \<Rightarrow> assemble_error + bytes" where
  "AssembleChunks H chunks expectedFileHash =
     (if length chunks = 0 then Inl NoChunks
      else
        (let sortedChunks = sort_key ck_id chunks;
             totalSize = total_length sortedChunks
         in if totalSize < 0 then Inl AssemblePanic
            else
              (case assemble_loop sortedChunks 0 (replicate (nat totalSize) (CHR 0x00)) of
                 Inl e \<Rightarrow> Inl e
               | Inr assembled \<Rightarrow>
                   (let actualHash = HashString H assembled
                    in if actualHash \<noteq> expectedFileHash then
                         Inl (FileHashMismatch expectedFileHash actualHash)
                       else Inr assembled))))"

definition VerifyChunkHash :: "(bytes \<Rightarrow> bytes) \<Rightarrow> chunk \<Rightarrow> (int \<times> string \<times> string) option" where
  "VerifyChunkHash H ck =
     (let actualHash = HashString H (ck_data ck)
      in if actualHash \<noteq> ck_hash ck then Some (ck_id ck, ck_hash ck, actualHash) else None)"

fun VerifyAllChunks :: "(bytes \<Rightarrow> bytes) \<Rightarrow> chunk list \<Rightarrow> (int \<times> string \<times> string) option" where
  "VerifyAllChunks H [] = None"
| "VerifyAllChunks H (ck # cks) =
     (case VerifyChunkHash H ck of Some e \<Rightarrow> Some e | None \<Rightarrow> VerifyAllChunks H cks)"

section \<open>Lemmas\<close>

subsection \<open>Assembling\<close>

text \<open>A chunk whose length field is the length of its data, and the offsets a sorted list must have.\<close>

definition ck_wf :: "chunk \<Rightarrow> bool" where
  "ck_wf ck \<longleftrightarrow> ck_length ck = int (length (ck_data ck))"

fun contiguous :: "int \<Rightarrow> chunk list \<Rightarrow> bool" where
  "contiguous off [] = True"
| "contiguous off (ck # cks) = (ck_offset ck = off \<and> contiguous (off + ck_length ck) cks)"

abbreviation all_data :: "chunk list \<Rightarrow> bytes" where
  "all_data cks \<equiv> concat (map ck_data cks)"

lemma length_copy_at [simp]: "length (copy_at n src dst) = length dst" if "n \<le> length dst"
  using that by (simp add: copy_at_def)

lemma foldl_length_wrap:
  "list_all ck_wf cks \<Longrightarrow> 0 \<le> n \<Longrightarrow> in_int64 (n + int (length (all_data cks))) \<Longrightarrow>
   foldl (\<lambda>n ck. wrap64 (n + ck_length ck)) n cks = n + int (length (all_data cks))"
proof (induction cks arbitrary: n)
  case (Cons ck cks)
  have "in_int64 (n + ck_length ck)"
    using Cons.prems by (simp add: ck_wf_def in_int64_def)
  then have "wrap64 (n + ck_length ck) = n + int (length (ck_data ck))"
    using Cons.prems by (simp add: ck_wf_def)
  then show ?case using Cons by (simp add: add.assoc)
qed simp

lemma total_length_wf:
  "list_all ck_wf cks \<Longrightarrow> in_int64 (int (length (all_data cks))) \<Longrightarrow>
   total_length cks = int (length (all_data cks))"
  using foldl_length_wrap [of cks 0] by (simp add: total_length_def)

text \<open>One turn of the loop on a well-formed chunk that fits the buffer.\<close>

lemma assemble_turn:
  assumes "ck_wf ck" "n + length (ck_data ck) \<le> length buf" "in_int64 (int (length buf))" "ck_offset ck = int n"
  shows "assemble_loop (ck # cks) (int n) buf =
      assemble_loop cks (int (n + length (ck_data ck))) (copy_at n (ck_data ck) buf)"
    and "take (n + length (ck_data ck)) (copy_at n (ck_data ck) buf) = take n buf @ ck_data ck"
proof -
  have "wrap64 (int n + ck_length ck) = int (n + length (ck_data ck))"
    using assms by (simp add: ck_wf_def in_int64_def)
  then show "assemble_loop (ck # cks) (int n) buf =
      assemble_loop cks (int (n + length (ck_data ck))) (copy_at n (ck_data ck) buf)"
    using assms by simp
  show "take (n + length (ck_data ck)) (copy_at n (ck_data ck) buf) = take n buf @ ck_data ck"
    using assms by (simp add: copy_at_def)
qed

lemma assemble_loop_contiguous:
  "list_all ck_wf cks \<Longrightarrow> contiguous (int n) cks \<Longrightarrow> n + length (all_data cks) = length buf \<Longrightarrow>
   in_int64 (int (length buf)) \<Longrightarrow> assemble_loop cks (int n) buf = Inr (take n buf @ all_data cks)"
proof (induction cks arbitrary: n buf)
  case (Cons ck cks)
  let ?n = "n + length (ck_data ck)" and ?buf = "copy_at n (ck_data ck) buf"
  have "contiguous (int ?n) cks" "ck_offset ck = int n" "ck_wf ck"
    using Cons.prems by (simp_all add: ck_wf_def)
  moreover have "?n + length (all_data cks) = length ?buf" "?n \<le> length buf"
    using Cons.prems(3) by simp_all
  ultimately show ?case
    using Cons.IH [of ?n ?buf] Cons.prems by (simp only: assemble_turn) simp
qed simp

lemma assemble_loop_gap:
  "list_all ck_wf cks \<Longrightarrow> \<not> contiguous (int n) cks \<Longrightarrow> n + length (all_data cks) = length buf \<Longrightarrow>
   in_int64 (int (length buf)) \<Longrightarrow> \<exists>i j. assemble_loop cks (int n) buf = Inl (OffsetMismatch i j)"
proof (induction cks arbitrary: n buf)
  case (Cons ck cks)
  show ?case
  proof (cases "ck_offset ck = int n")
    case True
    let ?n = "n + length (ck_data ck)" and ?buf = "copy_at n (ck_data ck) buf"
    have "\<not> contiguous (int ?n) cks" "ck_wf ck"
      using Cons.prems True by (simp_all add: ck_wf_def)
    moreover have "?n + length (all_data cks) = length ?buf" "?n \<le> length buf"
      using Cons.prems(3) by simp_all
    ultimately show ?thesis
      using Cons.IH [of ?n ?buf] Cons.prems True by (simp only: assemble_turn(1)) simp
  qed simp
qed simp

text \<open>The set of lengths does not depend on the order.\<close>

lemma length_all_data_perm: "mset cks = mset cks' \<Longrightarrow> length (all_data cks) = length (all_data cks')"
proof -
  assume "mset cks = mset cks'"
  then have "sum_mset (image_mset (length \<circ> ck_data) (mset cks)) =
      sum_mset (image_mset (length \<circ> ck_data) (mset cks'))" by simp
  then show ?thesis by (simp add: length_concat comp_def sum_mset_sum_list flip: mset_map)
qed

lemma AssembleChunks_wf:
  assumes "cks \<noteq> []" "list_all ck_wf cks" "in_int64 (int (length (all_data cks)))"
  defines "scks \<equiv> sort_key ck_id cks"
  shows "contiguous 0 scks \<Longrightarrow> AssembleChunks H cks h =
      (if HashString H (all_data scks) = h then Inr (all_data scks)
       else Inl (FileHashMismatch h (HashString H (all_data scks))))"
    and "\<not> contiguous 0 scks \<Longrightarrow> \<exists>i j. AssembleChunks H cks h = Inl (OffsetMismatch i j)"
proof -
  have wf: "list_all ck_wf scks" using assms(2) by (simp add: scks_def list_all_iff)
  have len: "length (all_data scks) = length (all_data cks)"
    by (rule length_all_data_perm) (simp add: scks_def)
  then have tot: "total_length scks = int (length (all_data scks))"
    using total_length_wf [OF wf] assms(3) by simp
  let ?buf = "replicate (nat (total_length scks)) (CHR 0x00)"
  have buf: "0 + length (all_data scks) = length ?buf" "in_int64 (int (length ?buf))"
    using tot len assms(3) by simp_all
  have unf: "AssembleChunks H cks h = (case assemble_loop scks 0 ?buf of Inl e \<Rightarrow> Inl e
      | Inr d \<Rightarrow> if HashString H d \<noteq> h then Inl (FileHashMismatch h (HashString H d)) else Inr d)"
    using assms(1) tot by (simp add: AssembleChunks_def scks_def Let_def split: sum.split)
  show "contiguous 0 scks \<Longrightarrow> AssembleChunks H cks h =
      (if HashString H (all_data scks) = h then Inr (all_data scks)
       else Inl (FileHashMismatch h (HashString H (all_data scks))))"
    using assemble_loop_contiguous [OF wf _ buf] unf by simp
  show "\<not> contiguous 0 scks \<Longrightarrow> \<exists>i j. AssembleChunks H cks h = Inl (OffsetMismatch i j)"
    using assemble_loop_gap [OF wf _ buf] unf by auto
qed

lemma AssembleChunks_verified: "AssembleChunks H cks h = Inr d \<Longrightarrow> HashString H d = h"
  by (auto simp: AssembleChunks_def Let_def split: if_splits sum.splits)

subsection \<open>Splitting\<close>

text \<open>
  The chunks of a file over the natural numbers: \<open>chunk_count k n\<close> chunks for \<open>n\<close> bytes, each but
  the last of \<open>k\<close> bytes. \<open>ChunkFile\<close> computes them whenever its arithmetic does not overflow.
\<close>

definition chunk_count :: "nat \<Rightarrow> nat \<Rightarrow> nat" where
  "chunk_count k n = max 1 ((n + k - 1) div k)"

definition file_chunk :: "(bytes \<Rightarrow> bytes) \<Rightarrow> string \<Rightarrow> nat \<Rightarrow> bytes \<Rightarrow> nat \<Rightarrow> chunk" where
  "file_chunk H fileID k data i =
     (let block = take k (drop (i * k) data); m = chunk_count k (length data)
      in \<lparr>ck_file_id = fileID, ck_id = int i, ck_offset = int (i * k), ck_length = int (length block),
          ck_data = block, ck_hash = HashString H block, ck_file_hash = '''',
          ck_is_last = (i = m - 1), ck_total = int m\<rparr>)"

definition file_chunks :: "(bytes \<Rightarrow> bytes) \<Rightarrow> string \<Rightarrow> nat \<Rightarrow> bytes \<Rightarrow> chunk list" where
  "file_chunks H fileID k data = map (file_chunk H fileID k data) [0..<chunk_count k (length data)]"

lemma file_chunk_fields [simp]:
  "ck_file_id (file_chunk H f k data i) = f" "ck_id (file_chunk H f k data i) = int i"
  "ck_offset (file_chunk H f k data i) = int (i * k)"
  "ck_data (file_chunk H f k data i) = take k (drop (i * k) data)"
  "ck_length (file_chunk H f k data i) = int (length (take k (drop (i * k) data)))"
  "ck_hash (file_chunk H f k data i) = HashString H (take k (drop (i * k) data))"
  "ck_file_hash (file_chunk H f k data i) = ''''"
  "ck_is_last (file_chunk H f k data i) = (i = chunk_count k (length data) - 1)"
  "ck_total (file_chunk H f k data i) = int (chunk_count k (length data))"
  by (simp_all add: file_chunk_def Let_def)

lemma length_file_chunks: "length (file_chunks H f k data) = chunk_count k (length data)"
  by (simp add: file_chunks_def)

lemma chunk_count_pos [simp]: "0 < chunk_count k n"
  by (simp add: chunk_count_def)

lemma chunk_count_covers: "0 < k \<Longrightarrow> n \<le> chunk_count k n * k"
proof -
  assume k: "0 < k"
  have "(n + k - 1) div k * k + (n + k - 1) mod k = n + k - 1" by (rule div_mult_mod_eq)
  moreover have "(n + k - 1) mod k < k" using k by simp
  ultimately have "n \<le> (n + k - 1) div k * k" by linarith
  also have "\<dots> \<le> chunk_count k n * k" by (simp add: chunk_count_def)
  finally show ?thesis .
qed

lemma chunk_count_tight: "0 < k \<Longrightarrow> 0 < i \<Longrightarrow> i < chunk_count k n \<Longrightarrow> i * k < n"
proof -
  assume k: "0 < k" and i: "0 < i" "i < chunk_count k n"
  then have "Suc i \<le> (n + k - 1) div k" by (auto simp: chunk_count_def max_def split: if_splits)
  then have "Suc i * k \<le> n + k - 1" by (metis k less_eq_div_iff_mult_less_eq)
  then show ?thesis using k by simp
qed

lemma chunk_count_ceil:
  "0 < n \<Longrightarrow> 0 < k \<Longrightarrow> in_int64 (int n + int k) \<Longrightarrow> ceil_div (int n) (int k) = Some (int (chunk_count k n))"
proof -
  assume n: "0 < n" and k: "0 < k" and r: "in_int64 (int n + int k)"
  have w: "wrap64 (wrap64 (int n + int k) - 1) = int (n + k - 1)"
    using r n by (simp add: in_int64_def of_nat_diff)
  have "1 \<le> (n + k - 1) div k" using n k by (simp add: Suc_le_eq div_greater_zero_iff)
  then have c: "chunk_count k n = (n + k - 1) div k" by (simp add: chunk_count_def)
  have "go_quot (int (n + k - 1)) (int k) = int ((n + k - 1) div k)"
    using k by (simp add: go_quot_pos zdiv_int)
  moreover have "in_int64 (int ((n + k - 1) div k))"
  proof -
    have "(n + k - 1) div k \<le> n + k - 1" by simp
    then show ?thesis using r n unfolding in_int64_def by linarith
  qed
  ultimately show ?thesis using k by (simp only: ceil_div_def w c) simp
qed

lemma chunk_at_file_chunk:
  assumes "0 < k" "in_int64 (int (length data) + int k)" "i < chunk_count k (length data)" "data \<noteq> []"
  shows "chunk_at H \<lparr>chunkSize = int k\<rparr> fileID data (int (chunk_count k (length data))) (int i) =
    Some (file_chunk H fileID k data i)"
proof -
  have lt: "i * k < length data"
    using chunk_count_tight [OF assms(1) _ assms(3)] assms(4) by (cases "i = 0") simp_all
  then have "int (i * k) + int k < 2 ^ 63" using assms(2) by (simp add: in_int64_def del: of_nat_mult)
  then have "in_int64 (int (i * k) + int k)" "in_int64 (int (i * k))"
    by (simp_all add: in_int64_def del: of_nat_mult)
  then have w: "wrap64 (int i * int k) = int (i * k)" "wrap64 (int (i * k) + int k) = int (i * k + k)"
    by simp_all
  let ?e = "if int (i * k + k) > int (length data) then int (length data) else int (i * k + k)"
  have "?e = int (min (length data) (i * k + k))"
    by (simp only: of_nat_less_iff min_def not_le flip: if_distrib [of int]) simp
  then have "nat ?e = min (length data) (i * k + k)" by (simp only: nat_int)
  then have e: "slice (nat (int (i * k))) (nat ?e) data = take k (drop (i * k) data)"
    unfolding slice_def nat_int by (cases "length data \<le> i * k + k") (simp_all add: min_def)
  have "0 \<le> int (i * k)" "int (i * k) \<le> ?e" using lt by (simp_all del: of_nat_mult)
  moreover have "int i = int (chunk_count k (length data)) - 1 \<longleftrightarrow> i = chunk_count k (length data) - 1"
    using chunk_count_pos [of k "length data"] by linarith
  ultimately show ?thesis
    unfolding chunk_at_def file_chunk_def Let_def chunker.select_convs w e by simp
qed

lemma those_map_Some: "(\<And>x. x \<in> set xs \<Longrightarrow> f x = Some (g x)) \<Longrightarrow> those (map f xs) = Some (map g xs)"
  by (induction xs) auto

lemma ChunkFile_file_chunks:
  assumes "0 < k" "in_int64 (int (length data) + int k)"
  shows "ChunkFile H (NewChunker (int k)) fileID data = Some (file_chunks H fileID k data)"
proof (cases "data = []")
  case True
  have "chunk_count k 0 = 1" using assms(1) by (simp add: chunk_count_def)
  with True show ?thesis
    by (simp add: ChunkFile_def file_chunks_def file_chunk_def)
next
  case False
  then have "ceil_div (int (length data)) (int k) = Some (int (chunk_count k (length data)))"
    using assms by (simp add: chunk_count_ceil)
  with False show ?thesis
    using those_map_Some [of "[0..<chunk_count k (length data)]", OF chunk_at_file_chunk [OF assms]]
    by (simp add: ChunkFile_def NewChunker_def file_chunks_def)
qed

lemma concat_blocks: "concat (map (\<lambda>i. take k (drop (i * k) xs)) [0..<m]) = take (m * k) xs"
proof (induction m)
  case (Suc m)
  then show ?case by (simp add: take_add [of "m * k" k] add.commute [of k])
qed simp

lemma all_data_file_chunks [simp]: "0 < k \<Longrightarrow> all_data (file_chunks H f k data) = data"
  by (simp add: file_chunks_def comp_def concat_blocks chunk_count_covers)

lemma contiguous_file_chunks:
  "0 < k \<Longrightarrow> contiguous (int (j * k)) (map (file_chunk H f k data) [j..<chunk_count k (length data)])"
proof (induction "chunk_count k (length data) - j" arbitrary: j)
  case (Suc d)
  let ?m = "chunk_count k (length data)"
  have j: "j < ?m" using Suc.hyps(2) by simp
  have up: "[j..<?m] = j # [Suc j..<?m]" using j by (rule upt_conv_Cons)
  show ?case
  proof (cases "Suc j < ?m")
    case True
    then have "Suc j * k < length data" using Suc.prems by (blast intro: chunk_count_tight)
    then have "length (take k (drop (j * k) data)) = k" by simp
    moreover have "contiguous (int (Suc j * k)) (map (file_chunk H f k data) [Suc j..<?m])"
      using Suc.hyps(2) Suc.prems by (intro Suc.hyps(1)) simp_all
    ultimately show ?thesis unfolding up by (simp add: add.commute)
  next
    case False
    then have none: "[Suc j..<?m] = []" by simp
    show ?thesis unfolding up none by simp
  qed
qed simp

lemma file_chunks_wf: "list_all ck_wf (file_chunks H f k data)"
  by (simp add: file_chunks_def list_all_iff ck_wf_def)

lemma sort_file_chunks:
  "mset cks = mset (file_chunks H f k data) \<Longrightarrow> sort_key ck_id cks = file_chunks H f k data"
proof (rule sort_key_inj_key_eq)
  have inj: "inj_on ck_id (set (file_chunks H f k data))"
    by (auto simp: file_chunks_def inj_on_def)
  assume "mset cks = mset (file_chunks H f k data)"
  then show "inj_on ck_id (set cks)" using inj by (metis mset_eq_setD)
  show "sorted (map ck_id (file_chunks H f k data))"
    by (simp add: file_chunks_def comp_def sorted_iff_nth_mono)
qed

lemma sorted_file_chunks_data:
  "0 < k \<Longrightarrow> mset cks = mset (file_chunks H f k data) \<Longrightarrow>
   contiguous 0 (sort_key ck_id cks) \<and> all_data (sort_key ck_id cks) = data \<and>
   list_all ck_wf cks \<and> length (all_data cks) = length data \<and> cks \<noteq> []"
proof -
  assume k: "0 < k" and perm: "mset cks = mset (file_chunks H f k data)"
  have "contiguous 0 (file_chunks H f k data)"
    using contiguous_file_chunks [OF k, of 0] by (simp add: file_chunks_def)
  moreover have "file_chunks H f k data \<noteq> []"
    using chunk_count_pos [of k "length data"] by (auto simp: file_chunks_def)
  moreover have "list_all ck_wf cks"
    using file_chunks_wf perm by (metis list_all_iff mset_eq_setD)
  ultimately show ?thesis
    using sort_file_chunks [OF perm] length_all_data_perm [OF perm] k perm by auto
qed

lemma AssembleChunks_file_chunks:
  assumes "0 < k" "in_int64 (int (length data))" "mset arrived = mset (file_chunks H f k data)"
  shows "AssembleChunks H' arrived h =
    (if HashString H' data = h then Inr data else Inl (FileHashMismatch h (HashString H' data)))"
proof -
  note facts = sorted_file_chunks_data [OF assms(1,3)]
  moreover have "in_int64 (int (length (all_data arrived)))" using facts assms(2) by simp
  ultimately show ?thesis using AssembleChunks_wf(1) [of arrived H' h] by simp
qed

text \<open>The assembler does not read the chunks' own \<open>FileHash\<close>.\<close>

lemma sort_key_map: "(\<And>x. f (g x) = f x) \<Longrightarrow> sort_key f (map g xs) = map g (sort_key f xs)"
proof (induction xs)
  case (Cons x xs)
  have "insort_key f (g x) (map g ys) = map g (insort_key f x ys)" for ys
    using Cons.prems by (induction ys) auto
  then show ?case using Cons by simp
qed simp

lemma AssembleChunks_file_hash:
  "AssembleChunks H (map (ck_file_hash_update g) cks) h = AssembleChunks H cks h"
proof -
  have "total_length (map (ck_file_hash_update g) cks) = total_length cks" for cks
    by (simp add: total_length_def foldl_map)
  moreover have "assemble_loop (map (ck_file_hash_update g) cks) n buf = assemble_loop cks n buf" for n buf cks
    by (induction cks arbitrary: n buf) auto
  ultimately show ?thesis
    by (simp add: AssembleChunks_def sort_key_map Let_def)
qed

subsection \<open>Reading\<close>

text \<open>The reader over a byte slice (\<open>bytes.Reader\<close>): the end of the data is a read of no bytes.\<close>

definition slice_reader :: "bytes io_reader" where
  "slice_reader s n = (if s = [] then ([], EOF, []) else (take (nat n) s, NoError, drop (nat n) s))"

lemma reader_loop_slice:
  assumes "0 < k" "data \<noteq> []" "in_int64 (int (length data) + int k)"
  shows "j \<le> chunk_count k (length data) \<Longrightarrow>
    reader_loop H slice_reader (int k) f (drop (j * k) data) cks (int (j * k)) (int j) =
    Some (Chunks (cks @ map (\<lambda>i. (file_chunk H f k data i)\<lparr>ck_is_last := False, ck_total := -1\<rparr>)
      [j..<chunk_count k (length data)]))"
proof (induction "chunk_count k (length data) - j" arbitrary: j cks)
  case 0
  then have "j = chunk_count k (length data)" by simp
  then have "drop (j * k) data = []" "[j..<chunk_count k (length data)] = []"
    using chunk_count_covers [OF assms(1)] by simp_all
  then show ?case by (subst reader_loop.simps) (simp add: slice_reader_def)
next
  case (Suc d)
  let ?m = "chunk_count k (length data)" and ?b = "take k (drop (j * k) data)"
  have lt: "j < ?m" "j * k < length data"
    using Suc.hyps(2) chunk_count_tight [OF assms(1), of j] assms(2) by (cases "j = 0"; simp)+
  have up: "[j..<?m] = j # [Suc j..<?m]" using lt(1) by (rule upt_conv_Cons)
  have small: "j \<le> j * k" using assms(1) by simp
  then have "j < length data" using lt(2) by (rule le_less_trans)
  then have "in_int64 (int j + 1)" using assms(1,3) unfolding in_int64_def by linarith
  then have "wrap64 (int j + 1) = int (Suc j)" by simp
  moreover have "int (j * k) + int (length ?b) \<le> int (length data)"
    using lt(2) by (simp del: of_nat_mult flip: of_nat_add)
  then have "wrap64 (int (j * k) + int (length ?b)) = int (j * k) + int (length ?b)"
    using assms(3) by (intro wrap64_id) (simp add: in_int64_def del: of_nat_mult)
  moreover have "reader_loop H slice_reader (int k) f (drop (Suc j * k) data) cks'
      (int (j * k) + int (length ?b)) (int (Suc j)) =
      Some (Chunks (cks' @ map (\<lambda>i. (file_chunk H f k data i)\<lparr>ck_is_last := False, ck_total := -1\<rparr>)
        [Suc j..<?m]))" for cks'
  proof (cases "Suc j < ?m")
    case True
    then have "Suc j * k < length data" using assms(1) by (blast intro: chunk_count_tight)
    then have "length ?b = k" by simp
    then show ?thesis using Suc.hyps(1) [of "Suc j" cks'] Suc.hyps(2) True by (simp add: add.commute)
  next
    case False
    then have m: "?m = Suc j" using lt(1) by (intro le_antisym) simp_all
    have none: "drop (Suc j * k) data = []"
      using chunk_count_covers [OF assms(1), of "length data"] unfolding m by (rule drop_all)
    show ?thesis unfolding m none by (subst reader_loop.simps) (simp add: slice_reader_def)
  qed
  moreover have "drop k (drop (j * k) data) = drop (Suc j * k) data" by (simp add: add.commute)
  moreover have "drop (j * k) data \<noteq> []" "?b \<noteq> []" using lt(2) assms(1) by simp_all
  moreover have "(file_chunk H f k data j)\<lparr>ck_is_last := False, ck_total := -1\<rparr> =
      \<lparr>ck_file_id = f, ck_id = int j, ck_offset = int (j * k), ck_length = int (length ?b), ck_data = ?b,
       ck_hash = HashString H ?b, ck_file_hash = '''', ck_is_last = False, ck_total = -1\<rparr>"
    by (simp add: file_chunk_def Let_def)
  ultimately show ?case
    unfolding up
    by (subst reader_loop.simps) (simp add: slice_reader_def Let_def del: of_nat_mult length_take)
qed

section \<open>Properties\<close>

text \<open>C14. Splitting and assembling are inverse: whatever order the chunks of a file arrive in, the
  assembler gives back the file when the expected hash is the file's, and reports both hashes
  otherwise. The chunk size only has to be positive and small enough for 64-bit arithmetic.\<close>

theorem chunk_roundtrip:
  assumes "0 < k" "in_int64 (int (length data) + int k)"
    and "ChunkFile H (NewChunker (int k)) fileID data = Some chunks" "mset arrived = mset chunks"
  shows "AssembleChunks H arrived h =
    (if HashString H data = h then Inr data else Inl (FileHashMismatch h (HashString H data)))"
proof (rule AssembleChunks_file_chunks)
  show "mset arrived = mset (file_chunks H fileID k data)"
    using assms by (simp add: ChunkFile_file_chunks)
  show "in_int64 (int (length data))" using assms(2) by (simp add: in_int64_def)
qed (rule assms(1))

definition id_hash :: "bytes \<Rightarrow> bytes" where "id_hash b = b"

lemma chunk_roundtrip_witness:
  "AssembleChunks id_hash (rev (the (ChunkFile id_hash (NewChunker (int 2)) ''f'' ''abcde'')))
     (HashString id_hash ''abcde'') = Inr ''abcde''"
  using chunk_roundtrip [of 2 "''abcde''" id_hash "''f''" "the (ChunkFile id_hash (NewChunker (int 2)) ''f'' ''abcde'')"
      "rev (the (ChunkFile id_hash (NewChunker (int 2)) ''f'' ''abcde''))" "HashString id_hash ''abcde''"]
    ChunkFile_file_chunks [of 2 "''abcde''" id_hash "''f''"]
  by (simp add: in_int64_def)

text \<open>The chunks of a file are numbered from zero, carry their count, offset and hash, cover the file
  in order without gap or overlap, and only the final one is marked last; no chunk names the hash
  of the file.\<close>

theorem chunk_file_shape:
  assumes "0 < k" "in_int64 (int (length data) + int k)"
  shows "\<exists>chunks. ChunkFile H (NewChunker (int k)) fileID data = Some chunks \<and>
    CalculateChunkCount (NewChunker (int k)) (int (length data)) = Some (int (length chunks)) \<and>
    concat (map ck_data chunks) = data \<and> contiguous 0 chunks \<and> VerifyAllChunks H chunks = None \<and>
    map ck_id chunks = map int [0..<length chunks] \<and>
    map ck_is_last chunks = map (\<lambda>i. i = length chunks - 1) [0..<length chunks] \<and>
    map ck_total chunks = replicate (length chunks) (int (length chunks)) \<and>
    map ck_file_hash chunks = replicate (length chunks) ''''"
proof (intro exI conjI)
  let ?cks = "file_chunks H fileID k data" and ?m = "chunk_count k (length data)"
  have len: "length ?cks = ?m" by (rule length_file_chunks)
  show "ChunkFile H (NewChunker (int k)) fileID data = Some ?cks"
    using assms by (rule ChunkFile_file_chunks)
  have "chunk_count k 0 = 1" using assms(1) by (simp add: chunk_count_def)
  then show "CalculateChunkCount (NewChunker (int k)) (int (length data)) = Some (int (length ?cks))"
    using assms chunk_count_ceil [of "length data" k]
    by (cases "data = []") (simp_all add: CalculateChunkCount_def NewChunker_def length_file_chunks)
  show "concat (map ck_data ?cks) = data" using assms(1) by simp
  show "contiguous 0 ?cks"
    using contiguous_file_chunks [OF assms(1), of 0] by (simp add: file_chunks_def)
  have "VerifyAllChunks H cks = None" if "\<forall>ck \<in> set cks. VerifyChunkHash H ck = None" for cks
    using that by (induction cks) auto
  then show "VerifyAllChunks H ?cks = None" by (auto simp: file_chunks_def VerifyChunkHash_def)
  show "map ck_id ?cks = map int [0..<length ?cks]" by (simp add: len) (simp add: file_chunks_def comp_def)
  show "map ck_is_last ?cks = map (\<lambda>i. i = length ?cks - 1) [0..<length ?cks]"
    by (simp add: len) (simp add: file_chunks_def comp_def)
  show "map ck_total ?cks = replicate (length ?cks) (int (length ?cks))"
    by (simp add: len) (simp add: file_chunks_def comp_def map_replicate_const)
  show "map ck_file_hash ?cks = replicate (length ?cks) ''''"
    by (simp add: len) (simp add: file_chunks_def comp_def map_replicate_const)
qed

lemma chunk_file_shape_witness:
  "\<exists>chunks. ChunkFile id_hash (NewChunker (int 2)) ''f'' ''abc'' = Some chunks \<and>
    CalculateChunkCount (NewChunker (int 2)) (int (length ''abc'')) = Some (int (length chunks)) \<and>
    concat (map ck_data chunks) = ''abc'' \<and> contiguous 0 chunks \<and> VerifyAllChunks id_hash chunks = None \<and>
    map ck_id chunks = map int [0..<length chunks] \<and>
    map ck_is_last chunks = map (\<lambda>i. i = length chunks - 1) [0..<length chunks] \<and>
    map ck_total chunks = replicate (length chunks) (int (length chunks)) \<and>
    map ck_file_hash chunks = replicate (length chunks) ''''"
  by (rule chunk_file_shape) (simp_all add: in_int64_def)

text \<open>A chunk size near the end of the 64-bit range makes the ceiling division overflow: the file is
  split into no chunks at all, without an error.\<close>

theorem chunk_size_overflow_loses_file:
  assumes "2 \<le> length data" "in_int64 (int (length data))"
  shows "ChunkFile H (NewChunker (2 ^ 63 - 1)) fileID data = Some []"
proof -
  let ?n = "int (length data)"
  have n: "2 \<le> ?n" "?n < 2 ^ 63" using assms by (simp_all add: in_int64_def)
  have s: "wrap64 (?n + (2 ^ 63 - 1)) = ?n - 1 - 2 ^ 63"
  proof -
    have "(?n + (2 ^ 63 - 1) + 2 ^ 63) mod 2 ^ 64 = (?n - 1 + 2 ^ 64) mod 2 ^ 64" by simp
    also have "\<dots> = (?n - 1) mod 2 ^ 64" by (rule mod_add_self2)
    also have "\<dots> = ?n - 1"
    proof (rule mod_pos_pos_trivial)
      show "0 \<le> ?n - 1" using n(1) by linarith
      have "(2 :: int) ^ 63 \<le> 2 ^ 64" by simp
      with n(2) show "?n - 1 < 2 ^ 64" by linarith
    qed
    finally show ?thesis by (simp add: wrap64_def)
  qed
  have w: "wrap64 (wrap64 (?n + (2 ^ 63 - 1)) - 1) = ?n - 2 - 2 ^ 63"
    unfolding s using n by (subst wrap64_id) (simp_all add: in_int64_def)
  have "go_quot (?n - 2 - 2 ^ 63) (2 ^ 63 - 1) \<le> 0"
    using n by (auto simp: go_quot_def sgn_if pos_imp_zdiv_nonneg_iff)
  moreover have "- (2 ^ 63) \<le> go_quot (?n - 2 - 2 ^ 63) (2 ^ 63 - 1)"
  proof -
    have "\<bar>?n - 2 - 2 ^ 63\<bar> div \<bar>2 ^ 63 - 1\<bar> \<le> \<bar>?n - 2 - 2 ^ 63\<bar>"
      using zdiv_mono2 [of "\<bar>?n - 2 - 2 ^ 63\<bar>" 1 "\<bar>2 ^ 63 - 1\<bar>"] by simp
    then show ?thesis using n by (auto simp: go_quot_def sgn_if)
  qed
  ultimately have "in_int64 (go_quot (?n - 2 - 2 ^ 63) (2 ^ 63 - 1)) \<and>
      nat (go_quot (?n - 2 - 2 ^ 63) (2 ^ 63 - 1)) = 0" by (simp add: in_int64_def)
  then have "\<exists>t. ceil_div ?n (2 ^ 63 - 1) = Some t \<and> nat t = 0"
    unfolding ceil_div_def w by simp
  moreover have "data \<noteq> []" using assms(1) by (cases data) simp_all
  ultimately show ?thesis by (auto simp: ChunkFile_def NewChunker_def)
qed

lemma chunk_size_overflow_loses_file_witness:
  "ChunkFile id_hash (NewChunker (2 ^ 63 - 1)) ''f'' ''ab'' = Some []"
  by (rule chunk_size_overflow_loses_file) (simp_all add: in_int64_def)

text \<open>Reading a file instead of passing its bytes gives the same chunks, except that no chunk is
  marked last, and that an empty file gives no chunk: the reader reports the end of the data only
  with a read of no bytes.\<close>

theorem chunk_reader_never_marks_last:
  assumes "0 < k" "in_int64 (int (length data) + int k)"
  shows "ChunkReader H slice_reader (NewChunker (int k)) fileID data =
    Some (Chunks (if data = [] then []
      else map (ck_is_last_update (\<lambda>_. False)) (the (ChunkFile H (NewChunker (int k)) fileID data))))"
proof (cases "data = []")
  case True
  then show ?thesis
    by (simp add: ChunkReader_def NewChunker_def reader_loop.simps slice_reader_def)
next
  case False
  have "reader_loop H slice_reader (int k) fileID (drop (0 * k) data) [] (int (0 * k)) (int 0) =
    Some (Chunks ([] @ map (\<lambda>i. (file_chunk H fileID k data i)\<lparr>ck_is_last := False, ck_total := -1\<rparr>)
      [0..<chunk_count k (length data)]))"
    by (rule reader_loop_slice) (use assms False in auto)
  with False show ?thesis
    by (simp add: ChunkReader_def NewChunker_def ChunkFile_file_chunks [OF assms, unfolded NewChunker_def]
        file_chunks_def file_chunk_def Let_def)
qed

lemma chunk_reader_never_marks_last_witness:
  "ChunkReader id_hash slice_reader (NewChunker (int 2)) ''f'' ''abc'' =
    Some (Chunks (if ''abc'' = '''' then []
      else map (ck_is_last_update (\<lambda>_. False)) (the (ChunkFile id_hash (NewChunker (int 2)) ''f'' ''abc''))))"
  by (rule chunk_reader_never_marks_last) (simp_all add: in_int64_def)

text \<open>On chunks whose length fields are honest the assembler succeeds exactly when the offsets of the
  sorted chunks leave no gap and the hash is the expected one, and then returns their data in order.\<close>

theorem assemble_exact:
  assumes "cks \<noteq> []" "list_all ck_wf cks" "in_int64 (int (length (concat (map ck_data cks))))"
  shows "AssembleChunks H cks h = Inr d \<longleftrightarrow>
    contiguous 0 (sort_key ck_id cks) \<and> d = concat (map ck_data (sort_key ck_id cks)) \<and> HashString H d = h"
proof (cases "contiguous 0 (sort_key ck_id cks)")
  case True
  then show ?thesis using AssembleChunks_wf(1) [OF assms, of H h] by auto
next
  case False
  then show ?thesis using AssembleChunks_wf(2) [OF assms, of H h] by auto
qed

lemma assemble_exact_witness:
  "AssembleChunks id_hash (rev (file_chunks id_hash ''f'' 2 ''abc'')) (HashString id_hash ''abc'') = Inr ''abc'' \<longleftrightarrow>
    contiguous 0 (sort_key ck_id (rev (file_chunks id_hash ''f'' 2 ''abc''))) \<and>
    ''abc'' = concat (map ck_data (sort_key ck_id (rev (file_chunks id_hash ''f'' 2 ''abc'')))) \<and>
    HashString id_hash ''abc'' = HashString id_hash ''abc''"
proof (rule assemble_exact)
  have "mset (rev (file_chunks id_hash ''f'' 2 ''abc'')) = mset (file_chunks id_hash ''f'' 2 ''abc'')" by simp
  note facts = sorted_file_chunks_data [OF _ this]
  show "rev (file_chunks id_hash ''f'' 2 ''abc'') \<noteq> []"
    and "list_all ck_wf (rev (file_chunks id_hash ''f'' 2 ''abc''))"
    and "in_int64 (int (length (concat (map ck_data (rev (file_chunks id_hash ''f'' 2 ''abc''))))))"
    using facts by (simp_all add: in_int64_def)
qed

end
