(* ===== verification/FileSystem.thy ===== *)
theory FileSystem
  imports Paths Chunking Operations
begin

text \<open>
  The local file system as the program uses it (\<^verbatim>\<open>internal/filesystem/operations.go\<close>,
  \<^verbatim>\<open>internal/filesystem/xattr.go\<close>, \<open>atomicWriteFile\<close> of the engine) and the generation of file ids
  (\<^verbatim>\<open>internal/hashing/fileid.go\<close>). A file system is a map from clean paths to regular files with an
  optional extended attribute for the file id, and a list of directories. Links, permissions and
  device errors are not modelled. An atomic write is also given step by step, to say what a
  crash between two steps leaves behind.
\<close>

record fnode =
  fn_data :: bytes
  fn_mtime :: time
  fn_mode :: int
  fn_file_id :: "string option"

record fs =
  fs_files :: "(string, fnode) gomap"
  fs_dirs :: "string list"
  fs_xattr :: bool

datatype fs_error = NotExist | IsDirectory | NotDirectory | NotEmpty | NoAttribute

definition ReadFile :: "string \<Rightarrow> fs \<Rightarrow> fs_error + bytes" where
  "ReadFile path s =
     (case map_of (fs_files s) path of
        Some n \<Rightarrow> Inr (fn_data n)
      | None \<Rightarrow> Inl (if path \<in> set (fs_dirs s) then IsDirectory else NotExist))"

definition below :: "string \<Rightarrow> string \<Rightarrow> bool" where
  "below dir p \<longleftrightarrow> take (length dir + 1) p = dir @ [slash]"

definition RemoveFile :: "string \<Rightarrow> fs \<Rightarrow> fs \<times> fs_error option" where
  "RemoveFile path s =
     (if map_of (fs_files s) path \<noteq> None then (s\<lparr>fs_files := gm_del path (fs_files s)\<rparr>, None)
      else if path \<in> set (fs_dirs s) then
        (if list_ex (below path) (map fst (fs_files s) @ fs_dirs s) then (s, Some NotEmpty)
         else (s\<lparr>fs_dirs := filter (\<lambda>d. d \<noteq> path) (fs_dirs s)\<rparr>, None))
      else (s, Some NotExist))"

text \<open>\<open>os.Rename\<close> of a regular file; the target is replaced in one step.\<close>

definition RenameFile :: "string \<Rightarrow> string \<Rightarrow> fs \<Rightarrow> fs \<times> fs_error option" where
  "RenameFile src dst s =
     (case map_of (fs_files s) src of
        None \<Rightarrow> (s, Some NotExist)
      | Some n \<Rightarrow>
          if Dir dst \<notin> set (fs_dirs s) then (s, Some NotExist)
          else if dst \<in> set (fs_dirs s) then (s, Some IsDirectory)
          else (s\<lparr>fs_files := gm_put dst n (gm_del src (fs_files s))\<rparr>, None))"

definition SetFileID :: "string \<Rightarrow> string \<Rightarrow> fs \<Rightarrow> fs" where
  "SetFileID path fileID s =
     (case map_of (fs_files s) path of
        Some n \<Rightarrow> if fs_xattr s then s\<lparr>fs_files := gm_put path (n\<lparr>fn_file_id := Some fileID\<rparr>) (fs_files s)\<rparr> else s
      | None \<Rightarrow> s)"

text \<open>The attribute is read into a buffer of 256 bytes; a longer value is an error.\<close>

definition GetFileID :: "string \<Rightarrow> fs \<Rightarrow> fs_error + string" where
  "GetFileID path s =
     (case map_of (fs_files s) path of
        None \<Rightarrow> Inl NotExist
      | Some n \<Rightarrow>
          (case fn_file_id n of
             Some i \<Rightarrow> if fs_xattr s \<and> length i \<le> 256 then Inr i else Inl NoAttribute
           | None \<Rightarrow> Inl NoAttribute))"

definition GetFileMetadata :: "string \<Rightarrow> fs \<Rightarrow> fs_error + (int64 \<times> int64 \<times> int)" where
  "GetFileMetadata path s =
     (case map_of (fs_files s) path of
        Some n \<Rightarrow> Inr (int (length (fn_data n)), unix_sec (fn_mtime n), fn_mode n)
      | None \<Rightarrow> Inl NotExist)"

definition FileExists :: "string \<Rightarrow> fs \<Rightarrow> bool" where
  "FileExists path s \<longleftrightarrow> map_of (fs_files s) path \<noteq> None \<or> path \<in> set (fs_dirs s)"

definition IsDirectoryPath :: "string \<Rightarrow> fs \<Rightarrow> bool" where
  "IsDirectoryPath path s \<longleftrightarrow> map_of (fs_files s) path = None \<and> path \<in> set (fs_dirs s)"

section \<open>Atomic writes\<close>

text \<open>
  \<open>atomicWriteFile\<close> of the engine. The name \<open>tmp\<close> that \<open>os.CreateTemp\<close> picks in the target's
  directory is an argument; the temporary file has mode 0600, which the target keeps.
\<close>

definition create_temp :: "string \<Rightarrow> time \<Rightarrow> fs \<Rightarrow> fs" where
  "create_temp tmp now s =
     s\<lparr>fs_files := gm_put tmp \<lparr>fn_data = [], fn_mtime = now, fn_mode = 384, fn_file_id = None\<rparr> (fs_files s)\<rparr>"

definition write_temp :: "string \<Rightarrow> bytes \<Rightarrow> fs \<Rightarrow> fs" where
  "write_temp tmp data s =
     (case map_of (fs_files s) tmp of
        None \<Rightarrow> s
      | Some n \<Rightarrow> s\<lparr>fs_files := gm_put tmp (n\<lparr>fn_data := data\<rparr>) (fs_files s)\<rparr>)"

definition atomicWriteFile :: "string \<Rightarrow> string \<Rightarrow> bytes \<Rightarrow> time \<Rightarrow> fs \<Rightarrow> fs \<times> fs_error option" where
  "atomicWriteFile tmp filePath data now s =
     (if Dir filePath \<notin> set (fs_dirs s) then (s, Some NotExist)
      else
        (case RenameFile tmp filePath (write_temp tmp data (create_temp tmp now s)) of
           (s', Some e) \<Rightarrow> (fst (RemoveFile tmp s'), Some e)
         | (s', None) \<Rightarrow> (s', None)))"

text \<open>The states that a crash can leave: before the write, at every byte of it, and after it.\<close>

definition crash_states :: "string \<Rightarrow> string \<Rightarrow> bytes \<Rightarrow> time \<Rightarrow> fs \<Rightarrow> fs list" where
  "crash_states tmp filePath data now s =
     (if Dir filePath \<notin> set (fs_dirs s) then [s]
      else s # map (\<lambda>n. write_temp tmp (take n data) (create_temp tmp now s)) [0..<length data + 1] @
             [fst (RenameFile tmp filePath (write_temp tmp data (create_temp tmp now s))),
              fst (atomicWriteFile tmp filePath data now s)])"

section \<open>File ids\<close>

definition FileIDPrefixSize :: nat where "FileIDPrefixSize = 64 * 1024"

definition id_suffix :: "int \<Rightarrow> time \<Rightarrow> string" where
  "id_suffix sz t = '':'' @ dec_int sz @ '':'' @ dec_int t"

definition id_of_empty :: "int \<Rightarrow> time \<Rightarrow> string \<Rightarrow> string" where
  "id_of_empty sz t peerID = dec_int t @ '':'' @ dec_int sz @ '':'' @ peerID"

text \<open>\<open>UnixNano\<close> is defined for times within the 64-bit range of nanoseconds only, as here.\<close>

definition GenerateFileID :: "(bytes \<Rightarrow> bytes) \<Rightarrow> string \<Rightarrow> string \<Rightarrow> fs \<Rightarrow> fs_error + string" where
  "GenerateFileID H filePath peerID s =
     (case map_of (fs_files s) filePath of
        None \<Rightarrow> Inl (if filePath \<in> set (fs_dirs s) then IsDirectory else NotExist)
      | Some n \<Rightarrow>
          (let sz = int (length (fn_data n))
           in if sz = 0 then Inr (HashString H (id_of_empty sz (wrap64 (fn_mtime n)) peerID))
              else Inr (HashString H (take FileIDPrefixSize (fn_data n) @
                     id_suffix sz (wrap64 (fn_mtime n))))))"

text \<open>
  The variant on a slice: \<open>append\<close> to \<open>data[:readSize]\<close> writes into the caller's array when its
  capacity \<open>c\<close> allows, so the result includes the caller's bytes afterwards.
\<close>

definition GenerateFileIDFromData ::
  "(bytes \<Rightarrow> bytes) \<Rightarrow> bytes \<Rightarrow> nat \<Rightarrow> int64 \<Rightarrow> time \<Rightarrow> string \<Rightarrow> string \<times> bytes" where
  "GenerateFileIDFromData H data c sz t peerID =
     (if sz = 0 then (HashString H (id_of_empty sz (wrap64 t) peerID), data)
      else
        (let readSize = (if length data < FileIDPrefixSize then length data else FileIDPrefixSize);
             pre = take readSize data;
             suf = id_suffix sz (wrap64 t);
             data' = (if readSize + length suf \<le> c then copy_at readSize suf data else data)
         in (HashString H (pre @ suf), data')))"

text \<open>\<open>hex.DecodeString\<close> accepts an even number of hexadecimal digits of either case.\<close>

definition is_hex :: "char \<Rightarrow> bool" where
  "is_hex c \<longleftrightarrow> (let v = byte_val c in 48 \<le> v \<and> v \<le> 57 \<or> 97 \<le> v \<and> v \<le> 102 \<or> 65 \<le> v \<and> v \<le> 70)"

definition ValidateFileID :: "string \<Rightarrow> bool" where
  "ValidateFileID fileID = (if length fileID \<noteq> 64 then False else list_all is_hex fileID)"

section \<open>Lemmas\<close>

lemma ReadFile_put: "ReadFile p (s\<lparr>fs_files := gm_put q n (fs_files s)\<rparr>) = (if p = q then Inr (fn_data n) else ReadFile p s)"
  by (simp add: ReadFile_def)

lemma ReadFile_SetFileID [simp]: "ReadFile p (SetFileID q i s) = ReadFile p s"
  by (auto simp: ReadFile_def SetFileID_def split: option.splits)

lemma fs_dirs_SetFileID [simp]: "fs_dirs (SetFileID q i s) = fs_dirs s"
  by (auto simp: SetFileID_def split: option.splits)

lemma create_write: "write_temp tmp data (create_temp tmp now s) =
    s\<lparr>fs_files := gm_put tmp \<lparr>fn_data = data, fn_mtime = now, fn_mode = 384, fn_file_id = None\<rparr>
      (gm_put tmp \<lparr>fn_data = [], fn_mtime = now, fn_mode = 384, fn_file_id = None\<rparr> (fs_files s))\<rparr>"
  by (simp add: write_temp_def create_temp_def)

lemma atomicWriteFile_ok:
  assumes "Dir p \<in> set (fs_dirs s)" "p \<notin> set (fs_dirs s)"
  shows "\<exists>s'. atomicWriteFile tmp p data now s = (s', None) \<and> fs_dirs s' = fs_dirs s \<and>
    ReadFile p s' = Inr data \<and> (\<forall>q. q \<noteq> p \<and> q \<noteq> tmp \<longrightarrow> ReadFile q s' = ReadFile q s) \<and>
    fs_xattr s' = fs_xattr s \<and>
    map_of (fs_files s') p = Some \<lparr>fn_data = data, fn_mtime = now, fn_mode = 384, fn_file_id = None\<rparr>"
  using assms by (simp add: atomicWriteFile_def RenameFile_def create_write ReadFile_def)

lemma atomicWriteFile_fails:
  "Dir p \<notin> set (fs_dirs s) \<Longrightarrow> atomicWriteFile tmp p data now s = (s, Some NotExist)"
  by (simp add: atomicWriteFile_def)

lemma hex_encode_length: "length (hex_encode bs) = 2 * length bs"
  by (induction bs) (simp_all add: hex_encode_def)

lemma is_hex_digit: "n < 16 \<Longrightarrow> is_hex (hex_digit n)"
  by (auto simp: is_hex_def hex_digit_def Let_def)

lemma hex_encode_hex: "list_all is_hex (hex_encode bs)"
proof -
  have "byte_val b div 16 < 16" for b :: byte
  proof -
    have "byte_val b < 256"
      using mod_less_divisor [of 256 "byte_val b"] by (simp only: of_char_mod_256)
    then show ?thesis by (simp add: less_mult_imp_div_less)
  qed
  then show ?thesis by (induction bs) (simp_all add: hex_encode_def is_hex_digit)
qed

section \<open>Properties\<close>



text \<open>Every generated file id passes the validation, because the digest has 32 bytes.\<close>

theorem generated_id_is_valid:
  assumes "\<And>b. length (H b) = 32"
  shows "case GenerateFileID H path peerID s of Inl e \<Rightarrow> map_of (fs_files s) path = None
    | Inr i \<Rightarrow> ValidateFileID i"
proof -
  have "ValidateFileID (HashString H d)" for d
    by (simp add: ValidateFileID_def HashString_def hex_encode_length hex_encode_hex assms)
  then show ?thesis by (simp add: GenerateFileID_def Let_def split: option.splits)
qed

definition sum_hash :: "bytes \<Rightarrow> bytes" where
  "sum_hash b = replicate 32 (char_of (length b))"

lemma generated_id_is_valid_witness:
  "case GenerateFileID sum_hash ''/f/a'' ''p'' \<lparr>fs_files = [(''/f/a'',
       \<lparr>fn_data = ''xy'', fn_mtime = 5, fn_mode = 420, fn_file_id = None\<rparr>)], fs_dirs = [''/f''], fs_xattr = True\<rparr> of
     Inl e \<Rightarrow> map_of (fs_files \<lparr>fs_files = [(''/f/a'',
       \<lparr>fn_data = ''xy'', fn_mtime = 5, fn_mode = 420, fn_file_id = None\<rparr>)], fs_dirs = [''/f''], fs_xattr = True\<rparr>) ''/f/a'' = None
   | Inr i \<Rightarrow> ValidateFileID i"
  by (rule generated_id_is_valid) (simp add: sum_hash_def)

text \<open>The id made from a file and the id made from its bytes agree; but the second computation
  overwrites the caller's bytes after the first 64 KB whenever the file is longer than that.\<close>

theorem id_from_data_overwrites_caller:
  assumes "map_of (fs_files s) path = Some n" "fn_data n = data" "fn_mtime n = t"
    "FileIDPrefixSize + length (id_suffix (int (length data)) (wrap64 t)) \<le> length data"
    "length data \<le> c"
  shows "GenerateFileID H path peerID s = Inr (fst (GenerateFileIDFromData H data c (int (length data)) t peerID)) \<and>
    snd (GenerateFileIDFromData H data c (int (length data)) t peerID) =
      take FileIDPrefixSize data @ id_suffix (int (length data)) (wrap64 t) @
      drop (FileIDPrefixSize + length (id_suffix (int (length data)) (wrap64 t))) data"
proof -
  have "0 < FileIDPrefixSize" by (simp add: FileIDPrefixSize_def)
  then have "data \<noteq> []" "\<not> length data < FileIDPrefixSize" using assms(4) by auto
  then show ?thesis
    using assms by (simp add: GenerateFileID_def GenerateFileIDFromData_def Let_def copy_at_def)
qed

lemma id_from_data_overwrites_caller_witness:
  "\<exists>data. length data = 65600 \<and>
     snd (GenerateFileIDFromData sum_hash data (length data) (int (length data)) 0 ''p'') \<noteq> data"
proof -
  define data :: bytes where "data = replicate 65600 (CHR ''x'')"
  define s where "s = \<lparr>fs_files = [(''/a'', \<lparr>fn_data = data, fn_mtime = 0, fn_mode = 0, fn_file_id = None\<rparr>)],
    fs_dirs = [], fs_xattr = True\<rparr>"
  have suf: "id_suffix (int (length data)) (wrap64 0) = '':65600:0''"
  proof -
    have "char_of (54 :: nat) = CHR ''6''" "char_of (53 :: nat) = CHR ''5''" "char_of (48 :: nat) = CHR ''0''"
      by code_simp+
    then show ?thesis
      by (simp add: data_def id_suffix_def dec_int_def dec_nat.simps digit_char_def wrap64_def)
  qed
  have "snd (GenerateFileIDFromData sum_hash data (length data) (int (length data)) 0 ''p'') =
      take FileIDPrefixSize data @ '':65600:0'' @ drop (FileIDPrefixSize + 8) data"
    using id_from_data_overwrites_caller [of s "''/a''" _ data 0 "length data" sum_hash "''p''"]
    unfolding suf by (simp add: s_def data_def FileIDPrefixSize_def)
  moreover have "take FileIDPrefixSize data @ '':65600:0'' @ drop (FileIDPrefixSize + 8) data \<noteq> data"
  proof
    assume "take FileIDPrefixSize data @ '':65600:0'' @ drop (FileIDPrefixSize + 8) data = data"
    then have "CHR '':'' \<in> set data" by (metis in_set_conv_decomp append_Cons)
    then show False by (simp add: data_def)
  qed
  ultimately show ?thesis by (intro exI [of _ data]) (simp add: data_def)
qed

end
