(* ===== verification/RenameDetector.thy ===== *)
theory RenameDetector
  imports FileSystem
begin

text \<open>
  Recognising a rename from a deletion followed by a creation,
  \<^verbatim>\<open>internal/filesystem/rename_detector.go\<close>. \<open>CheckRename\<close> gives up its read lock before it takes the
  write lock, so it is two atomic steps, \<open>rename_look\<close> and \<open>rename_forget\<close>, between which other
  calls may run; \<open>CheckRename\<close> itself is the two steps in a row.
\<close>

definition RenameDetectionTTL :: time where "RenameDetectionTTL = 5 * 10 ^ 9"

record deleted_info =
  di_file_id :: string
  di_checksum :: string
  di_size :: int64
  di_mtime :: time
  di_path :: string
  di_deleted_at :: time

type_synonym rename_detector = "(string, deleted_info) gomap"

definition NewRenameDetector :: rename_detector where
  "NewRenameDetector = []"

definition RecordDelete ::
  "time \<Rightarrow> string \<Rightarrow> string \<Rightarrow> string \<Rightarrow> int64 \<Rightarrow> time \<Rightarrow> rename_detector \<Rightarrow> rename_detector" where
  "RecordDelete now fileID checksum path sz mtime rd =
     gm_put fileID \<lparr>di_file_id = fileID, di_checksum = checksum, di_size = sz, di_mtime = mtime,
                    di_path = path, di_deleted_at = now\<rparr> rd"

text \<open>What the read-locked part decides: no entry, or the result and that the entry must go.\<close>

definition rename_look :: "string \<Rightarrow> string \<Rightarrow> int64 \<Rightarrow> rename_detector \<Rightarrow> (bool \<times> string) option" where
  "rename_look fileID checksum sz rd =
     (case map_of rd fileID of
        None \<Rightarrow> None
      | Some d \<Rightarrow> Some (if di_checksum d = checksum \<and> di_size d = sz then (True, di_path d) else (False, '''')))"

definition rename_forget :: "string \<Rightarrow> rename_detector \<Rightarrow> rename_detector" where
  "rename_forget fileID rd = gm_del fileID rd"

definition CheckRename :: "string \<Rightarrow> string \<Rightarrow> int64 \<Rightarrow> rename_detector \<Rightarrow> (bool \<times> string) \<times> rename_detector" where
  "CheckRename fileID checksum sz rd =
     (case rename_look fileID checksum sz rd of
        None \<Rightarrow> ((False, ''''), rd)
      | Some r \<Rightarrow> (r, rename_forget fileID rd))"

text \<open>One tick of the clean-up loop.\<close>

definition cleanup_deletes :: "time \<Rightarrow> rename_detector \<Rightarrow> rename_detector" where
  "cleanup_deletes now rd = gm_drop (\<lambda>d. now - di_deleted_at d > RenameDetectionTTL) rd"

definition CloseDetector :: "rename_detector \<Rightarrow> rename_detector" where
  "CloseDetector rd = []"

definition GetRecentDeletesCount :: "rename_detector \<Rightarrow> int" where
  "GetRecentDeletesCount rd = int (length rd)"

section \<open>Lemmas\<close>

lemma gm_ok_RecordDelete [simp]: "gm_ok rd \<Longrightarrow> gm_ok (RecordDelete now f c p sz mt rd)"
  by (simp add: RecordDelete_def)

lemma gm_ok_CheckRename [simp]: "gm_ok rd \<Longrightarrow> gm_ok (snd (CheckRename f c sz rd))"
  by (simp add: CheckRename_def rename_forget_def split: option.split)

lemma map_of_CheckRename:
  "map_of (snd (CheckRename f c sz rd)) g = (if g = f then None else map_of rd g)"
  by (auto simp: CheckRename_def rename_look_def rename_forget_def split: option.splits)

section \<open>Properties\<close>

text \<open>A creation is a rename of the last recorded deletion of the same file exactly when checksum and
  size agree, whatever happened to other files in between; either way the record is used up, and
  the next creation of the file is new.\<close>

theorem rename_matched_once:
  assumes "f \<notin> fst ` set others"
    and "rd' = foldl (\<lambda>rd (g, c, p, sz, mt, now). snd (CheckRename g c sz (RecordDelete now g c p sz mt rd)))
     (RecordDelete t f c0 p0 sz0 mt0 rd) others"
  shows "fst (CheckRename f c sz rd') = (if c = c0 \<and> sz = sz0 then (True, p0) else (False, '''')) \<and>
    fst (CheckRename f c sz (snd (CheckRename f c sz rd'))) = (False, '''')"
proof -
  have keep: "map_of (foldl (\<lambda>rd (g, c, p, sz, mt, now). snd (CheckRename g c sz (RecordDelete now g c p sz mt rd)))
      rd1 others) f = map_of rd1 f" for rd1
    using assms(1) by (induction others arbitrary: rd1) (auto simp: map_of_CheckRename RecordDelete_def)
  have "map_of rd' f = Some \<lparr>di_file_id = f, di_checksum = c0, di_size = sz0, di_mtime = mt0,
      di_path = p0, di_deleted_at = t\<rparr>"
    unfolding assms(2) keep by (simp add: RecordDelete_def)
  then show ?thesis by (auto simp: CheckRename_def rename_look_def rename_forget_def)
qed

lemma rename_matched_once_witness:
  "fst (CheckRename ''f'' ''c'' 3 (foldl (\<lambda>rd (g, c, p, sz, mt, now).
       snd (CheckRename g c sz (RecordDelete now g c p sz mt rd)))
     (RecordDelete 1 ''f'' ''c'' ''/d/x'' 3 0 NewRenameDetector) [(''g'', ''c'', ''/d/y'', 3, 0, 2)])) = (True, ''/d/x'')"
  by (subst rename_matched_once [OF _ refl, THEN conjunct1]) simp_all

text \<open>The gap between the two locks loses a deletion: one recorded for the same file between the look
  and the removal is removed with the old one, so its later re-creation is not seen as a rename.\<close>

theorem delete_lost_in_lock_gap:
  "map_of rd f = Some d \<Longrightarrow>
   rename_look f (di_checksum d) (di_size d) rd = Some (True, di_path d) \<and>
   fst (CheckRename f c sz (rename_forget f (RecordDelete now f c p sz mt rd))) = (False, '''') \<and>
   fst (CheckRename f c sz (RecordDelete now f c p sz mt (rename_forget f rd))) = (True, p)"
  by (simp add: rename_look_def CheckRename_def rename_forget_def RecordDelete_def)

lemma delete_lost_in_lock_gap_witness:
  "fst (CheckRename ''f'' ''c'' 3 (rename_forget ''f'' (RecordDelete 2 ''f'' ''c'' ''/d/y'' 3 0
      (RecordDelete 1 ''f'' ''b'' ''/d/x'' 2 0 NewRenameDetector)))) = (False, '''')"
proof -
  have "map_of (RecordDelete 1 ''f'' ''b'' ''/d/x'' 2 0 NewRenameDetector) ''f'' =
      Some \<lparr>di_file_id = ''f'', di_checksum = ''b'', di_size = 2, di_mtime = 0, di_path = ''/d/x'', di_deleted_at = 1\<rparr>"
    by (simp add: RecordDelete_def)
  from delete_lost_in_lock_gap [OF this, where c = "''c''" and sz = 3 and now = 2 and p = "''/d/y''" and mt = 0]
  show ?thesis by (elim conjE)
qed

text \<open>A clean-up keeps exactly the deletions of the last five seconds; but a check does not look at
  the age itself, so an expired deletion still counts until the next clean-up.\<close>

theorem cleanup_keeps_recent:
  assumes "gm_ok rd"
  shows "(case map_of (cleanup_deletes now rd) f of
       Some d \<Rightarrow> map_of rd f = Some d \<and> now - di_deleted_at d \<le> RenameDetectionTTL
     | None \<Rightarrow> (case map_of rd f of None \<Rightarrow> True | Some d \<Rightarrow> RenameDetectionTTL < now - di_deleted_at d)) \<and>
    fst (CheckRename f c sz (RecordDelete old f c p sz mt rd)) = (True, p)"
  using assms
  by (auto simp: cleanup_deletes_def map_of_gm_drop CheckRename_def rename_look_def RecordDelete_def
      split: option.splits)

lemma cleanup_keeps_recent_witness:
  "map_of (cleanup_deletes 9000000000 (RecordDelete 1 ''f'' ''c'' ''/d/x'' 3 0 NewRenameDetector)) ''f'' = None"
proof -
  have ok: "gm_ok (RecordDelete 1 ''f'' ''c'' ''/d/x'' 3 0 NewRenameDetector)"
    by (simp add: NewRenameDetector_def)
  have at: "map_of (RecordDelete 1 ''f'' ''c'' ''/d/x'' 3 0 NewRenameDetector) ''f'' = Some d \<Longrightarrow> di_deleted_at d = 1" for d
    by (auto simp: RecordDelete_def)
  note c = cleanup_keeps_recent [OF ok, where now = 9000000000 and f = "''f''"]
  show ?thesis
  proof (cases "map_of (cleanup_deletes 9000000000 (RecordDelete 1 ''f'' ''c'' ''/d/x'' 3 0 NewRenameDetector)) ''f''")
    case (Some d)
    with c have "map_of (RecordDelete 1 ''f'' ''c'' ''/d/x'' 3 0 NewRenameDetector) ''f'' = Some d"
      "9000000000 - di_deleted_at d \<le> RenameDetectionTTL" by simp_all
    then show ?thesis using at by (simp add: RenameDetectionTTL_def)
  qed
qed

end
