(* ===== verification/Database.thy ===== *)
theory Database
  imports Operations "HOL-Library.Product_Lexorder" "HOL-Library.Multiset"
begin

text \<open>
  The SQLite database, \<^verbatim>\<open>internal/database/{db,files,chunks,peers}.go\<close>: the tables of the schema as
  association lists keyed by their primary key, with the constraints the schema declares (unique
  keys, and the foreign key from chunks to files, which the connection string switches on). The
  order of a list stands for the order in which SQLite visits equal rows. Columns hold what the
  statements store: times in whole seconds, the clock as the JSON object of its entries. An I/O
  failure of the database is not modelled; a violated constraint is an error value.
\<close>

section \<open>Rows\<close>

record file_metadata =
  fm_file_id :: string
  fm_path :: string
  fm_checksum :: string
  fm_size :: int64
  fm_mtime :: time
  fm_mode :: "int option"
  fm_peer_id :: string
  fm_vector_clock :: "vclock option"
  fm_compressed :: bool
  fm_original_size :: "int64 option"
  fm_compression_algorithm :: "string option"
  fm_created_at :: time
  fm_updated_at :: time

text \<open>The columns that an upsert replaces, and the two times that the database sets.\<close>

record file_columns =
  fc_path :: string
  fc_checksum :: string
  fc_size :: int64
  fc_mtime :: int64
  fc_mode :: "int option"
  fc_peer_id :: string
  fc_vector_clock :: "vclock option"
  fc_compressed :: int
  fc_original_size :: "int64 option"
  fc_compression_algorithm :: "string option"

record file_row =
  fr_columns :: file_columns
  fr_created :: int64
  fr_updated :: int64

record chunk_info =
  ci_file_id :: string
  ci_chunk_id :: int
  ci_hash :: string
  ci_offset :: int64
  ci_length :: int64
  ci_received :: bool
  ci_received_at :: "time option"

record chunk_columns =
  cc_hash :: string
  cc_offset :: int64
  cc_length :: int64
  cc_received :: int
  cc_received_at :: "int64 option"

record log_row =
  lr_sequence :: int
  lr_operation_id :: string
  lr_timestamp :: int64
  lr_type :: string
  lr_peer_id :: string
  lr_vector_clock :: "vclock option"
  lr_acknowledged :: int
  lr_persisted :: int
  lr_file_id :: "string option"
  lr_path :: string
  lr_from_path :: "string option"
  lr_checksum :: "string option"
  lr_size :: "int64 option"
  lr_mtime :: "int64 option"
  lr_mode :: "int option"
  lr_chunk_count :: int
  lr_data :: bytes
  lr_compressed :: int
  lr_original_size :: "int64 option"
  lr_compression_algorithm :: "string option"

text \<open>The JSON of a peer's capabilities is opaque.\<close>

record peer_info =
  pi_peer_id :: string
  pi_address :: "string option"
  pi_port :: "int option"
  pi_public_key :: "string option"
  pi_certificate :: "string option"
  pi_capabilities :: "string option"
  pi_last_seen :: "time option"
  pi_connection_state :: string
  pi_trust_level :: string
  pi_created_at :: time

record peer_row =
  pr_address :: "string option"
  pr_port :: "int option"
  pr_public_key :: "string option"
  pr_certificate :: "string option"
  pr_capabilities :: string
  pr_last_seen :: "int64 option"
  pr_connection_state :: string
  pr_trust_level :: string
  pr_created :: int64

text \<open>\<open>db_next\<close> is the sequence number that \<open>AUTOINCREMENT\<close> gives out next.\<close>

record database =
  db_files :: "(string, file_row) gomap"
  db_operations :: "log_row list"
  db_next :: int
  db_chunks :: "(string \<times> int, chunk_columns) gomap"
  db_peers :: "(string, peer_row) gomap"

datatype db_error =
    FileNotFound string
  | PeerNotFound string
  | ForeignKeyFailed
  | UniqueFailed string

definition initSchema :: database where
  "initSchema = \<lparr>db_files = [], db_operations = [], db_next = 1, db_chunks = [], db_peers = []\<rparr>"

text \<open>\<open>time.Unix(s, 0)\<close>\<close>

definition from_unix :: "int64 \<Rightarrow> time" where
  "from_unix s = s * 1000000000"

definition sql_bool :: "bool \<Rightarrow> int" where
  "sql_bool b = (if b then 1 else 0)"

definition to_uint32 :: "int64 \<Rightarrow> int" where
  "to_uint32 x = x mod 2 ^ 32"

section \<open>The table of files\<close>

definition file_columns_of :: "file_metadata \<Rightarrow> file_columns" where
  "file_columns_of fm =
     \<lparr>fc_path = fm_path fm, fc_checksum = fm_checksum fm, fc_size = fm_size fm,
      fc_mtime = unix_sec (fm_mtime fm), fc_mode = fm_mode fm, fc_peer_id = fm_peer_id fm,
      fc_vector_clock = fm_vector_clock fm, fc_compressed = sql_bool (fm_compressed fm),
      fc_original_size = fm_original_size fm,
      fc_compression_algorithm = fm_compression_algorithm fm\<rparr>"

text \<open>\<open>INSERT ... ON CONFLICT(file_id) DO UPDATE\<close>: an existing row keeps its creation time.\<close>

definition upsert_file ::
  "time \<Rightarrow> string \<Rightarrow> file_columns \<Rightarrow> (string, file_row) gomap \<Rightarrow> (string, file_row) gomap" where
  "upsert_file now fileID cols files =
     gm_put fileID
       \<lparr>fr_columns = cols,
        fr_created = (case map_of files fileID of None \<Rightarrow> unix_sec now | Some r \<Rightarrow> fr_created r),
        fr_updated = unix_sec now\<rparr> files"

definition InsertFile :: "time \<Rightarrow> file_metadata \<Rightarrow> database \<Rightarrow> database" where
  "InsertFile now fm db =
     db\<lparr>db_files := upsert_file now (fm_file_id fm) (file_columns_of fm) (db_files db)\<rparr>"

definition scan_file :: "string \<Rightarrow> file_row \<Rightarrow> file_metadata" where
  "scan_file fileID r =
     (let c = fr_columns r
      in \<lparr>fm_file_id = fileID, fm_path = fc_path c, fm_checksum = fc_checksum c,
          fm_size = fc_size c, fm_mtime = from_unix (fc_mtime c),
          fm_mode = map_option to_uint32 (fc_mode c), fm_peer_id = fc_peer_id c,
          fm_vector_clock = fc_vector_clock c, fm_compressed = (fc_compressed c \<noteq> 0),
          fm_original_size = fc_original_size c,
          fm_compression_algorithm = fc_compression_algorithm c,
          fm_created_at = from_unix (fr_created r), fm_updated_at = from_unix (fr_updated r)\<rparr>)"

definition GetFile :: "string \<Rightarrow> database \<Rightarrow> db_error + file_metadata" where
  "GetFile fileID db =
     (case map_of (db_files db) fileID of
        None \<Rightarrow> Inl (FileNotFound fileID)
      | Some r \<Rightarrow> Inr (scan_file fileID r))"

text \<open>\<open>ORDER BY updated_at DESC LIMIT 1\<close>\<close>

definition newest_first :: "(string \<times> file_row) list \<Rightarrow> (string \<times> file_row) list" where
  "newest_first rows = sort_key (\<lambda>(_, r). - fr_updated r) rows"

definition GetFileByPath :: "string \<Rightarrow> database \<Rightarrow> db_error + file_metadata" where
  "GetFileByPath path db =
     (case newest_first (filter (\<lambda>(_, r). fc_path (fr_columns r) = path) (db_files db)) of
        [] \<Rightarrow> Inl (FileNotFound path)
      | (fileID, r) # _ \<Rightarrow> Inr (scan_file fileID r))"

definition GetFileByID :: "string \<Rightarrow> database \<Rightarrow> db_error + file_metadata" where
  "GetFileByID fileID db =
     (case newest_first (filter (\<lambda>(i, _). i = fileID) (db_files db)) of
        [] \<Rightarrow> Inl (FileNotFound fileID)
      | (i, r) # _ \<Rightarrow> Inr (scan_file i r))"

text \<open>A file row that chunk rows refer to cannot be deleted.\<close>

definition DeleteFile :: "string \<Rightarrow> database \<Rightarrow> database \<times> db_error option" where
  "DeleteFile fileID db =
     (if map_of (db_files db) fileID \<noteq> None \<and> list_ex (\<lambda>((f, _), _). f = fileID) (db_chunks db)
      then (db, Some ForeignKeyFailed)
      else (db\<lparr>db_files := gm_del fileID (db_files db)\<rparr>, None))"

definition GetAllFiles :: "database \<Rightarrow> file_metadata list" where
  "GetAllFiles db =
     map (\<lambda>(i, r). scan_file i r) (sort_key (\<lambda>(_, r). fc_path (fr_columns r)) (db_files db))"

section \<open>The table of chunks\<close>

definition chunk_columns_of :: "chunk_info \<Rightarrow> chunk_columns" where
  "chunk_columns_of ci =
     \<lparr>cc_hash = ci_hash ci, cc_offset = ci_offset ci, cc_length = ci_length ci,
      cc_received = sql_bool (ci_received ci), cc_received_at = map_option unix_sec (ci_received_at ci)\<rparr>"

definition InsertOrUpdateChunk :: "chunk_info \<Rightarrow> database \<Rightarrow> database \<times> db_error option" where
  "InsertOrUpdateChunk ci db =
     (if map_of (db_files db) (ci_file_id ci) = None then (db, Some ForeignKeyFailed)
      else (db\<lparr>db_chunks := gm_put (ci_file_id ci, ci_chunk_id ci) (chunk_columns_of ci) (db_chunks db)\<rparr>,
            None))"

definition scan_chunk :: "string \<times> int \<Rightarrow> chunk_columns \<Rightarrow> chunk_info" where
  "scan_chunk key c =
     \<lparr>ci_file_id = fst key, ci_chunk_id = snd key, ci_hash = cc_hash c, ci_offset = cc_offset c,
      ci_length = cc_length c, ci_received = (cc_received c \<noteq> 0),
      ci_received_at = map_option from_unix (cc_received_at c)\<rparr>"

definition GetChunksForFile :: "string \<Rightarrow> database \<Rightarrow> chunk_info list" where
  "GetChunksForFile fileID db =
     map (\<lambda>(k, c). scan_chunk k c)
       (sort_key (\<lambda>((_, i), _). i) (filter (\<lambda>((f, _), _). f = fileID) (db_chunks db)))"

definition GetMissingChunkRows :: "string \<Rightarrow> database \<Rightarrow> chunk_info list" where
  "GetMissingChunkRows fileID db =
     map (\<lambda>(k, c). (scan_chunk k c)\<lparr>ci_received := False\<rparr>)
       (sort_key (\<lambda>((_, i), _). i)
         (filter (\<lambda>((f, _), c). f = fileID \<and> cc_received c = 0) (db_chunks db)))"

definition MarkChunkReceived :: "time \<Rightarrow> string \<Rightarrow> int \<Rightarrow> database \<Rightarrow> database" where
  "MarkChunkReceived now fileID chunkID db =
     db\<lparr>db_chunks := map (\<lambda>(k, c). (k, if k = (fileID, chunkID)
        then c\<lparr>cc_received := 1, cc_received_at := Some (unix_sec now)\<rparr> else c)) (db_chunks db)\<rparr>"

definition DeleteChunksForFile :: "string \<Rightarrow> database \<Rightarrow> database" where
  "DeleteChunksForFile fileID db =
     db\<lparr>db_chunks := filter (\<lambda>((f, _), _). f \<noteq> fileID) (db_chunks db)\<rparr>"

section \<open>The table of peers\<close>

definition InsertOrUpdatePeer :: "time \<Rightarrow> peer_info \<Rightarrow> database \<Rightarrow> database" where
  "InsertOrUpdatePeer now p db =
     db\<lparr>db_peers := gm_put (pi_peer_id p)
       \<lparr>pr_address = pi_address p, pr_port = pi_port p, pr_public_key = pi_public_key p,
        pr_certificate = pi_certificate p,
        pr_capabilities = (case pi_capabilities p of None \<Rightarrow> ''{}'' | Some j \<Rightarrow> j),
        pr_last_seen = map_option unix_sec (pi_last_seen p),
        pr_connection_state = pi_connection_state p, pr_trust_level = pi_trust_level p,
        pr_created = (case map_of (db_peers db) (pi_peer_id p) of
                        None \<Rightarrow> unix_sec now | Some r \<Rightarrow> pr_created r)\<rparr> (db_peers db)\<rparr>"

definition scan_peer :: "string \<Rightarrow> peer_row \<Rightarrow> peer_info" where
  "scan_peer peerID r =
     \<lparr>pi_peer_id = peerID, pi_address = pr_address r, pi_port = pr_port r,
      pi_public_key = pr_public_key r, pi_certificate = pr_certificate r,
      pi_capabilities = Some (pr_capabilities r), pi_last_seen = map_option from_unix (pr_last_seen r),
      pi_connection_state = pr_connection_state r, pi_trust_level = pr_trust_level r,
      pi_created_at = from_unix (pr_created r)\<rparr>"

definition GetPeer :: "string \<Rightarrow> database \<Rightarrow> db_error + peer_info" where
  "GetPeer peerID db =
     (case map_of (db_peers db) peerID of
        None \<Rightarrow> Inl (PeerNotFound peerID)
      | Some r \<Rightarrow> Inr (scan_peer peerID r))"

text \<open>\<open>ORDER BY last_seen DESC\<close>: SQLite takes NULL for the smallest value.\<close>

definition GetAllPeers :: "database \<Rightarrow> peer_info list" where
  "GetAllPeers db =
     map (\<lambda>(p, r). scan_peer p r)
       (sort_key (\<lambda>(_, r). case pr_last_seen r of None \<Rightarrow> (1 :: int, 0) | Some t \<Rightarrow> (0, - t))
         (db_peers db))"

definition UpdatePeerLastSeen :: "time \<Rightarrow> string \<Rightarrow> database \<Rightarrow> database" where
  "UpdatePeerLastSeen now peerID db =
     db\<lparr>db_peers := map (\<lambda>(p, r). (p, if p = peerID then r\<lparr>pr_last_seen := Some (unix_sec now)\<rparr> else r))
       (db_peers db)\<rparr>"

definition UpdatePeerConnectionState :: "string \<Rightarrow> string \<Rightarrow> database \<Rightarrow> database" where
  "UpdatePeerConnectionState peerID st db =
     db\<lparr>db_peers := map (\<lambda>(p, r). (p, if p = peerID then r\<lparr>pr_connection_state := st\<rparr> else r))
       (db_peers db)\<rparr>"

section \<open>The keyed tables\<close>

text \<open>
  The columns of a file, read and written under its id, are a keyed store, and so are the columns
  of a chunk of an existing file.
\<close>

definition file_lookup :: "database \<Rightarrow> string \<Rightarrow> file_columns option" where
  "file_lookup db f = map_option fr_columns (map_of (db_files db) f)"

definition write_file :: "time \<Rightarrow> string \<Rightarrow> file_columns \<Rightarrow> database \<Rightarrow> database" where
  "write_file now f cols db = db\<lparr>db_files := upsert_file now f cols (db_files db)\<rparr>"

lemma InsertFile_write: "InsertFile now fm db = write_file now (fm_file_id fm) (file_columns_of fm) db"
  by (simp add: InsertFile_def write_file_def)

interpretation files: keyed_store file_lookup "\<lambda>db. gm_ok (db_files db) \<and> db_chunks db = []"
    "write_file now" "\<lambda>f db. fst (DeleteFile f db)" for now
  by unfold_locales (auto simp: file_lookup_def write_file_def upsert_file_def DeleteFile_def)

text \<open>A batch of writes leaves every file with the columns written last.\<close>

lemma files_last_write:
  "gm_ok (db_files db) \<Longrightarrow> db_chunks db = [] \<Longrightarrow>
   file_lookup (fold (\<lambda>(f, cols). write_file now f cols) ws db) f =
     (case map_of (rev ws) f of None \<Rightarrow> file_lookup db f | Some cols \<Rightarrow> Some cols)"
  by (rule files.lookup_fold_put) simp

lemma filter_key_map_of:
  "gm_ok m \<Longrightarrow> filter (\<lambda>(k', _). k' = k) m = (case map_of m k of None \<Rightarrow> [] | Some v \<Rightarrow> [(k, v)])"
proof (induction m)
  case (Cons a m)
  then show ?case by (cases a) (auto split: option.splits)
qed simp

lemma GetFileByID_eq: "gm_ok (db_files db) \<Longrightarrow> GetFileByID f db = GetFile f db"
  by (simp add: GetFileByID_def GetFile_def newest_first_def filter_key_map_of
      split: option.split)

lemma hd_sort_key_min: "x \<in> set xs \<Longrightarrow> f (hd (sort_key f xs)) \<le> f x"
proof -
  assume x: "x \<in> set xs"
  have "sorted (map f (sort_key f xs))" by simp
  moreover have "x \<in> set (sort_key f xs)" using x by simp
  ultimately show ?thesis by (cases "sort_key f xs") auto
qed

lemma hd_sort_key_mem: "xs \<noteq> [] \<Longrightarrow> hd (sort_key f xs) \<in> set xs"
  by (metis hd_in_set set_sort sort_key_Nil_iff)

section \<open>Properties\<close>

text \<open>What is read under an id after an insert: the inserted metadata with its modification time
  cut to whole seconds, the creation time of the first insert under that id and the current time
  as the update time; every other id reads as before.\<close>

theorem file_roundtrip:
  "GetFile f (InsertFile now fm db) =
    (if f = fm_file_id fm then
       Inr (fm\<lparr>fm_mtime := from_unix (unix_sec (fm_mtime fm)),
              fm_mode := map_option to_uint32 (fm_mode fm),
              fm_created_at := (case GetFile f db of Inl _ \<Rightarrow> from_unix (unix_sec now)
                                | Inr old \<Rightarrow> fm_created_at old),
              fm_updated_at := from_unix (unix_sec now)\<rparr>)
     else GetFile f db)"
  by (auto simp: GetFile_def InsertFile_def upsert_file_def scan_file_def file_columns_of_def
      sql_bool_def Let_def split: option.splits)

text \<open>A file looked up by path is one stored under that path, and none stored under it was updated
  later; the look-up fails exactly when no file has the path.\<close>

theorem path_lookup_newest:
  "case GetFileByPath p db of
     Inl e \<Rightarrow> e = FileNotFound p \<and> p \<notin> (\<lambda>(_, r). fc_path (fr_columns r)) ` set (db_files db)
   | Inr fm \<Rightarrow> fm_path fm = p \<and> fm \<in> set (GetAllFiles db) \<and>
       filter (\<lambda>fm'. fm_path fm' = p \<and> fm_updated_at fm < fm_updated_at fm') (GetAllFiles db) = []"
proof -
  let ?rows = "filter (\<lambda>(_, r). fc_path (fr_columns r) = p) (db_files db)"
  let ?key = "\<lambda>(_ :: string, r). - fr_updated r"
  have all: "set (GetAllFiles db) = (\<lambda>(i, r). scan_file i r) ` set (db_files db)"
    by (simp add: GetAllFiles_def)
  show ?thesis
  proof (cases "newest_first ?rows")
    case Nil
    then have "?rows = []" by (simp add: newest_first_def)
    then show ?thesis using Nil by (auto simp: GetFileByPath_def filter_empty_conv)
  next
    case (Cons x xs)
    obtain i r where x: "x = (i, r)" by (cases x)
    have ne: "?rows \<noteq> []" using Cons by (auto simp: newest_first_def)
    have hd: "hd (sort_key ?key ?rows) = (i, r)" using Cons x by (simp add: newest_first_def)
    have mem: "(i, r) \<in> set (db_files db)" "fc_path (fr_columns r) = p"
      using hd_sort_key_mem [OF ne, of ?key] unfolding hd by auto
    have le: "fr_updated r' \<le> fr_updated r" if "(i', r') \<in> set ?rows" for i' r'
      using hd_sort_key_min [OF that, of ?key] unfolding hd by simp
    have "filter (\<lambda>fm'. fm_path fm' = p \<and> fm_updated_at (scan_file i r) < fm_updated_at fm') (GetAllFiles db) = []"
      unfolding filter_empty_conv all using le
      by (fastforce simp: scan_file_def from_unix_def Let_def)
    moreover have "fm_path (scan_file i r) = p" using mem(2) by (simp add: scan_file_def Let_def)
    moreover have "scan_file i r \<in> set (GetAllFiles db)" unfolding all using mem(1) by force
    ultimately show ?thesis using Cons x by (simp add: GetFileByPath_def)
  qed
qed

text \<open>The listing of all files has exactly one entry per stored file, in the order of the paths.\<close>

theorem all_files_listed:
  "sorted (map fm_path (GetAllFiles db)) \<and>
   mset (map fm_file_id (GetAllFiles db)) = mset (map fst (db_files db))"
proof -
  have "map fm_path (GetAllFiles db) =
      map (\<lambda>(_, r). fc_path (fr_columns r)) (sort_key (\<lambda>(_, r). fc_path (fr_columns r)) (db_files db))"
    by (simp add: GetAllFiles_def scan_file_def Let_def comp_def case_prod_unfold)
  moreover have "map fm_file_id (GetAllFiles db) =
      map fst (sort_key (\<lambda>(_, r). fc_path (fr_columns r)) (db_files db))"
    by (simp add: GetAllFiles_def scan_file_def Let_def comp_def case_prod_unfold)
  ultimately show ?thesis by (simp add: mset_map)
qed

text \<open>The peer table keeps the first contact: an insert followed by a look-up returns the new data
  with the old creation time, and marking a peer as seen or changing its state touches that peer's
  column only.\<close>

theorem peer_roundtrip:
  "GetPeer p (InsertOrUpdatePeer now pi db) =
     (if p = pi_peer_id pi then
        Inr (pi\<lparr>pi_capabilities := Some (case pi_capabilities pi of None \<Rightarrow> ''{}'' | Some j \<Rightarrow> j),
               pi_last_seen := map_option (\<lambda>t. from_unix (unix_sec t)) (pi_last_seen pi),
               pi_created_at := (case GetPeer p db of Inl _ \<Rightarrow> from_unix (unix_sec now)
                                 | Inr old \<Rightarrow> pi_created_at old)\<rparr>)
      else GetPeer p db) \<and>
   GetPeer p (UpdatePeerLastSeen now q db) =
     map_sum id (\<lambda>old. if p = q then old\<lparr>pi_last_seen := Some (from_unix (unix_sec now))\<rparr> else old) (GetPeer p db) \<and>
   GetPeer p (UpdatePeerConnectionState q st db) =
     map_sum id (\<lambda>old. if p = q then old\<lparr>pi_connection_state := st\<rparr> else old) (GetPeer p db)"
proof -
  have upd: "map_of (map (\<lambda>(k, r). (k, if k = q then g r else r)) m) p =
      map_option (\<lambda>r. if p = q then g r else r) (map_of m p)" for g and m :: "(string, peer_row) gomap"
    by (induction m) auto
  show ?thesis
    by (auto simp: GetPeer_def InsertOrUpdatePeer_def UpdatePeerLastSeen_def UpdatePeerConnectionState_def
        scan_peer_def upd option.map_comp comp_def split: option.splits)
qed

text \<open>Resuming a transfer: after a chunk is marked received the query for missing chunks returns the
  same rows as before without that chunk.\<close>

theorem mark_received_removes_missing:
  "GetMissingChunkRows f (MarkChunkReceived now f i db) =
     filter (\<lambda>ci. ci_chunk_id ci \<noteq> i) (GetMissingChunkRows f db)"
proof -
  have "filter (\<lambda>((f', _), c). f' = f \<and> cc_received c = 0) (db_chunks (MarkChunkReceived now f i db)) =
      filter (\<lambda>((_, i'), _). i' \<noteq> i) (filter (\<lambda>((f', _), c). f' = f \<and> cc_received c = 0) (db_chunks db))"
  proof -
    have "filter (\<lambda>((f', _), c). f' = f \<and> cc_received c = 0) (map (\<lambda>(k, c). (k, if k = (f, i)
          then c\<lparr>cc_received := 1, cc_received_at := Some (unix_sec now)\<rparr> else c)) m) =
        filter (\<lambda>((_, i'), _). i' \<noteq> i) (filter (\<lambda>((f', _), c). f' = f \<and> cc_received c = 0) m)" for m
      by (induction m) auto
    then show ?thesis by (simp add: MarkChunkReceived_def)
  qed
  then show ?thesis
    by (simp add: GetMissingChunkRows_def filter_map comp_def case_prod_unfold scan_chunk_def filter_sort)
qed

end
