(* ===== verification/OperationLog.thy ===== *)
theory OperationLog
  imports Database
begin

text \<open>
  The operation log, \<^verbatim>\<open>internal/database/operations.go\<close>: appending with unique operation ids, the
  acknowledgement and persistence marks, the queries in sequence order and the compaction. The step
  relation at the end collects every operation of the database, and its invariant gives unique keys,
  increasing sequence numbers and referential integrity in every reachable database.
\<close>

record log_entry =
  le_sequence :: int
  le_operation_id :: string
  le_timestamp :: time
  le_type :: string
  le_peer_id :: string
  le_vector_clock :: "vclock option"
  le_acknowledged :: bool
  le_persisted :: bool
  le_file_id :: "string option"
  le_path :: string
  le_from_path :: "string option"
  le_checksum :: "string option"
  le_size :: "int64 option"
  le_mtime :: "time option"
  le_mode :: "int option"
  le_chunk_count :: int
  le_data :: bytes
  le_compressed :: bool
  le_original_size :: "int64 option"
  le_compression_algorithm :: "string option"

definition log_row_of :: "int \<Rightarrow> log_entry \<Rightarrow> log_row" where
  "log_row_of seq e =
     \<lparr>lr_sequence = seq, lr_operation_id = le_operation_id e, lr_timestamp = unix_sec (le_timestamp e),
      lr_type = le_type e, lr_peer_id = le_peer_id e, lr_vector_clock = le_vector_clock e,
      lr_acknowledged = sql_bool (le_acknowledged e), lr_persisted = sql_bool (le_persisted e),
      lr_file_id = le_file_id e, lr_path = le_path e, lr_from_path = le_from_path e,
      lr_checksum = le_checksum e, lr_size = le_size e, lr_mtime = map_option unix_sec (le_mtime e),
      lr_mode = le_mode e, lr_chunk_count = le_chunk_count e, lr_data = le_data e,
      lr_compressed = sql_bool (le_compressed e), lr_original_size = le_original_size e,
      lr_compression_algorithm = le_compression_algorithm e\<rparr>"

text \<open>A rejected insert leaves the table and its sequence counter as they are.\<close>

definition AppendOperation :: "log_entry \<Rightarrow> database \<Rightarrow> database \<times> db_error option" where
  "AppendOperation e db =
     (if list_ex (\<lambda>r. lr_operation_id r = le_operation_id e) (db_operations db)
      then (db, Some (UniqueFailed (le_operation_id e)))
      else (db\<lparr>db_operations := db_operations db @ [log_row_of (db_next db) e],
               db_next := db_next db + 1\<rparr>, None))"

definition MarkOperationAcknowledged :: "string \<Rightarrow> database \<Rightarrow> database" where
  "MarkOperationAcknowledged opID db =
     db\<lparr>db_operations := map (\<lambda>r. if lr_operation_id r = opID then r\<lparr>lr_acknowledged := 1\<rparr> else r)
       (db_operations db)\<rparr>"

definition MarkOperationPersisted :: "string \<Rightarrow> database \<Rightarrow> database" where
  "MarkOperationPersisted opID db =
     db\<lparr>db_operations := map (\<lambda>r. if lr_operation_id r = opID then r\<lparr>lr_persisted := 1\<rparr> else r)
       (db_operations db)\<rparr>"

text \<open>
  The size column is scanned as a \<open>float64\<close>: an integer rounds to the nearest multiple of a power of
  two that leaves 53 significant bits, a tie to the even one.
\<close>

fun bit_excess :: "nat \<Rightarrow> nat" where
  "bit_excess m = (if m < 2 ^ 53 then 0 else Suc (bit_excess (m div 2)))"

declare bit_excess.simps [simp del]

definition round_half_even :: "nat \<Rightarrow> nat \<Rightarrow> nat" where
  "round_half_even m e =
     (let q = m div 2 ^ e; r = m mod 2 ^ e; h = 2 ^ (e - 1)
      in if r > h \<or> r = h \<and> odd q then (q + 1) * 2 ^ e else q * 2 ^ e)"

definition to_float64 :: "int \<Rightarrow> int" where
  "to_float64 x = sgn x * int (let m = nat \<bar>x\<bar> in if m < 2 ^ 53 then m else round_half_even m (bit_excess m))"

definition scan_log_entry :: "log_row \<Rightarrow> log_entry" where
  "scan_log_entry r =
     \<lparr>le_sequence = lr_sequence r, le_operation_id = lr_operation_id r,
      le_timestamp = from_unix (lr_timestamp r), le_type = lr_type r, le_peer_id = lr_peer_id r,
      le_vector_clock = lr_vector_clock r, le_acknowledged = (lr_acknowledged r \<noteq> 0),
      le_persisted = (lr_persisted r \<noteq> 0), le_file_id = lr_file_id r, le_path = lr_path r,
      le_from_path = lr_from_path r, le_checksum = lr_checksum r,
      le_size = map_option (\<lambda>s. wrap64 (to_float64 s)) (lr_size r),
      le_mtime = map_option from_unix (lr_mtime r), le_mode = map_option to_uint32 (lr_mode r),
      le_chunk_count = lr_chunk_count r, le_data = lr_data r, le_compressed = (lr_compressed r \<noteq> 0),
      le_original_size = lr_original_size r, le_compression_algorithm = lr_compression_algorithm r\<rparr>"

definition in_sequence :: "log_row list \<Rightarrow> log_row list" where
  "in_sequence rows = sort_key lr_sequence rows"

definition GetUnacknowledgedOperations :: "database \<Rightarrow> log_entry list" where
  "GetUnacknowledgedOperations db =
     map scan_log_entry (in_sequence (filter (\<lambda>r. lr_acknowledged r = 0) (db_operations db)))"

definition GetOperationsByFileID :: "string \<Rightarrow> database \<Rightarrow> log_entry list" where
  "GetOperationsByFileID fileID db =
     map scan_log_entry (in_sequence (filter (\<lambda>r. lr_file_id r = Some fileID) (db_operations db)))"

definition GetAllOperations :: "database \<Rightarrow> log_entry list" where
  "GetAllOperations db = map scan_log_entry (in_sequence (db_operations db))"

definition CompactLog :: "int \<Rightarrow> database \<Rightarrow> database" where
  "CompactLog maxEntries db =
     (let count = int (length (db_operations db))
      in if count \<le> maxEntries then db
         else
           (let toDelete = count - maxEntries;
                old = map lr_sequence (take (nat toDelete)
                  (in_sequence (filter (\<lambda>r. lr_acknowledged r = 1) (db_operations db))))
            in db\<lparr>db_operations := filter (\<lambda>r. lr_sequence r \<notin> set old) (db_operations db)\<rparr>))"

section \<open>Reachable databases\<close>

inductive db_step :: "database \<Rightarrow> database \<Rightarrow> bool" where
  insert_file: "db_step db (InsertFile now fm db)"
| delete_file: "db_step db (fst (DeleteFile f db))"
| insert_chunk: "db_step db (fst (InsertOrUpdateChunk ci db))"
| mark_chunk: "db_step db (MarkChunkReceived now f i db)"
| delete_chunks: "db_step db (DeleteChunksForFile f db)"
| append: "db_step db (fst (AppendOperation e db))"
| acknowledge: "db_step db (MarkOperationAcknowledged opID db)"
| persist: "db_step db (MarkOperationPersisted opID db)"
| compact: "db_step db (CompactLog n db)"
| insert_peer: "db_step db (InsertOrUpdatePeer now p db)"
| peer_seen: "db_step db (UpdatePeerLastSeen now pid db)"
| peer_state: "db_step db (UpdatePeerConnectionState pid st db)"

definition db_reachable :: "database \<Rightarrow> bool" where
  "db_reachable db \<longleftrightarrow> db_step\<^sup>*\<^sup>* initSchema db"

text \<open>Unique keys, the foreign key, and sequence numbers that increase along the log.\<close>

definition log_ok :: "log_row list \<Rightarrow> int \<Rightarrow> bool" where
  "log_ok rows next_seq \<longleftrightarrow>
     sorted_wrt (<) (map lr_sequence rows) \<and> distinct (map lr_operation_id rows) \<and>
     (\<forall>r \<in> set rows. lr_sequence r < next_seq \<and> lr_acknowledged r \<in> {0, 1})"

definition db_inv :: "database \<Rightarrow> bool" where
  "db_inv db \<longleftrightarrow>
     gm_ok (db_files db) \<and> gm_ok (db_chunks db) \<and> gm_ok (db_peers db) \<and>
     fst ` fst ` set (db_chunks db) \<subseteq> fst ` set (db_files db) \<and>
     log_ok (db_operations db) (db_next db)"

lemma gm_ok_map_values: "gm_ok (map (\<lambda>(k, v). (k, f k v)) m) \<longleftrightarrow> gm_ok m"
  by (simp add: gm_ok_def comp_def case_prod_unfold)

lemma gm_ok_filter: "gm_ok m \<Longrightarrow> gm_ok (filter P m)"
  by (simp add: gm_ok_def distinct_map_filter)

lemma has_chunks_iff:
  "list_ex (\<lambda>((f', _), _). f' = f) chunks \<longleftrightarrow> f \<in> fst ` fst ` set chunks"
  by (induction chunks) auto

lemma log_ok_filter: "log_ok rows n \<Longrightarrow> log_ok (filter P rows) n"
  by (auto simp: log_ok_def sorted_wrt_map sorted_wrt_filter distinct_map_filter)

lemma log_ok_map:
  "log_ok rows n \<Longrightarrow> (\<And>r. lr_sequence (g r) = lr_sequence r) \<Longrightarrow>
   (\<And>r. lr_operation_id (g r) = lr_operation_id r) \<Longrightarrow>
   (\<And>r. lr_acknowledged r \<in> {0, 1} \<Longrightarrow> lr_acknowledged (g r) \<in> {0, 1}) \<Longrightarrow> log_ok (map g rows) n"
  by (auto simp: log_ok_def sorted_wrt_map comp_def)

lemma log_ok_append:
  "log_ok rows n \<Longrightarrow> \<not> list_ex (\<lambda>r. lr_operation_id r = le_operation_id e) rows \<Longrightarrow>
   log_ok (rows @ [log_row_of n e]) (n + 1)"
  by (force simp: log_ok_def sorted_wrt_append log_row_of_def list_ex_iff sql_bool_def)

lemma db_inv_init: "db_inv initSchema"
  by (simp add: db_inv_def initSchema_def log_ok_def)

lemma db_inv_step: "db_step db db' \<Longrightarrow> db_inv db \<Longrightarrow> db_inv db'"
proof (induction rule: db_step.induct)
  case (insert_file db now fm)
  then show ?case by (auto simp: db_inv_def InsertFile_def upsert_file_def set_gm_put_keys)
next
  case (delete_file db f)
  have "map_of (db_files db) f = None \<longleftrightarrow> f \<notin> fst ` set (db_files db)"
    by (rule map_of_eq_None_iff)
  then show ?case
    using delete_file unfolding DeleteFile_def has_chunks_iff
    by (simp add: db_inv_def set_gm_del_keys) blast
next
  case (insert_chunk db ci)
  then show ?case
    by (auto simp: db_inv_def InsertOrUpdateChunk_def set_gm_put_keys image_iff
        dest!: map_of_SomeD) force+
next
  case (mark_chunk db now f i)
  then show ?case
    by (simp add: db_inv_def MarkChunkReceived_def image_image case_prod_unfold gm_ok_def comp_def)
next
  case (delete_chunks db f)
  then show ?case by (auto simp: db_inv_def DeleteChunksForFile_def gm_ok_filter)
next
  case (append db e)
  then show ?case by (auto simp: db_inv_def AppendOperation_def log_ok_append)
next
  case (acknowledge db opID)
  then show ?case
    by (auto simp: db_inv_def MarkOperationAcknowledged_def intro!: log_ok_map split: if_splits)
next
  case (persist db opID)
  then show ?case
    by (auto simp: db_inv_def MarkOperationPersisted_def intro!: log_ok_map split: if_splits)
next
  case (compact db n)
  then show ?case by (simp add: db_inv_def CompactLog_def Let_def log_ok_filter)
next
  case (insert_peer db now p)
  then show ?case by (simp add: db_inv_def InsertOrUpdatePeer_def)
next
  case (peer_seen db now pid)
  then show ?case by (simp add: db_inv_def UpdatePeerLastSeen_def gm_ok_map_values)
next
  case (peer_state db pid st)
  then show ?case by (simp add: db_inv_def UpdatePeerConnectionState_def gm_ok_map_values)
qed

lemma db_reachable_init: "db_reachable initSchema"
  by (simp add: db_reachable_def)

lemma db_reachable_step: "db_reachable db \<Longrightarrow> db_step db db' \<Longrightarrow> db_reachable db'"
  unfolding db_reachable_def by (rule rtranclp.rtrancl_into_rtrancl)

lemma db_reachable_inv: "db_reachable db \<Longrightarrow> db_inv db"
  unfolding db_reachable_def by (induction rule: rtranclp_induct) (auto simp: db_inv_init intro: db_inv_step)

section \<open>Lemmas\<close>

lemma op_id_used: "list_ex (\<lambda>r. lr_operation_id r = k) rows \<longleftrightarrow> k \<in> lr_operation_id ` set rows"
  by (induction rows) auto

lemma log_ok_sorted: "log_ok rows n \<Longrightarrow> in_sequence (filter P rows) = filter P rows"
  unfolding in_sequence_def
  by (rule sort_key_id_if_sorted)
     (metis log_ok_def log_ok_filter strict_sorted_imp_sorted)

lemma unacknowledged_rows:
  "log_ok (db_operations db) n \<Longrightarrow>
   GetUnacknowledgedOperations db = map scan_log_entry (filter (\<lambda>r. lr_acknowledged r = 0) (db_operations db))"
  by (simp add: GetUnacknowledgedOperations_def log_ok_sorted)

lemma log_ok_inj: "log_ok rows n \<Longrightarrow> inj_on lr_sequence (set rows) \<and> distinct rows"
proof -
  assume "log_ok rows n"
  then have "distinct (map lr_sequence rows)"
    unfolding log_ok_def using strict_sorted_iff by blast
  then show ?thesis by (auto simp: distinct_map)
qed

text \<open>What a compaction that has something to do removes: the oldest acknowledged rows.\<close>

definition compacted :: "int \<Rightarrow> log_row list \<Rightarrow> log_row list" where
  "compacted n rows = take (nat (int (length rows) - n)) (filter (\<lambda>r. lr_acknowledged r = 1) rows)"

lemma CompactLog_rows:
  assumes "log_ok (db_operations db) m" "n < int (length (db_operations db))"
  shows "db_operations (CompactLog n db) =
    filter (\<lambda>r. r \<notin> set (compacted n (db_operations db))) (db_operations db)"
proof -
  let ?rows = "db_operations db"
  have "set (compacted n ?rows) \<subseteq> set ?rows"
    unfolding compacted_def by (meson filter_is_subset order_trans set_take_subset)
  then have "lr_sequence r \<in> lr_sequence ` set (compacted n ?rows) \<longleftrightarrow> r \<in> set (compacted n ?rows)"
    if "r \<in> set ?rows" for r
    using that log_ok_inj [OF assms(1)] by (meson inj_on_image_mem_iff)
  then show ?thesis
    using assms by (auto simp: CompactLog_def log_ok_sorted [OF assms(1)] compacted_def Let_def
        intro!: filter_cong)
qed

lemma length_filter_notin:
  "distinct rows \<Longrightarrow> distinct ys \<Longrightarrow> set ys \<subseteq> set rows \<Longrightarrow>
   length (filter (\<lambda>r. r \<notin> set ys) rows) = length rows - length ys"
proof -
  assume a: "distinct rows" "distinct ys" "set ys \<subseteq> set rows"
  have "length (filter (\<lambda>r. r \<notin> set ys) rows) = card (set rows - set ys)"
    using a(1) distinct_card [of "filter (\<lambda>r. r \<notin> set ys) rows"]
    by (simp add: set_diff_eq)
  also have "\<dots> = length rows - length ys"
    using a by (simp add: card_Diff_subset distinct_card)
  finally show ?thesis .
qed

lemma acked_split:
  "\<forall>r \<in> set rows. lr_acknowledged r \<in> {0, 1} \<Longrightarrow>
   length rows = length (filter (\<lambda>r. lr_acknowledged r = 0) rows) + length (filter (\<lambda>r. lr_acknowledged r = 1) rows)"
  by (induction rows) auto

lemma compaction_count:
  "l = a - m \<Longrightarrow> m = min k (nat (int a - n)) \<Longrightarrow> a = u + k \<Longrightarrow> g = u \<Longrightarrow> n < int a \<Longrightarrow>
   int l = max n (int g)"
  by (cases "int k \<le> int a - n") (auto simp: min_def max_def)

lemma bit_excess_small: "m < 2 ^ 53 \<Longrightarrow> bit_excess m = 0"
  by (simp add: bit_excess.simps)

lemma to_float64_exact: "\<bar>x\<bar> < 2 ^ 53 \<Longrightarrow> to_float64 x = x"
proof -
  assume "\<bar>x\<bar> < 2 ^ 53"
  then have "nat \<bar>x\<bar> < 2 ^ 53" by (simp add: nat_less_iff)
  then show ?thesis by (simp add: to_float64_def Let_def sgn_if)
qed

section \<open>Properties\<close>

text \<open>C20. In every database the program can build, each chunk row belongs to an existing file, so a file
  can be deleted exactly when it has no chunk rows, and is gone afterwards.\<close>

theorem referential_integrity:
  assumes "db_reachable db"
  shows "fst ` fst ` set (db_chunks db) \<subseteq> fst ` set (db_files db) \<and>
    (snd (DeleteFile f db) = None \<longleftrightarrow> GetChunksForFile f db = []) \<and>
    (snd (DeleteFile f db) = None \<longrightarrow> GetFile f (fst (DeleteFile f db)) = Inl (FileNotFound f)) \<and>
    (snd (DeleteFile f db) \<noteq> None \<longrightarrow> fst (DeleteFile f db) = db)"
proof -
  have sub: "fst ` fst ` set (db_chunks db) \<subseteq> fst ` set (db_files db)"
    using db_reachable_inv [OF assms] by (simp add: db_inv_def)
  have "GetChunksForFile f db = [] \<longleftrightarrow> filter (\<lambda>((f', _), _). f' = f) (db_chunks db) = []"
    by (simp only: GetChunksForFile_def map_is_Nil_conv sort_key_Nil_iff)
  also have "\<dots> \<longleftrightarrow> f \<notin> fst ` fst ` set (db_chunks db)"
    by (auto simp: filter_empty_conv image_iff)
  finally have chunks: "GetChunksForFile f db = [] \<longleftrightarrow> f \<notin> fst ` fst ` set (db_chunks db)" .
  have "map_of (db_files db) f = None \<longleftrightarrow> f \<notin> fst ` set (db_files db)"
    by (rule map_of_eq_None_iff)
  then show ?thesis
    using sub unfolding DeleteFile_def has_chunks_iff chunks by (auto simp: GetFile_def)
qed

definition sample_file :: "string \<Rightarrow> string \<Rightarrow> file_metadata" where
  "sample_file f p = \<lparr>fm_file_id = f, fm_path = p, fm_checksum = ''c'', fm_size = 3, fm_mtime = 5,
     fm_mode = None, fm_peer_id = ''a'', fm_vector_clock = None, fm_compressed = False,
     fm_original_size = None, fm_compression_algorithm = None, fm_created_at = 0, fm_updated_at = 0\<rparr>"

lemma referential_integrity_witness:
  "\<exists>db. db_reachable db \<and> snd (DeleteFile ''f'' db) = Some ForeignKeyFailed \<and> GetChunksForFile ''f'' db \<noteq> []"
proof -
  define ci where "ci = \<lparr>ci_file_id = ''f'', ci_chunk_id = 0, ci_hash = ''h'', ci_offset = 0,
    ci_length = 1, ci_received = False, ci_received_at = None\<rparr>"
  define db where "db = fst (InsertOrUpdateChunk ci (InsertFile 7 (sample_file ''f'' ''p'') initSchema))"
  have r: "db_reachable db"
    unfolding db_def by (intro db_reachable_step [OF _ insert_chunk] db_reachable_step [OF _ insert_file]
        db_reachable_init)
  have "snd (DeleteFile ''f'' db) = Some ForeignKeyFailed"
    by (simp add: db_def ci_def DeleteFile_def InsertOrUpdateChunk_def InsertFile_def upsert_file_def
        initSchema_def sample_file_def gm_put_def)
  then show ?thesis using r referential_integrity [OF r, of "''f''"] by auto
qed

text \<open>C21. Compaction never loses an operation that waits for an acknowledgement, shrinks the log to the
  limit or to those operations when they exceed it, and removes the oldest acknowledged ones first.\<close>

theorem compaction_keeps_unacknowledged:
  assumes "db_reachable db"
  shows "GetUnacknowledgedOperations (CompactLog n db) = GetUnacknowledgedOperations db \<and>
    int (length (db_operations (CompactLog n db))) =
      (if int (length (db_operations db)) \<le> n then int (length (db_operations db))
       else max n (int (length (GetUnacknowledgedOperations db)))) \<and>
    (\<exists>k. db_operations (CompactLog n db) = filter (\<lambda>r. r \<notin> set (take k
       (filter (\<lambda>r. lr_acknowledged r = 1) (db_operations db)))) (db_operations db))"
proof -
  let ?rows = "db_operations db" and ?acked = "filter (\<lambda>r. lr_acknowledged r = 1) (db_operations db)"
  have ok: "log_ok ?rows (db_next db)" using db_reachable_inv [OF assms] by (simp add: db_inv_def)
  have ok': "log_ok (db_operations (CompactLog n db)) (db_next db)"
    using log_ok_filter [OF ok] by (simp add: CompactLog_def Let_def ok)
  note un = GetUnacknowledgedOperations_def log_ok_sorted [OF ok] log_ok_sorted [OF ok']
  show ?thesis
  proof (cases "int (length ?rows) \<le> n")
    case True
    then have "CompactLog n db = db" by (simp add: CompactLog_def)
    then show ?thesis using True by (auto intro!: exI [of _ 0])
  next
    case False
    have rows: "db_operations (CompactLog n db) = filter (\<lambda>r. r \<notin> set (compacted n ?rows)) ?rows"
      using False by (intro CompactLog_rows [OF ok]) simp
    have sub: "set (compacted n ?rows) \<subseteq> {r \<in> set ?rows. lr_acknowledged r = 1}"
      unfolding compacted_def by (auto dest: in_set_takeD)
    have keep: "filter (\<lambda>r. lr_acknowledged r = 0) (db_operations (CompactLog n db)) =
        filter (\<lambda>r. lr_acknowledged r = 0) ?rows"
      unfolding rows filter_filter using sub by (intro filter_cong) auto
    have d: "distinct ?rows" using log_ok_inj [OF ok] by simp
    have "length (db_operations (CompactLog n db)) = length ?rows - length (compacted n ?rows)"
      unfolding rows using d sub by (intro length_filter_notin) (auto simp: compacted_def)
    moreover have "length (compacted n ?rows) = min (length ?acked) (nat (int (length ?rows) - n))"
      by (simp add: compacted_def)
    moreover have "length ?rows = length (filter (\<lambda>r. lr_acknowledged r = 0) ?rows) + length ?acked"
      using ok by (intro acked_split) (simp add: log_ok_def)
    moreover have "length (GetUnacknowledgedOperations db) = length (filter (\<lambda>r. lr_acknowledged r = 0) ?rows)"
      by (simp add: un)
    ultimately have "int (length (db_operations (CompactLog n db))) =
        max n (int (length (GetUnacknowledgedOperations db)))"
      by (rule compaction_count) (use False in simp)
    moreover have "GetUnacknowledgedOperations (CompactLog n db) = GetUnacknowledgedOperations db"
      unfolding un keep by simp
    ultimately show ?thesis using False rows by (auto simp: compacted_def)
  qed
qed

lemma compaction_keeps_unacknowledged_witness:
  "\<exists>db. db_reachable db \<and> GetUnacknowledgedOperations db \<noteq> [] \<and>
     GetUnacknowledgedOperations (CompactLog 0 db) = GetUnacknowledgedOperations db"
proof -
  define e where "e = scan_log_entry (undefined\<lparr>lr_acknowledged := 0\<rparr>)"
  define db where "db = fst (AppendOperation e initSchema)"
  have r: "db_reachable db"
    unfolding db_def by (intro db_reachable_step [OF _ append] db_reachable_init)
  have "GetUnacknowledgedOperations db \<noteq> []"
    by (simp add: db_def AppendOperation_def initSchema_def GetUnacknowledgedOperations_def in_sequence_def
        log_row_of_def e_def scan_log_entry_def sql_bool_def)
  then show ?thesis using r compaction_keeps_unacknowledged [OF r, of 0] by blast
qed

text \<open>Appending an operation adds it at the end of the operations waiting for an acknowledgement, with
  the next sequence number, times in whole seconds and its size rounded to a double; an operation
  whose id is already in the log is refused and changes nothing.\<close>

theorem append_then_replay:
  assumes "db_reachable db" "\<not> le_acknowledged e"
  shows "(case AppendOperation e db of
     (db', None) \<Rightarrow> le_operation_id e \<notin> lr_operation_id ` set (db_operations db) \<and>
       GetUnacknowledgedOperations db' = GetUnacknowledgedOperations db @
         [e\<lparr>le_sequence := db_next db, le_timestamp := from_unix (unix_sec (le_timestamp e)),
            le_size := map_option (\<lambda>s. wrap64 (to_float64 s)) (le_size e),
            le_mtime := map_option (\<lambda>t. from_unix (unix_sec t)) (le_mtime e),
            le_mode := map_option to_uint32 (le_mode e)\<rparr>]
   | (db', Some err) \<Rightarrow> err = UniqueFailed (le_operation_id e) \<and>
       le_operation_id e \<in> lr_operation_id ` set (db_operations db) \<and> db' = db)"
proof -
  let ?rows = "db_operations db"
  have ok: "log_ok ?rows (db_next db)" using db_reachable_inv [OF assms(1)] by (simp add: db_inv_def)
  have dup: "list_ex (\<lambda>r. lr_operation_id r = le_operation_id e) ?rows \<longleftrightarrow>
      le_operation_id e \<in> lr_operation_id ` set ?rows"
    by (rule op_id_used)
  show ?thesis
  proof (cases "le_operation_id e \<in> lr_operation_id ` set ?rows")
    case True
    then show ?thesis by (simp add: AppendOperation_def dup)
  next
    case False
    then have ok': "log_ok (?rows @ [log_row_of (db_next db) e]) (db_next db + 1)"
      using log_ok_append [OF ok] dup by simp
    have "scan_log_entry (log_row_of (db_next db) e) =
        e\<lparr>le_sequence := db_next db, le_timestamp := from_unix (unix_sec (le_timestamp e)),
          le_size := map_option (\<lambda>s. wrap64 (to_float64 s)) (le_size e),
          le_mtime := map_option (\<lambda>t. from_unix (unix_sec t)) (le_mtime e),
          le_mode := map_option to_uint32 (le_mode e)\<rparr>"
      by (simp add: scan_log_entry_def log_row_of_def sql_bool_def option.map_comp comp_def)
    moreover have "lr_acknowledged (log_row_of (db_next db) e) = 0"
      using assms(2) by (simp add: log_row_of_def sql_bool_def)
    ultimately show ?thesis
      using False unacknowledged_rows [OF ok] ok'
        unacknowledged_rows [of "fst (AppendOperation e db)" "db_next db + 1"]
      by (simp add: AppendOperation_def dup)
  qed
qed

lemma append_then_replay_witness:
  "\<exists>e. \<not> le_acknowledged e \<and>
     GetUnacknowledgedOperations (fst (AppendOperation e initSchema)) =
       [e\<lparr>le_sequence := 1, le_timestamp := from_unix (unix_sec (le_timestamp e)),
          le_size := map_option (\<lambda>s. wrap64 (to_float64 s)) (le_size e),
          le_mtime := map_option (\<lambda>t. from_unix (unix_sec t)) (le_mtime e),
          le_mode := map_option to_uint32 (le_mode e)\<rparr>]"
proof -
  define e where "e = scan_log_entry (undefined\<lparr>lr_acknowledged := 0\<rparr>)"
  have ack: "\<not> le_acknowledged e" by (simp add: e_def scan_log_entry_def)
  show ?thesis
    using append_then_replay [OF db_reachable_init ack] ack
    by (intro exI [of _ e])
       (simp add: AppendOperation_def initSchema_def GetUnacknowledgedOperations_def in_sequence_def)
qed

text \<open>An acknowledged operation is not replayed: marking an id removes exactly the operation with that
  id from the operations waiting for an acknowledgement.\<close>

theorem acknowledge_removes:
  assumes "db_reachable db"
  shows "GetUnacknowledgedOperations (MarkOperationAcknowledged opID db) =
    filter (\<lambda>e. le_operation_id e \<noteq> opID) (GetUnacknowledgedOperations db)"
proof -
  let ?mark = "\<lambda>r. if lr_operation_id r = opID then r\<lparr>lr_acknowledged := 1\<rparr> else r"
  have ok: "log_ok (db_operations db) (db_next db)"
    using db_reachable_inv [OF assms] by (simp add: db_inv_def)
  then have ok': "log_ok (map ?mark (db_operations db)) (db_next db)"
    by (rule log_ok_map) auto
  have keep: "filter (\<lambda>r. lr_acknowledged r = 0) (map ?mark rows) =
      filter (\<lambda>r. lr_operation_id r \<noteq> opID) (filter (\<lambda>r. lr_acknowledged r = 0) rows)" for rows
    by (induction rows) auto
  have "db_operations (MarkOperationAcknowledged opID db) = map ?mark (db_operations db)"
    by (simp add: MarkOperationAcknowledged_def)
  then have "GetUnacknowledgedOperations (MarkOperationAcknowledged opID db) =
      map scan_log_entry (filter (\<lambda>r. lr_operation_id r \<noteq> opID)
        (filter (\<lambda>r. lr_acknowledged r = 0) (db_operations db)))"
    using unacknowledged_rows [of "MarkOperationAcknowledged opID db"] ok' by (simp only: keep)
  also have "\<dots> = filter (\<lambda>e. le_operation_id e \<noteq> opID)
      (map scan_log_entry (filter (\<lambda>r. lr_acknowledged r = 0) (db_operations db)))"
    by (simp add: filter_map comp_def scan_log_entry_def)
  finally show ?thesis by (simp only: unacknowledged_rows [OF ok])
qed

lemma acknowledge_removes_witness:
  "GetUnacknowledgedOperations (MarkOperationAcknowledged ''x'' initSchema) =
    filter (\<lambda>e. le_operation_id e \<noteq> ''x'') (GetUnacknowledgedOperations initSchema)"
  by (rule acknowledge_removes [OF db_reachable_init])

text \<open>The log does not keep every size: reading the column as a double returns 2^53 for a size of
  2^53 + 1, while every size below 2^53 survives.\<close>

theorem log_rounds_sizes:
  "le_size (scan_log_entry (log_row_of n (e\<lparr>le_size := Some s\<rparr>))) =
     (if s = 2 ^ 53 + 1 then Some (2 ^ 53)
      else if \<bar>s\<bar> < 2 ^ 53 then Some s else Some (wrap64 (to_float64 s)))"
proof -
  have "bit_excess (2 ^ 53 + 1) = 1" by (simp add: bit_excess.simps)
  then have "to_float64 (2 ^ 53 + 1) = 2 ^ 53"
    by (simp add: to_float64_def round_half_even_def Let_def)
  moreover have "in_int64 s" if "\<bar>s\<bar> < 2 ^ 53" using that by (auto simp: in_int64_def abs_less_iff)
  ultimately show ?thesis
    by (simp add: scan_log_entry_def log_row_of_def to_float64_exact) (simp add: wrap64_def)
qed

end
