(* ===== verification/Resolver.thy ===== *)
theory Resolver
  imports VectorClock LineMerge "HOL-Library.Multiset"
begin

text \<open>
  Conflict resolution, \<^verbatim>\<open>internal/sync/conflict/resolver.go\<close>: the decision by vector clocks, the
  last-write-wins policy, the choice of a strategy from the file name or the content, and the
  three-way merge with a base version. The locale \<open>conflict_policy\<close> states what a policy must
  promise so that replicas which see the same operations in different orders keep the same one;
  \<open>lastWriteWins\<close> and \<open>ResolveLWWFallback\<close> are shown to meet it.
\<close>

section \<open>Operations\<close>

record resolver =
  strategy :: string

definition NewResolver :: "string \<Rightarrow> resolver" where
  "NewResolver s = \<lparr>strategy = s\<rparr>"

fun compare_clocks_loop :: "vclock \<Rightarrow> vclock \<Rightarrow> (string, bool) gomap \<Rightarrow> bool \<times> bool \<Rightarrow> bool \<times> bool" where
  "compare_clocks_loop vc1 vc2 [] flags = flags"
| "compare_clocks_loop vc1 vc2 ((peerID, _) # ps) (l, g) =
     (let v1 = gm_get 0 vc1 peerID; v2 = gm_get 0 vc2 peerID
      in compare_clocks_loop vc1 vc2 ps
           (if v1 < v2 then (True, g) else if v1 > v2 then (l, True) else (l, g)))"

definition compareVectorClocks :: "vclock \<Rightarrow> vclock \<Rightarrow> int" where
  "compareVectorClocks vc1 vc2 =
     (case compare_clocks_loop vc1 vc2 (all_peers vc2 (all_peers vc1 [])) (False, False) of
        (l, g) \<Rightarrow> if l \<and> \<not> g then -1 else if g \<and> \<not> l then 1 else 0)"

definition isConcurrent :: "vclock \<Rightarrow> vclock \<Rightarrow> bool" where
  "isConcurrent vc1 vc2 \<longleftrightarrow> compareVectorClocks vc1 vc2 = 0"

definition lastWriteWins :: "conflict_op \<Rightarrow> conflict_op \<Rightarrow> conflict_op" where
  "lastWriteWins op1 op2 =
     (if co_timestamp op1 > co_timestamp op2 then op1
      else if co_timestamp op2 > co_timestamp op1 then op2
      else if co_peer_id op1 < co_peer_id op2 then op1
      else op2)"

definition isTextFile :: "bytes \<Rightarrow> bool" where
  "isTextFile data =
     (if length data = 0 then False
      else list_all (\<lambda>b. \<not> (byte_val b < 32 \<and> byte_val b \<noteq> 9 \<and> byte_val b \<noteq> 10 \<and> byte_val b \<noteq> 13)) data)"

definition intelligentMerge :: "conflict_op \<Rightarrow> conflict_op \<Rightarrow> conflict_op" where
  "intelligentMerge op1 op2 =
     (if length (co_data op1) > 0 \<and> length (co_data op2) > 0 \<and>
         isTextFile (co_data op1) \<and> isTextFile (co_data op2)
      then ThreeWayMerge op1 op2
      else lastWriteWins op1 op2)"

definition ResolveConflict :: "resolver \<Rightarrow> conflict_op \<Rightarrow> conflict_op \<Rightarrow> vclock \<Rightarrow> vclock \<Rightarrow> conflict_op" where
  "ResolveConflict r op1 op2 vc1 vc2 =
     (if \<not> isConcurrent vc1 vc2 then
        (if compareVectorClocks vc1 vc2 < 0 then op2 else op1)
      else if strategy r = ''intelligent_merge'' then intelligentMerge op1 op2
      else lastWriteWins op1 op2)"

text \<open>
  \<open>filepath.Ext\<close> looks for the last dot after the last slash. \<open>strings.ToLower\<close> is modelled on
  ASCII: the only other code points it maps to ASCII letters become \<^verbatim>\<open>i\<close> and \<^verbatim>\<open>k\<close>, which no
  extension of the table contains, so the look-up has the same result on every name.
\<close>

fun ext_scan :: "string \<Rightarrow> string \<Rightarrow> string" where
  "ext_scan [] acc = ''''"
| "ext_scan (c # cs) acc =
     (if c = CHR ''/'' then '''' else if c = CHR ''.'' then c # acc else ext_scan cs (c # acc))"

definition filepath_Ext :: "string \<Rightarrow> string" where
  "filepath_Ext path = ext_scan (rev path) ''''"

definition lower_byte :: "char \<Rightarrow> char" where
  "lower_byte c = (if 65 \<le> byte_val c \<and> byte_val c \<le> 90 then char_of (byte_val c + 32) else c)"

definition ToLower :: "string \<Rightarrow> string" where
  "ToLower s = map lower_byte s"

definition textExtensions :: "(string, bool) gomap" where
  "textExtensions =
     [(''.txt'', True), (''.md'', True), (''.go'', True), (''.py'', True), (''.js'', True),
      (''.ts'', True), (''.json'', True), (''.yaml'', True), (''.yml'', True), (''.xml'', True),
      (''.html'', True), (''.css'', True)]"

definition SelectStrategy :: "conflict_op \<Rightarrow> string" where
  "SelectStrategy op =
     (let ext = ToLower (filepath_Ext (co_path op))
      in if gm_get False textExtensions ext then ''intelligent_merge''
         else if isTextFile (co_data op) then ''intelligent_merge''
         else ''last_write_wins'')"

definition ResolveLWW :: "conflict_op \<Rightarrow> conflict_op \<Rightarrow> conflict_op" where
  "ResolveLWW op1 op2 = lastWriteWins op1 op2"

definition ResolveLWWFallback :: "string \<Rightarrow> string \<Rightarrow> int64 \<Rightarrow> int64 \<Rightarrow> string" where
  "ResolveLWWFallback content1 content2 ts1 ts2 =
     (if ts1 > ts2 then content1 else if ts2 > ts1 then content2 else content1)"

section \<open>The merge with a base version\<close>

definition min3 :: "nat \<Rightarrow> nat \<Rightarrow> nat \<Rightarrow> nat" where
  "min3 a b c = (if a < b then (if a < c then a else c) else if b < c then b else c)"

text \<open>A loop that counts until its condition fails is the length of a \<open>takeWhile\<close> over its indices.\<close>

definition findCommonPrefixCount :: "string list \<Rightarrow> string list \<Rightarrow> string list \<Rightarrow> nat" where
  "findCommonPrefixCount base lines1 lines2 =
     length (takeWhile (\<lambda>i. base ! i = lines1 ! i \<and> base ! i = lines2 ! i)
       [0..<min3 (length base) (length lines1) (length lines2)])"

definition findCommonSuffixCount :: "string list \<Rightarrow> string list \<Rightarrow> string list \<Rightarrow> nat" where
  "findCommonSuffixCount base lines1 lines2 =
     length (takeWhile (\<lambda>i. base ! (length base - i) = lines1 ! (length lines1 - i) \<and>
                            base ! (length base - i) = lines2 ! (length lines2 - i))
       [1..<min3 (length base) (length lines1) (length lines2) + 1])"

definition extractMiddle :: "string list \<Rightarrow> nat \<Rightarrow> nat \<Rightarrow> string list" where
  "extractMiddle ls prefixCount suffixCount =
     (if prefixCount + suffixCount \<ge> length ls then []
      else slice prefixCount (length ls - suffixCount) ls)"

definition arraysEqual :: "string list \<Rightarrow> string list \<Rightarrow> bool" where
  "arraysEqual a b =
     (if length a \<noteq> length b then False else list_all (\<lambda>i. a ! i = b ! i) [0..<length a])"

definition threeWayMergeWithBase :: "string \<Rightarrow> string \<Rightarrow> string \<Rightarrow> string" where
  "threeWayMergeWithBase base branch1 branch2 =
     (let baseLines = split_lines base; lines1 = split_lines branch1; lines2 = split_lines branch2
      in if branch1 = base then branch2
         else if branch2 = base then branch1
         else if branch1 = branch2 then branch1
         else
           (let commonPrefix = findCommonPrefixCount baseLines lines1 lines2;
                commonSuffix = findCommonSuffixCount baseLines lines1 lines2;
                baseMiddle = extractMiddle baseLines commonPrefix commonSuffix;
                middle1 = extractMiddle lines1 commonPrefix commonSuffix;
                middle2 = extractMiddle lines2 commonPrefix commonSuffix
            in if \<not> arraysEqual baseMiddle middle1 \<and> \<not> arraysEqual baseMiddle middle2 \<and>
                  \<not> arraysEqual middle1 middle2 then
                 join_lines
                   (take commonPrefix baseLines @ [''<<<<<<< HEAD''] @ middle1 @ [''=======''] @
                    middle2 @ [''>>>>>>> remote''] @
                    (if commonSuffix > 0 then drop (length baseLines - commonSuffix) baseLines else []))
               else if \<not> arraysEqual baseMiddle middle1 then branch1
               else branch2))"

definition Resolve3Way :: "string \<Rightarrow> string \<Rightarrow> string \<Rightarrow> string" where
  "Resolve3Way base branch1 branch2 = threeWayMergeWithBase base branch1 branch2"

section \<open>Policies that pick a winner\<close>

text \<open>The rank by which last-write-wins decides: later time stamps win, then smaller peer ids.\<close>

datatype stamp = Stamp (st_time: int) (st_peer: string)

instantiation stamp :: linorder
begin

definition less_stamp :: "stamp \<Rightarrow> stamp \<Rightarrow> bool" where
  "less_stamp a b \<longleftrightarrow> st_time a < st_time b \<or> st_time a = st_time b \<and> st_peer b < st_peer a"

definition less_eq_stamp :: "stamp \<Rightarrow> stamp \<Rightarrow> bool" where
  "less_eq_stamp a b \<longleftrightarrow> st_time a < st_time b \<or> st_time a = st_time b \<and> st_peer b \<le> st_peer a"

instance
  by standard (auto simp: less_stamp_def less_eq_stamp_def stamp.expand)

end

definition stamp_of :: "conflict_op \<Rightarrow> stamp" where
  "stamp_of op = Stamp (co_timestamp op) (co_peer_id op)"

text \<open>
  A policy picks one of two candidates, the one of greater rank. Among candidates of pairwise
  different ranks it is commutative and associative, and folding it over any arrangement of them
  gives the one of greatest rank.
\<close>

locale conflict_policy =
  fixes rank :: "'a \<Rightarrow> 'r :: linorder"
    and pick :: "'a \<Rightarrow> 'a \<Rightarrow> 'a"
  assumes pick_one: "pick a b = a \<or> pick a b = b"
    and rank_pick: "rank (pick a b) = max (rank a) (rank b)"
begin

lemma pick_first: "rank b < rank a \<Longrightarrow> pick a b = a"
  by (metis pick_one rank_pick max.absorb3 order_less_irrefl)

lemma pick_second: "rank a < rank b \<Longrightarrow> pick a b = b"
  by (metis pick_one rank_pick max.absorb4 order_less_irrefl)

lemma pick_commute: "rank a \<noteq> rank b \<Longrightarrow> pick a b = pick b a"
  by (metis linorder_neqE pick_first pick_second)

lemma pick_self: "pick a a = a"
  using pick_one by blast

lemma fold_pick_mem: "foldl pick a xs \<in> insert a (set xs)"
proof (induction xs arbitrary: a)
  case (Cons x xs)
  show ?case using Cons [of "pick a x"] pick_one [of a x] by auto
qed simp

lemma rank_fold_pick: "rank (foldl pick a xs) = Max (rank ` insert a (set xs))"
proof (induction xs arbitrary: a)
  case (Cons x xs)
  have "Max (insert (max (rank a) (rank x)) S) = max (rank a) (Max (insert (rank x) S))"
    if "finite S" for S
    using that by (cases "S = {}") (simp_all add: max.assoc)
  with Cons show ?case by (simp add: rank_pick)
qed simp

text \<open>The winner of a group does not depend on the order in which its members are compared.\<close>

lemma fold_pick_perm:
  assumes inj: "inj_on rank (insert a (set xs))" and same: "insert a (set xs) = insert b (set ys)"
  shows "foldl pick a xs = foldl pick b ys"
proof (rule inj_onD [OF inj])
  show "rank (foldl pick a xs) = rank (foldl pick b ys)"
    using same by (simp only: rank_fold_pick)
  show "foldl pick a xs \<in> insert a (set xs)" "foldl pick b ys \<in> insert a (set xs)"
    using fold_pick_mem [of a xs] fold_pick_mem [of b ys] same by auto
qed

end

interpretation lww: conflict_policy stamp_of lastWriteWins
  by unfold_locales
     (auto simp: lastWriteWins_def stamp_of_def max_def less_eq_stamp_def stamp.expand)

interpretation lww_text: conflict_policy snd
    "\<lambda>(c1, ts1) (c2, ts2). (ResolveLWWFallback c1 c2 ts1 ts2, max ts1 ts2)"
  by unfold_locales (auto simp: ResolveLWWFallback_def max_def split: if_splits)

section \<open>Lemmas\<close>

lemma compare_clocks_loop_eq:
  "compare_clocks_loop vc1 vc2 ps flags = compare_loop vc1 vc2 ps flags"
  by (induction vc1 vc2 ps flags rule: compare_clocks_loop.induct) (auto simp: Let_def)

lemma compareVectorClocks_eq: "compareVectorClocks vc1 vc2 = vc_compare vc1 vc2"
  by (simp add: compareVectorClocks_def vc_compare_def compare_clocks_loop_eq)

lemma lastWriteWins_stamp: "lastWriteWins a b = (if stamp_of b < stamp_of a then a else b)"
  by (auto simp: lastWriteWins_def stamp_of_def less_stamp_def)

lemma min3_le: "min3 a b c \<le> a" "min3 a b c \<le> b" "min3 a b c \<le> c"
  by (auto simp: min3_def)

lemma arraysEqual_iff [simp]: "arraysEqual a b \<longleftrightarrow> a = b"
proof
  assume "arraysEqual a b"
  then show "a = b"
    by (intro nth_equalityI) (simp_all add: arraysEqual_def list_all_iff split: if_splits)
qed (simp add: arraysEqual_def list_all_iff)

text \<open>A counting loop: every index it has passed satisfies the condition.\<close>

lemma takeWhile_upt_holds: "i < length (takeWhile P [m..<k]) \<Longrightarrow> P (m + i)"
proof -
  assume i: "i < length (takeWhile P [m..<k])"
  then have "takeWhile P [m..<k] ! i = [m..<k] ! i" by (rule takeWhile_nth)
  moreover have "i < k - m" using i length_takeWhile_le [of P "[m..<k]"] by simp
  ultimately have "m + i \<in> set (takeWhile P [m..<k])" using nth_mem [OF i] by simp
  then show ?thesis by (auto dest: set_takeWhileD)
qed

lemma prefixCount_le:
  "findCommonPrefixCount b x y \<le> min3 (length b) (length x) (length y)"
  unfolding findCommonPrefixCount_def by (rule order_trans [OF length_takeWhile_le]) simp

lemma suffixCount_le:
  "findCommonSuffixCount b x y \<le> min3 (length b) (length x) (length y)"
  unfolding findCommonSuffixCount_def by (rule order_trans [OF length_takeWhile_le]) simp

lemmas count_bounds = order_trans [OF prefixCount_le min3_le(1)] order_trans [OF prefixCount_le min3_le(2)]
  order_trans [OF prefixCount_le min3_le(3)] order_trans [OF suffixCount_le min3_le(1)]
  order_trans [OF suffixCount_le min3_le(2)] order_trans [OF suffixCount_le min3_le(3)]

lemma prefixCount_common:
  "take (findCommonPrefixCount b x y) x = take (findCommonPrefixCount b x y) b"
  "take (findCommonPrefixCount b x y) y = take (findCommonPrefixCount b x y) b"
proof -
  have eq: "x ! i = b ! i" "y ! i = b ! i" if "i < findCommonPrefixCount b x y" for i
    using takeWhile_upt_holds [OF that [unfolded findCommonPrefixCount_def]] by auto
  show "take (findCommonPrefixCount b x y) x = take (findCommonPrefixCount b x y) b"
    and "take (findCommonPrefixCount b x y) y = take (findCommonPrefixCount b x y) b"
    by (rule nth_take_lemma; use eq count_bounds in auto)+
qed

lemma suffixCount_common:
  fixes b x y
  defines "n \<equiv> findCommonSuffixCount b x y"
  shows "drop (length x - n) x = drop (length b - n) b" "drop (length y - n) y = drop (length b - n) b"
proof -
  have len: "n \<le> length b" "n \<le> length x" "n \<le> length y"
    unfolding n_def by (rule count_bounds)+
  have eq: "b ! (length b - n + i) = x ! (length x - n + i) \<and>
            b ! (length b - n + i) = y ! (length y - n + i)" if i: "i < n" for i
  proof -
    have "n - i - 1 < n" using i by simp
    from takeWhile_upt_holds [OF this [unfolded n_def findCommonSuffixCount_def]]
    have "b ! (length b - (1 + (n - i - 1))) = x ! (length x - (1 + (n - i - 1))) \<and>
          b ! (length b - (1 + (n - i - 1))) = y ! (length y - (1 + (n - i - 1)))"
      unfolding n_def findCommonSuffixCount_def .
    moreover have "1 + (n - i - 1) = n - i" using i by simp
    ultimately have "b ! (length b - (n - i)) = x ! (length x - (n - i)) \<and>
          b ! (length b - (n - i)) = y ! (length y - (n - i))" by metis
    moreover have "length b - n + i = length b - (n - i)" "length x - n + i = length x - (n - i)"
      "length y - n + i = length y - (n - i)" using i len by simp_all
    ultimately show ?thesis by metis
  qed
  show "drop (length x - n) x = drop (length b - n) b" "drop (length y - n) y = drop (length b - n) b"
    by (rule nth_equalityI; use len eq in simp)+
qed

text \<open>A version is its prefix, its middle section and its suffix, when these do not overlap.\<close>

lemma extractMiddle_append:
  "p + s \<le> length ls \<Longrightarrow> take p ls @ extractMiddle ls p s @ drop (length ls - s) ls = ls"
  using append_slice [of p "length ls - s" ls] by (auto simp: extractMiddle_def slice_def)

lemma middles_differ:
  fixes b x y
  defines "p \<equiv> findCommonPrefixCount b x y" and "s \<equiv> findCommonSuffixCount b x y"
  assumes fit: "p + s \<le> length b" "p + s \<le> length x" "p + s \<le> length y"
    and diff: "b \<noteq> x" "b \<noteq> y" "x \<noteq> y"
  shows "extractMiddle b p s \<noteq> extractMiddle x p s" "extractMiddle b p s \<noteq> extractMiddle y p s"
    "extractMiddle x p s \<noteq> extractMiddle y p s"
  using extractMiddle_append [OF fit(1)] extractMiddle_append [OF fit(2)] extractMiddle_append [OF fit(3)]
    prefixCount_common [of b x y] suffixCount_common [where b = b and x = x and y = y] diff
  unfolding p_def s_def by (metis+)

section \<open>Properties\<close>

text \<open>C15. The resolver follows causality first: the causally later operation wins; only concurrent or
  equal clocks reach the policy, which merges two non-empty text versions when the strategy asks
  for it and otherwise keeps the operation of greater stamp, the second one on a tie.\<close>

theorem ResolveConflict_decides:
  "ResolveConflict r op1 op2 vc1 vc2 =
    (if vc_le vc1 vc2 \<and> \<not> vc_le vc2 vc1 then op2
     else if vc_le vc2 vc1 \<and> \<not> vc_le vc1 vc2 then op1
     else if strategy r = ''intelligent_merge'' \<and> isTextFile (co_data op1) \<and> isTextFile (co_data op2)
       then ThreeWayMerge op1 op2
     else if stamp_of op2 < stamp_of op1 then op1 else op2)"
  by (auto simp: ResolveConflict_def isConcurrent_def compareVectorClocks_eq vc_compare_alt
      intelligentMerge_def lastWriteWins_stamp isTextFile_def)

text \<open>Two replicas that compare the same two operations from opposite sides agree under last write
  wins, except when the operations are tied on time stamp and peer: then each keeps the other's.\<close>

theorem lww_replicas_agree:
  "ResolveConflict (NewResolver ''last_write_wins'') op1 op2 vc1 vc2 =
     ResolveConflict (NewResolver ''last_write_wins'') op2 op1 vc2 vc1 \<longleftrightarrow>
   \<not> (op1 \<noteq> op2 \<and> stamp_of op1 = stamp_of op2 \<and> vc_compare vc1 vc2 = 0)"
  by (auto simp: ResolveConflict_def NewResolver_def isConcurrent_def compareVectorClocks_eq
      vc_compare_uminus [of vc1 vc2] lastWriteWins_stamp split: if_splits)

text \<open>Replicas that receive the same operations in different orders, and repeatedly, keep the same
  one under last write wins, whenever no two of them carry the same time stamp and peer.\<close>

theorem lww_order_independent:
  assumes "set (op1 # ops1) = set (op2 # ops2)" "inj_on stamp_of (set (op1 # ops1))"
  shows "foldl lastWriteWins op1 ops1 = foldl lastWriteWins op2 ops2"
  using lww.fold_pick_perm [of op1 ops1 op2 ops2] assms by simp

definition sample_op :: "string \<Rightarrow> int \<Rightarrow> conflict_op" where
  "sample_op peer ts = \<lparr>co_id = peer, co_type = ''update'', co_path = ''a.txt'', co_from_path = None,
     co_file_id = '''', co_checksum = '''', co_size = 1, co_timestamp = ts, co_peer_id = peer,
     co_data = ''x''\<rparr>"

lemma lww_order_independent_witness:
  "foldl lastWriteWins (sample_op ''a'' 1) [sample_op ''b'' 2, sample_op ''c'' 2] =
     foldl lastWriteWins (sample_op ''c'' 2) [sample_op ''a'' 1, sample_op ''b'' 2, sample_op ''a'' 1]"
  by (rule lww_order_independent) (auto simp: sample_op_def stamp_of_def)

text \<open>C16. The three-way merge is lossless where prefix and suffix do not overlap: when the base and
  both branches differ pairwise, the result is the common prefix, both middle sections between
  conflict markers and the common suffix, and the base never counts as unchanged on one side.\<close>

theorem three_way_keeps_both_sides:
  assumes "base \<noteq> b1" "base \<noteq> b2" "b1 \<noteq> b2"
    and "p = findCommonPrefixCount (split_lines base) (split_lines b1) (split_lines b2)"
    and "s = findCommonSuffixCount (split_lines base) (split_lines b1) (split_lines b2)"
    and "p + s \<le> min3 (length (split_lines base)) (length (split_lines b1)) (length (split_lines b2))"
  shows "\<exists>m1 m2. split_lines b1 = take p (split_lines b1) @ m1 @ drop (length (split_lines b1) - s) (split_lines b1) \<and>
    split_lines b2 = take p (split_lines b2) @ m2 @ drop (length (split_lines b2) - s) (split_lines b2) \<and>
    Resolve3Way base b1 b2 = join_lines (take p (split_lines b1) @ [''<<<<<<< HEAD''] @ m1 @ [''=======''] @ m2 @
      [''>>>>>>> remote''] @ drop (length (split_lines b2) - s) (split_lines b2))"
proof -
  let ?b = "split_lines base" and ?x = "split_lines b1" and ?y = "split_lines b2"
  have fit: "p + s \<le> length ?b" "p + s \<le> length ?x" "p + s \<le> length ?y"
    using assms(6) min3_le order_trans by metis+
  have "extractMiddle ?b p s \<noteq> extractMiddle ?x p s" "extractMiddle ?b p s \<noteq> extractMiddle ?y p s"
    "extractMiddle ?x p s \<noteq> extractMiddle ?y p s"
    using middles_differ [of ?b ?x ?y] fit assms by (simp_all add: split_lines_inj)
  then have "Resolve3Way base b1 b2 = join_lines (take p ?b @ [''<<<<<<< HEAD''] @ extractMiddle ?x p s @
      [''=======''] @ extractMiddle ?y p s @ [''>>>>>>> remote''] @
      (if s > 0 then drop (length ?b - s) ?b else []))"
    using assms(1-5) by (simp add: Resolve3Way_def threeWayMergeWithBase_def Let_def)
  moreover have "(if s > 0 then drop (length ?b - s) ?b else []) = drop (length ?y - s) ?y"
    using suffixCount_common(2) [where b = ?b and x = ?x and y = ?y] assms(5) by simp
  moreover have "take p ?b = take p ?x" using prefixCount_common(1) [of ?b ?x ?y] assms(4) by simp
  ultimately have "Resolve3Way base b1 b2 = join_lines (take p ?x @ [''<<<<<<< HEAD''] @
      extractMiddle ?x p s @ [''=======''] @ extractMiddle ?y p s @ [''>>>>>>> remote''] @
      drop (length ?y - s) ?y)"
    by (simp only:)
  with extractMiddle_append [OF fit(2), symmetric] extractMiddle_append [OF fit(3), symmetric]
  show ?thesis by blast
qed

lemma three_way_keeps_both_sides_witness:
  "\<exists>m1 m2. split_lines (''a'' @ newline # ''x'') = take 1 (split_lines (''a'' @ newline # ''x'')) @ m1 @
      drop (length (split_lines (''a'' @ newline # ''x'')) - 0) (split_lines (''a'' @ newline # ''x'')) \<and>
    split_lines (''a'' @ newline # ''y'') = take 1 (split_lines (''a'' @ newline # ''y'')) @ m2 @
      drop (length (split_lines (''a'' @ newline # ''y'')) - 0) (split_lines (''a'' @ newline # ''y'')) \<and>
    Resolve3Way (''a'' @ newline # ''b'') (''a'' @ newline # ''x'') (''a'' @ newline # ''y'') =
      join_lines (take 1 (split_lines (''a'' @ newline # ''x'')) @ [''<<<<<<< HEAD''] @ m1 @ [''=======''] @ m2 @
      [''>>>>>>> remote''] @ drop (length (split_lines (''a'' @ newline # ''y'')) - 0) (split_lines (''a'' @ newline # ''y'')))"
  by (rule three_way_keeps_both_sides)
     (simp_all add: findCommonPrefixCount_def findCommonSuffixCount_def split_lines_def newline_def
       min3_def)

text \<open>Where they do overlap a change is lost without a marker: one branch deletes the second of two
  equal lines, the other adds a third, and the result keeps only the addition.\<close>

theorem three_way_overlap_loses_change:
  assumes "newline \<notin> set l"
  shows "Resolve3Way (join_lines [l, l]) (join_lines [l]) (join_lines [l, l, l]) = join_lines [l, l, l]"
proof -
  have "split_lines (join_lines ls) = ls" if "ls \<noteq> []" "set ls \<subseteq> {l}" for ls
    unfolding split_lines_def join_lines_def by (rule split_join_on) (use that assms in auto)
  moreover have "join_lines [l, l, l] \<noteq> join_lines [l, l]" by (simp add: join_lines_def)
  ultimately show ?thesis
    by (simp add: Resolve3Way_def threeWayMergeWithBase_def findCommonPrefixCount_def
        findCommonSuffixCount_def extractMiddle_def slice_def min3_def Let_def)
qed

lemma three_way_overlap_loses_change_witness:
  "Resolve3Way (join_lines [''x'', ''x'']) (join_lines [''x'']) (join_lines [''x'', ''x'', ''x'']) =
     join_lines [''x'', ''x'', ''x'']"
  by (rule three_way_overlap_loses_change) (simp add: newline_def)

text \<open>The strategy is the intelligent merge exactly for a known text extension or a non-empty
  content without control bytes other than tab, line feed and carriage return.\<close>

theorem SelectStrategy_decides:
  "SelectStrategy op =
    (if ToLower (filepath_Ext (co_path op)) \<in> fst ` set textExtensions \<or>
        co_data op \<noteq> [] \<and> list_all (\<lambda>b. 32 \<le> byte_val b \<or> byte_val b \<in> {9, 10, 13}) (co_data op)
     then ''intelligent_merge'' else ''last_write_wins'')"
proof -
  have "gm_get False textExtensions e \<longleftrightarrow> e \<in> fst ` set textExtensions" for e
    by (simp add: textExtensions_def gm_get_def)
  moreover have "isTextFile d \<longleftrightarrow> d \<noteq> [] \<and> list_all (\<lambda>b. 32 \<le> byte_val b \<or> byte_val b \<in> {9, 10, 13}) d" for d
    by (auto simp: isTextFile_def list_all_iff not_less)
  ultimately show ?thesis by (simp add: SelectStrategy_def Let_def)
qed

end
