(* ===== verification/Engine.thy ===== *)
theory Engine
  imports RenameDetector OperationLog Resolver
begin

text \<open>
  The synchronisation engine, \<^verbatim>\<open>internal/sync/engine.go\<close>, and its in-memory messenger,
  \<^verbatim>\<open>internal/sync/messenger.go\<close>. The record \<open>engine\<close> holds the fields of the Go struct, the local file
  system and the operations handed to the messenger (\<open>en_sent\<close>). Every handler is one function on that
  state. \<open>HandleIncomingFile\<close> starts a goroutine: it adds a task to \<open>en_pending\<close>, and
  \<open>processIncomingFileAsync\<close> runs one task as one step. A handler reads the clock once, as \<open>now\<close>;
  \<open>tmp\<close> is the name that the operating system picks for a temporary file; \<open>H\<close> is BLAKE3.
\<close>

section \<open>State\<close>

definition recentWritesTTL :: time where "recentWritesTTL = 5 * 10 ^ 9"

record engine =
  en_folder :: string
  en_resolver :: resolver
  en_peer :: string
  en_messenger :: bool
  en_clock :: vclock
  en_recent :: "(string, time) gomap"
  en_db :: database
  en_queue :: "sync_op op_queue"
  en_renames :: rename_detector
  en_ignored :: "(string, bool) gomap"
  en_fs :: fs
  en_pending :: "(bytes \<times> sync_op) list"
  en_stopped :: bool
  en_sent :: "sync_op list"

definition NewEngineWithMessenger :: "string \<Rightarrow> string \<Rightarrow> string \<Rightarrow> bool \<Rightarrow> database \<Rightarrow> fs \<Rightarrow> engine" where
  "NewEngineWithMessenger folder resolution peerID messenger db s =
     \<lparr>en_folder = folder, en_resolver = NewResolver resolution, en_peer = peerID,
      en_messenger = messenger, en_clock = NewVectorClock, en_recent = [], en_db = db,
      en_queue = NewOperationQueue, en_renames = NewRenameDetector, en_ignored = [], en_fs = s,
      en_pending = [], en_stopped = False, en_sent = []\<rparr>"

definition NewEngine :: "string \<Rightarrow> string \<Rightarrow> string \<Rightarrow> database \<Rightarrow> fs \<Rightarrow> engine" where
  "NewEngine folder resolution peerID db s = NewEngineWithMessenger folder resolution peerID False db s"

text \<open>\<open>time.UnixMilli\<close>.\<close>

definition from_milli :: "int64 \<Rightarrow> time" where
  "from_milli ms = ms * 1000000"

definition send :: "sync_op \<Rightarrow> engine \<Rightarrow> engine" where
  "send op e = (if en_messenger e then e\<lparr>en_sent := en_sent e @ [op]\<rparr> else e)"

section \<open>Recent writes\<close>

definition addRecentWrite :: "time \<Rightarrow> string \<Rightarrow> engine \<Rightarrow> engine" where
  "addRecentWrite now path e = e\<lparr>en_recent := gm_put path now (en_recent e)\<rparr>"

definition isRecentWrite :: "time \<Rightarrow> string \<Rightarrow> engine \<Rightarrow> bool" where
  "isRecentWrite now checksum e =
     (case map_of (en_recent e) checksum of
        None \<Rightarrow> False
      | Some writeTime \<Rightarrow> if now - writeTime > recentWritesTTL then False else True)"

definition cleanupRecentWrites :: "time \<Rightarrow> engine \<Rightarrow> engine" where
  "cleanupRecentWrites now e =
     e\<lparr>en_recent := gm_drop (\<lambda>writeTime. now - writeTime > recentWritesTTL) (en_recent e)\<rparr>"

section \<open>Local changes\<close>

definition log_entry_of :: "sync_op \<Rightarrow> log_entry" where
  "log_entry_of op =
     \<lparr>le_sequence = 0, le_operation_id = so_id op, le_timestamp = from_milli (so_timestamp op),
      le_type = so_type op, le_peer_id = so_peer_id op, le_vector_clock = so_vector_clock op,
      le_acknowledged = False, le_persisted = False, le_file_id = Some (so_file_id op),
      le_path = so_path op, le_from_path = so_from_path op, le_checksum = Some (so_checksum op),
      le_size = Some (so_size op),
      le_mtime = Some (if so_mtime op \<noteq> 0 then from_milli (so_mtime op) else zero_time),
      le_mode = None, le_chunk_count = 0, le_data = so_data op, le_compressed = False,
      le_original_size = None, le_compression_algorithm = None\<rparr>"

definition queueOperation :: "sync_op \<Rightarrow> engine \<Rightarrow> engine" where
  "queueOperation op e =
     (let (clock, op') = (if so_source op = ''local''
                          then (let c = vc_increment (en_clock e) (en_peer e)
                                in (c, op\<lparr>so_vector_clock := Some c\<rparr>))
                          else (en_clock e, op))
      in send op' (e\<lparr>en_clock := clock,
                     en_queue := Enqueue (en_queue e) (so_file_id op') op',
                     en_db := fst (AppendOperation (log_entry_of op') (en_db e))\<rparr>))"

text \<open>The id from the extended attribute, or else a new one, which is stored there.\<close>

definition file_id_for :: "(bytes \<Rightarrow> bytes) \<Rightarrow> string \<Rightarrow> engine \<Rightarrow> (string \<times> engine) option" where
  "file_id_for H path e =
     (case GetFileID path (en_fs e) of
        Inr i \<Rightarrow>
          if i \<noteq> '''' then Some (i, e)
          else (case GenerateFileID H path (en_peer e) (en_fs e) of
                  Inl _ \<Rightarrow> None
                | Inr j \<Rightarrow> Some (j, e\<lparr>en_fs := SetFileID path j (en_fs e)\<rparr>))
      | Inl _ \<Rightarrow>
          (case GenerateFileID H path (en_peer e) (en_fs e) of
             Inl _ \<Rightarrow> None
           | Inr j \<Rightarrow> Some (j, e\<lparr>en_fs := SetFileID path j (en_fs e)\<rparr>)))"

definition getFileChecksum :: "(bytes \<Rightarrow> bytes) \<Rightarrow> string \<Rightarrow> engine \<Rightarrow> fs_error + string" where
  "getFileChecksum H path e = map_sum id (HashString H) (ReadFile path (en_fs e))"

text \<open>The row for a local file: time of the event, own peer id, no clock.\<close>

definition local_metadata :: "time \<Rightarrow> string \<Rightarrow> string \<Rightarrow> string \<Rightarrow> int64 \<Rightarrow> engine \<Rightarrow> file_metadata" where
  "local_metadata now fileID relPath checksum sz e =
     \<lparr>fm_file_id = fileID, fm_path = relPath, fm_checksum = checksum, fm_size = sz, fm_mtime = now,
      fm_mode = None, fm_peer_id = en_peer e, fm_vector_clock = None, fm_compressed = False,
      fm_original_size = None, fm_compression_algorithm = None, fm_created_at = zero_time,
      fm_updated_at = zero_time\<rparr>"

text \<open>
  In \<open>handleCreate\<close> the result of the rename detector is assigned to variables of an inner scope, so
  only the look-up by file id can make the event a rename; the detector's entry is still used up.
\<close>

definition handleCreate :: "(bytes \<Rightarrow> bytes) \<Rightarrow> time \<Rightarrow> string \<Rightarrow> engine \<Rightarrow> engine" where
  "handleCreate H now path e =
     (case file_id_for H path e of
        None \<Rightarrow> e
      | Some (fileID, e1) \<Rightarrow>
          (case (getFileChecksum H path e1, GetFileMetadata path (en_fs e1), Rel (en_folder e1) path) of
             (Inr checksum, Inr (sz, _, _), Some relPath) \<Rightarrow>
               (let renamed_from =
                      (if fileID \<noteq> '''' then
                         (case GetFileByID fileID (en_db e1) of
                            Inr f \<Rightarrow> if fm_path f \<noteq> relPath then Some (fm_path f) else None
                          | Inl _ \<Rightarrow> None)
                       else None)
                in case renamed_from of
                     Some oldPath \<Rightarrow>
                       queueOperation
                         ((NewSyncOperation now now OpRename relPath fileID (en_peer e1))
                            \<lparr>so_from_path := Some oldPath, so_checksum := checksum, so_size := sz\<rparr>) e1
                   | None \<Rightarrow>
                       (let e2 = e1\<lparr>en_renames := snd (CheckRename fileID checksum sz (en_renames e1)),
                                    en_db := InsertFile now (local_metadata now fileID relPath checksum sz e1)
                                       (en_db e1)\<rparr>
                        in queueOperation
                             ((NewSyncOperation now now OpCreate relPath fileID (en_peer e2))
                                \<lparr>so_checksum := checksum, so_size := sz\<rparr>) e2))
           | _ \<Rightarrow> e1))"

definition handleUpdate :: "(bytes \<Rightarrow> bytes) \<Rightarrow> time \<Rightarrow> string \<Rightarrow> engine \<Rightarrow> engine" where
  "handleUpdate H now path e =
     (case file_id_for H path e of
        None \<Rightarrow> e
      | Some (fileID, e1) \<Rightarrow>
          (case (getFileChecksum H path e1, GetFileMetadata path (en_fs e1), Rel (en_folder e1) path) of
             (Inr checksum, Inr (sz, _, _), Some relPath) \<Rightarrow>
               queueOperation
                 ((NewSyncOperation now now OpUpdate relPath fileID (en_peer e1))
                    \<lparr>so_checksum := checksum, so_size := sz\<rparr>)
                 (e1\<lparr>en_db := InsertFile now (local_metadata now fileID relPath checksum sz e1) (en_db e1)\<rparr>)
           | _ \<Rightarrow> e1))"

definition handleDelete :: "(bytes \<Rightarrow> bytes) \<Rightarrow> time \<Rightarrow> string \<Rightarrow> engine \<Rightarrow> engine" where
  "handleDelete H now path e =
     (case Rel (en_folder e) path of
        None \<Rightarrow> e
      | Some relPath \<Rightarrow>
          (case GetFileByPath relPath (en_db e) of
             Inr f \<Rightarrow>
               queueOperation (NewSyncOperation now now OpDelete relPath (fm_file_id f) (en_peer e))
                 (e\<lparr>en_renames := RecordDelete now (fm_file_id f) (fm_checksum f) path (fm_size f)
                       (fm_mtime f) (en_renames e)\<rparr>)
           | Inl _ \<Rightarrow>
               (case GenerateFileID H path (en_peer e) (en_fs e) of
                  Inl _ \<Rightarrow> e
                | Inr fileID \<Rightarrow>
                    queueOperation (NewSyncOperation now now OpDelete relPath fileID (en_peer e)) e)))"

definition handleRename :: "(bytes \<Rightarrow> bytes) \<Rightarrow> time \<Rightarrow> string \<Rightarrow> engine \<Rightarrow> engine" where
  "handleRename H now path e = handleCreate H now path e"

definition handleFileEvent :: "(bytes \<Rightarrow> bytes) \<Rightarrow> time \<Rightarrow> string \<Rightarrow> string \<Rightarrow> engine \<Rightarrow> engine" where
  "handleFileEvent H now operation path e =
     (if operation = ''create'' then handleCreate H now path e
      else if operation = ''update'' then handleUpdate H now path e
      else if operation = ''delete'' then handleDelete H now path e
      else if operation = ''rename'' then handleRename H now path e
      else e)"

section \<open>Changes from peers\<close>

definition IgnorePath :: "string \<Rightarrow> engine \<Rightarrow> engine" where
  "IgnorePath path e = e\<lparr>en_ignored := gm_put path True (en_ignored e)\<rparr>"

definition WatchPath :: "string \<Rightarrow> engine \<Rightarrow> engine" where
  "WatchPath path e = e\<lparr>en_ignored := gm_del path (en_ignored e)\<rparr>"

definition HandleIncomingFile :: "time \<Rightarrow> bytes \<Rightarrow> sync_op \<Rightarrow> engine \<Rightarrow> engine" where
  "HandleIncomingFile now fileData meta e =
     (let meta' = meta\<lparr>so_source := ''remote''\<rparr>;
          e1 = (if so_checksum meta' \<noteq> '''' then addRecentWrite now (so_checksum meta') e else e)
      in e1\<lparr>en_pending := en_pending e1 @ [(fileData, meta')]\<rparr>)"

definition vc_or_empty :: "vclock option \<Rightarrow> vclock" where
  "vc_or_empty vc = (case vc of None \<Rightarrow> [] | Some c \<Rightarrow> c)"

definition local_conflict_op :: "file_metadata \<Rightarrow> bytes \<Rightarrow> conflict_op" where
  "local_conflict_op f localData =
     \<lparr>co_id = '''', co_type = '''', co_path = fm_path f, co_from_path = None, co_file_id = fm_file_id f,
      co_checksum = fm_checksum f, co_size = fm_size f, co_timestamp = unix_milli (fm_mtime f),
      co_peer_id = fm_peer_id f, co_data = localData\<rparr>"

definition remote_conflict_op :: "sync_op \<Rightarrow> bytes \<Rightarrow> conflict_op" where
  "remote_conflict_op m fileData =
     \<lparr>co_id = '''', co_type = '''', co_path = so_path m, co_from_path = None, co_file_id = so_file_id m,
      co_checksum = so_checksum m, co_size = so_size m, co_timestamp = so_mtime m,
      co_peer_id = so_peer_id m, co_data = fileData\<rparr>"

definition incoming_metadata :: "sync_op \<Rightarrow> file_metadata" where
  "incoming_metadata m =
     \<lparr>fm_file_id = so_file_id m, fm_path = so_path m, fm_checksum = so_checksum m, fm_size = so_size m,
      fm_mtime = from_milli (so_mtime m), fm_mode = so_mode m, fm_peer_id = so_peer_id m,
      fm_vector_clock = so_vector_clock m,
      fm_compressed = (case so_compressed m of Some b \<Rightarrow> b | None \<Rightarrow> False),
      fm_original_size = so_original_size m, fm_compression_algorithm = so_compression_algorithm m,
      fm_created_at = zero_time, fm_updated_at = zero_time\<rparr>"

text \<open>Writing an incoming version: the file, its attribute, its row.\<close>

definition apply_incoming :: "time \<Rightarrow> string \<Rightarrow> string \<Rightarrow> bytes \<Rightarrow> sync_op \<Rightarrow> engine \<Rightarrow> engine" where
  "apply_incoming now tmp absPath fileData m e =
     (case atomicWriteFile tmp absPath fileData now (en_fs e) of
        (s, Some _) \<Rightarrow> e\<lparr>en_fs := s\<rparr>
      | (s, None) \<Rightarrow>
          e\<lparr>en_fs := SetFileID absPath (so_file_id m) s,
            en_db := InsertFile now (incoming_metadata m) (en_db e)\<rparr>)"

definition broadcast_op :: "time \<Rightarrow> string \<Rightarrow> string \<Rightarrow> string \<Rightarrow> int64 \<Rightarrow> int64 \<Rightarrow> string \<Rightarrow> bytes \<Rightarrow> vclock option \<Rightarrow> sync_op" where
  "broadcast_op now path fileID checksum sz mtime peerID data vc =
     zero_op\<lparr>so_id := generateOperationID now, so_type := OpUpdate, so_path := path, so_file_id := fileID,
       so_checksum := checksum, so_size := sz, so_mtime := mtime, so_peer_id := peerID,
       so_source := ''local'', so_data := data, so_vector_clock := vc\<rparr>"

text \<open>
  The conflict branch for a stored version \<open>f\<close> with another checksum. The local version wins: it is
  broadcast and nothing is written. A merge: the merged bytes are written and broadcast, whether or
  not the write succeeds. The remote version wins: it is written.
\<close>

definition resolve_incoming :: "time \<Rightarrow> string \<Rightarrow> string \<Rightarrow> bytes \<Rightarrow> sync_op \<Rightarrow> file_metadata \<Rightarrow> engine \<Rightarrow> engine" where
  "resolve_incoming now tmp absPath fileData m f e =
     (let localVC = vc_or_empty (fm_vector_clock f);
          remoteVC = vc_or_empty (so_vector_clock m);
          localData = (case ReadFile absPath (en_fs e) of Inr d \<Rightarrow> d | Inl _ \<Rightarrow> []);
          localOp = local_conflict_op f localData;
          remoteOp = remote_conflict_op m fileData;
          winner = ResolveConflict (en_resolver e) localOp remoteOp localVC remoteVC;
          isLocalWinner = (co_file_id winner = co_file_id localOp \<and> co_checksum winner = co_checksum localOp);
          isRemoteWinner = (co_file_id winner = co_file_id remoteOp \<and> co_checksum winner = co_checksum remoteOp);
          isMergeResult = (\<not> isLocalWinner \<and> \<not> isRemoteWinner)
      in if isLocalWinner then
           (case ReadFile absPath (en_fs e) of
              Inl _ \<Rightarrow> e
            | Inr d \<Rightarrow>
                send (broadcast_op now (so_path m) (fm_file_id f) (fm_checksum f) (fm_size f)
                        (unix_milli (fm_mtime f)) (en_peer e) d (Some localVC)) e)
         else if isMergeResult then
           (let m' = m\<lparr>so_data := co_data winner, so_checksum := co_checksum winner, so_size := co_size winner\<rparr>
            in send (broadcast_op now (so_path m') (so_file_id m') (so_checksum m') (so_size m')
                       (unix_milli now) (en_peer e) (co_data winner) (so_vector_clock m'))
                 (apply_incoming now tmp absPath (co_data winner) m' e))
         else apply_incoming now tmp absPath fileData m e)"

definition merge_clock :: "sync_op \<Rightarrow> engine \<Rightarrow> engine" where
  "merge_clock m e =
     (case so_vector_clock m of
        None \<Rightarrow> e
      | Some vc \<Rightarrow> e\<lparr>en_clock := vc_merge (en_clock e) vc\<rparr>)"

definition processIncomingFileAsync :: "time \<Rightarrow> string \<Rightarrow> bytes \<Rightarrow> sync_op \<Rightarrow> engine \<Rightarrow> engine" where
  "processIncomingFileAsync now tmp fileData m e =
     (let e0 = merge_clock m e;
          absPath = Join (en_folder e) (so_path m)
      in if so_type m = OpCreate \<or> so_type m = OpUpdate then
           (let e1 = IgnorePath absPath e0;
                e2 = (case GetFileByID (so_file_id m) (en_db e1) of
                        Inr f \<Rightarrow>
                          if fm_checksum f \<noteq> so_checksum m
                          then resolve_incoming now tmp absPath fileData m f e1
                          else apply_incoming now tmp absPath fileData m e1
                      | Inl _ \<Rightarrow> apply_incoming now tmp absPath fileData m e1)
            in WatchPath absPath e2)
         else if so_type m = OpDelete then
           (let e1 = IgnorePath absPath e0;
                e2 = (case RemoveFile absPath (en_fs e1) of
                        (s, Some err) \<Rightarrow>
                          if err \<noteq> NotExist then e1
                          else e1\<lparr>en_fs := s, en_db := fst (DeleteFile (so_file_id m) (en_db e1))\<rparr>
                      | (s, None) \<Rightarrow> e1\<lparr>en_fs := s, en_db := fst (DeleteFile (so_file_id m) (en_db e1))\<rparr>)
            in WatchPath absPath e2)
         else e0)"

text \<open>The scheduler runs one of the pending tasks.\<close>

definition run_pending :: "time \<Rightarrow> string \<Rightarrow> nat \<Rightarrow> engine \<Rightarrow> engine" where
  "run_pending now tmp i e =
     (if i < length (en_pending e) then
        (case en_pending e ! i of (fileData, m) \<Rightarrow>
           processIncomingFileAsync now tmp fileData m
             (e\<lparr>en_pending := take i (en_pending e) @ drop (Suc i) (en_pending e)\<rparr>))
      else e)"

datatype engine_error =
    MissingFromPath
  | RenameFailed string string fs_error
  | InvalidPayload
  | UnsupportedOperation string

text \<open>A rename from a peer: its row has no clock and no mode, and its clock is not merged.\<close>

definition HandleIncomingRename :: "time \<Rightarrow> sync_op \<Rightarrow> engine \<Rightarrow> engine \<times> engine_error option" where
  "HandleIncomingRename now meta e =
     (case so_from_path meta of
        None \<Rightarrow> (e, Some MissingFromPath)
      | Some from_rel \<Rightarrow>
          (let fromPath = Join (en_folder e) from_rel;
               toPath = Join (en_folder e) (so_path meta);
               e1 = IgnorePath toPath (IgnorePath fromPath e)
           in case RenameFile fromPath toPath (en_fs e1) of
                (_, Some err) \<Rightarrow> (WatchPath fromPath (WatchPath toPath e1), Some (RenameFailed fromPath toPath err))
              | (s, None) \<Rightarrow>
                  (WatchPath fromPath (WatchPath toPath
                     (e1\<lparr>en_fs := SetFileID toPath (so_file_id meta) s,
                         en_db := InsertFile now
                           ((incoming_metadata meta)\<lparr>fm_mode := None, fm_vector_clock := None\<rparr>)
                           (en_db e1)\<rparr>)), None)))"

record log_payload =
  pl_operation_id :: string
  pl_timestamp :: int64
  pl_type :: string
  pl_peer_id :: string
  pl_vector_clock :: "vclock option"
  pl_file_id :: "string option"
  pl_path :: string
  pl_from_path :: "string option"
  pl_checksum :: "string option"
  pl_size :: "int64 option"
  pl_mtime :: "int64 option"
  pl_mode :: "int option"
  pl_data :: bytes
  pl_compressed :: "bool option"
  pl_original_size :: "int64 option"
  pl_compression_algorithm :: "string option"

definition string_or_empty :: "string option \<Rightarrow> string" where
  "string_or_empty s = (case s of None \<Rightarrow> '''' | Some v \<Rightarrow> v)"

definition int_or_zero :: "int64 option \<Rightarrow> int64" where
  "int_or_zero n = (case n of None \<Rightarrow> 0 | Some v \<Rightarrow> v)"

definition payload_op :: "log_payload \<Rightarrow> sync_op" where
  "payload_op pl =
     zero_op\<lparr>so_id := pl_operation_id pl, so_type := pl_type pl, so_path := pl_path pl,
       so_peer_id := pl_peer_id pl, so_source := ''remote'', so_timestamp := pl_timestamp pl,
       so_file_id := string_or_empty (pl_file_id pl), so_checksum := string_or_empty (pl_checksum pl),
       so_size := int_or_zero (pl_size pl), so_mtime := int_or_zero (pl_mtime pl),
       so_from_path := pl_from_path pl, so_mode := pl_mode pl, so_compressed := pl_compressed pl,
       so_original_size := pl_original_size pl, so_compression_algorithm := pl_compression_algorithm pl\<rparr>"

text \<open>A message for the engine: a sync operation, with its payload if it has the right type, or another.\<close>

datatype engine_message = SyncOperationMessage "log_payload option" | OtherMessage

definition HandleMessage :: "time \<Rightarrow> engine_message \<Rightarrow> engine \<Rightarrow> engine \<times> engine_error option" where
  "HandleMessage now msg e =
     (case msg of
        OtherMessage \<Rightarrow> (e, None)
      | SyncOperationMessage None \<Rightarrow> (e, Some InvalidPayload)
      | SyncOperationMessage (Some pl) \<Rightarrow>
          (let op = payload_op pl
           in if so_type op = OpCreate \<or> so_type op = OpUpdate then
                (HandleIncomingFile now (pl_data pl) op e, None)
              else if so_type op = OpDelete then (HandleIncomingFile now [] op e, None)
              else if so_type op = OpRename then HandleIncomingRename now op e
              else (e, Some (UnsupportedOperation (so_type op)))))"

section \<open>Replay and periodic work\<close>

definition time_sec_or_zero :: "time option \<Rightarrow> int64" where
  "time_sec_or_zero t = (case t of None \<Rightarrow> 0 | Some v \<Rightarrow> unix_sec v)"

definition logEntryToSyncOperation :: "log_entry \<Rightarrow> sync_op" where
  "logEntryToSyncOperation le =
     zero_op\<lparr>so_id := le_operation_id le, so_type := le_type le, so_path := le_path le,
       so_file_id := string_or_empty (le_file_id le), so_checksum := string_or_empty (le_checksum le),
       so_size := int_or_zero (le_size le), so_timestamp := unix_sec (le_timestamp le),
       so_vector_clock := le_vector_clock le, so_peer_id := le_peer_id le, so_source := ''local'',
       so_mtime := time_sec_or_zero (le_mtime le), so_mode := le_mode le, so_data := le_data le,
       so_compressed := Some (le_compressed le), so_original_size := le_original_size le,
       so_compression_algorithm := le_compression_algorithm le, so_from_path := le_from_path le\<rparr>"

text \<open>\<open>ok\<close> says which broadcasts the messenger accepts; the counters are those of the log message.\<close>

fun replay_loop :: "(sync_op \<Rightarrow> bool) \<Rightarrow> log_entry list \<Rightarrow> engine \<times> nat \<times> nat \<Rightarrow> engine \<times> nat \<times> nat" where
  "replay_loop ok [] st = st"
| "replay_loop ok (le # les) (e, good, bad) =
     (let op = logEntryToSyncOperation le
      in if so_peer_id op = en_peer e then
           (if en_messenger e then
              replay_loop ok les (if ok op then (send op e, Suc good, bad) else (send op e, good, Suc bad))
            else replay_loop ok les (e, good, Suc bad))
         else replay_loop ok les (e, Suc good, bad))"

definition ReplayUnacknowledgedOperations :: "(sync_op \<Rightarrow> bool) \<Rightarrow> engine \<Rightarrow> engine \<times> nat \<times> nat" where
  "ReplayUnacknowledgedOperations ok e =
     (let operations = GetUnacknowledgedOperations (en_db e)
      in if length operations = 0 then (e, 0, 0) else replay_loop ok operations (e, 0, 0))"

definition maxLogEntries :: int where "maxLogEntries = 10000"

text \<open>One tick of \<open>periodicLogCompaction\<close> and of \<open>periodicStateSync\<close>, and \<open>Stop\<close>.\<close>

definition compaction_tick :: "engine \<Rightarrow> engine" where
  "compaction_tick e = e\<lparr>en_db := CompactLog maxLogEntries (en_db e)\<rparr>"

record manifest_entry =
  mf_file_id :: string
  mf_path :: string
  mf_hash :: string
  mf_size :: int64
  mf_mtime :: int64
  mf_last_modified_by :: string

text \<open>The manifest is built and only its length is logged; without a messenger it is not built.\<close>

definition syncStateWithPeers :: "engine \<Rightarrow> manifest_entry list option" where
  "syncStateWithPeers e =
     (if \<not> en_messenger e then None
      else Some (map (\<lambda>f. \<lparr>mf_file_id = fm_file_id f, mf_path = fm_path f, mf_hash = fm_checksum f,
                          mf_size = fm_size f, mf_mtime = unix_sec (fm_mtime f),
                          mf_last_modified_by = fm_peer_id f\<rparr>) (GetAllFiles (en_db e))))"

text \<open>\<open>Stop\<close> returns with the result of closing the watcher, before it reaches the rename detector.\<close>

definition Stop :: "engine \<Rightarrow> engine" where
  "Stop e = (if en_stopped e then e else e\<lparr>en_stopped := True\<rparr>)"

section \<open>The in-memory messenger\<close>

type_synonym network = "(string, engine) gomap"

datatype delivery = DeliverFile string bytes sync_op | DeliverRename string sync_op

definition RegisterEngine :: "string \<Rightarrow> engine \<Rightarrow> network \<Rightarrow> network" where
  "RegisterEngine peerID e net = gm_put peerID e net"

text \<open>The copy of an operation that is sent: clock, mode and data are not among the copied fields.\<close>

definition relayed_op :: "sync_op \<Rightarrow> sync_op" where
  "relayed_op op =
     zero_op\<lparr>so_id := so_id op, so_type := so_type op, so_path := so_path op, so_file_id := so_file_id op,
       so_timestamp := so_timestamp op, so_peer_id := so_peer_id op, so_source := ''remote''\<rparr>"

definition other_peers :: "sync_op \<Rightarrow> network \<Rightarrow> string list" where
  "other_peers op net = filter (\<lambda>p. p \<noteq> so_peer_id op) (map fst net)"

definition BroadcastOperation :: "network \<Rightarrow> sync_op \<Rightarrow> fs_error + delivery list" where
  "BroadcastOperation net op =
     (if so_type op = OpCreate \<or> so_type op = OpUpdate then
        (case map_of net (so_peer_id op) of
           None \<Rightarrow> Inr []
         | Some src \<Rightarrow>
             (case ReadFile (Join (en_folder src) (so_path op)) (en_fs src) of
                Inl err \<Rightarrow> Inl err
              | Inr fileData \<Rightarrow>
                  Inr (map (\<lambda>p. DeliverFile p fileData
                    ((relayed_op op)\<lparr>so_checksum := so_checksum op, so_size := so_size op,
                       so_mtime := so_mtime op\<rparr>)) (other_peers op net))))
      else if so_type op = OpDelete then
        Inr (map (\<lambda>p. DeliverFile p [] (relayed_op op)) (other_peers op net))
      else if so_type op = OpRename then
        Inr (map (\<lambda>p. DeliverRename p ((relayed_op op)\<lparr>so_from_path := so_from_path op,
               so_checksum := so_checksum op, so_size := so_size op, so_mtime := so_mtime op\<rparr>))
             (other_peers op net))
      else Inr [])"

text \<open>\<open>SendFile\<close> and the goroutine of one delivery.\<close>

definition SendFile :: "string \<Rightarrow> bytes \<Rightarrow> sync_op \<Rightarrow> network \<Rightarrow> delivery list" where
  "SendFile peerID fileData meta net =
     (case map_of net peerID of None \<Rightarrow> [] | Some _ \<Rightarrow> [DeliverFile peerID fileData meta])"

definition deliver :: "time \<Rightarrow> delivery \<Rightarrow> network \<Rightarrow> network" where
  "deliver now d net =
     (case d of
        DeliverFile p fileData m \<Rightarrow>
          (case map_of net p of None \<Rightarrow> net | Some e \<Rightarrow> gm_put p (HandleIncomingFile now fileData m e) net)
      | DeliverRename p m \<Rightarrow>
          (case map_of net p of None \<Rightarrow> net | Some e \<Rightarrow> gm_put p (fst (HandleIncomingRename now m e)) net))"

end
