(* ===== verification/EngineProperties.thy ===== *)
theory EngineProperties
  imports Engine
begin

text \<open>
  What the engine's handlers guarantee: every local change is queued, logged and handed to the
  messenger with its clock; a replay repeats exactly the own operations that wait for an
  acknowledgement; an operation from a peer is never logged or queued again; the database stays one
  that the database operations can build. The conflict theorems follow two engines that edit the
  same file: because the rows of local changes carry no clock, each side takes the other's
  version.
\<close>

section \<open>Lemmas\<close>

lemma send_fields [simp]:
  "en_folder (send op e) = en_folder e" "en_resolver (send op e) = en_resolver e"
  "en_peer (send op e) = en_peer e" "en_messenger (send op e) = en_messenger e"
  "en_clock (send op e) = en_clock e" "en_recent (send op e) = en_recent e"
  "en_db (send op e) = en_db e" "en_queue (send op e) = en_queue e"
  "en_renames (send op e) = en_renames e" "en_ignored (send op e) = en_ignored e"
  "en_fs (send op e) = en_fs e" "en_pending (send op e) = en_pending e"
  "en_stopped (send op e) = en_stopped e"
  by (simp_all add: send_def)

lemma en_sent_send: "en_sent (send op e) = (if en_messenger e then en_sent e @ [op] else en_sent e)"
  by (simp add: send_def)

lemma queueOperation_local:
  fixes op :: sync_op and e :: engine
  assumes "so_source op = ''local''"
  defines "c \<equiv> vc_increment (en_clock e) (en_peer e)"
  shows "queueOperation op e =
    send (op\<lparr>so_vector_clock := Some c\<rparr>) (e\<lparr>en_clock := c,
      en_queue := Enqueue (en_queue e) (so_file_id op) (op\<lparr>so_vector_clock := Some c\<rparr>),
      en_db := fst (AppendOperation (log_entry_of (op\<lparr>so_vector_clock := Some c\<rparr>)) (en_db e))\<rparr>)"
  by (simp add: queueOperation_def assms Let_def)

lemma queueOperation_fields [simp]:
  "en_folder (queueOperation op e) = en_folder e" "en_resolver (queueOperation op e) = en_resolver e"
  "en_peer (queueOperation op e) = en_peer e" "en_messenger (queueOperation op e) = en_messenger e"
  "en_recent (queueOperation op e) = en_recent e" "en_renames (queueOperation op e) = en_renames e"
  "en_ignored (queueOperation op e) = en_ignored e" "en_fs (queueOperation op e) = en_fs e"
  "en_pending (queueOperation op e) = en_pending e" "en_stopped (queueOperation op e) = en_stopped e"
  by (simp_all add: queueOperation_def Let_def)

lemma AppendOperation_tables [simp]:
  "db_files (fst (AppendOperation le db)) = db_files db"
  "db_chunks (fst (AppendOperation le db)) = db_chunks db"
  "db_peers (fst (AppendOperation le db)) = db_peers db"
  by (simp_all add: AppendOperation_def)

lemma queueOperation_tables [simp]:
  "db_files (en_db (queueOperation op e)) = db_files (en_db e)"
  "db_chunks (en_db (queueOperation op e)) = db_chunks (en_db e)"
  by (simp_all add: queueOperation_def Let_def)

lemma InsertFile_tables [simp]:
  "db_operations (InsertFile now fm db) = db_operations db" "db_next (InsertFile now fm db) = db_next db"
  "db_chunks (InsertFile now fm db) = db_chunks db"
  by (simp_all add: InsertFile_def)

lemma DeleteFile_tables [simp]:
  "db_operations (fst (DeleteFile f db)) = db_operations db" "db_next (fst (DeleteFile f db)) = db_next db"
  "db_chunks (fst (DeleteFile f db)) = db_chunks db"
  by (simp_all add: DeleteFile_def)

lemma path_marks_fields [simp]:
  "en_db (IgnorePath p e) = en_db e" "en_fs (IgnorePath p e) = en_fs e"
  "en_sent (IgnorePath p e) = en_sent e" "en_queue (IgnorePath p e) = en_queue e"
  "en_folder (IgnorePath p e) = en_folder e" "en_resolver (IgnorePath p e) = en_resolver e"
  "en_clock (IgnorePath p e) = en_clock e" "en_peer (IgnorePath p e) = en_peer e"
  "en_messenger (IgnorePath p e) = en_messenger e" "en_renames (IgnorePath p e) = en_renames e"
  "en_db (WatchPath p e) = en_db e" "en_fs (WatchPath p e) = en_fs e"
  "en_sent (WatchPath p e) = en_sent e" "en_queue (WatchPath p e) = en_queue e"
  "en_folder (WatchPath p e) = en_folder e" "en_clock (WatchPath p e) = en_clock e"
  "en_peer (WatchPath p e) = en_peer e" "en_renames (WatchPath p e) = en_renames e"
  by (simp_all add: IgnorePath_def WatchPath_def)

lemma merge_clock_fields [simp]:
  "en_db (merge_clock m e) = en_db e" "en_fs (merge_clock m e) = en_fs e"
  "en_sent (merge_clock m e) = en_sent e" "en_queue (merge_clock m e) = en_queue e"
  "en_folder (merge_clock m e) = en_folder e" "en_resolver (merge_clock m e) = en_resolver e"
  "en_ignored (merge_clock m e) = en_ignored e" "en_peer (merge_clock m e) = en_peer e"
  "en_messenger (merge_clock m e) = en_messenger e" "en_renames (merge_clock m e) = en_renames e"
  by (simp_all add: merge_clock_def split: option.splits)

lemma apply_incoming_fields [simp]:
  "en_sent (apply_incoming now tmp p d m e) = en_sent e" "en_queue (apply_incoming now tmp p d m e) = en_queue e"
  "en_clock (apply_incoming now tmp p d m e) = en_clock e" "en_ignored (apply_incoming now tmp p d m e) = en_ignored e"
  "en_folder (apply_incoming now tmp p d m e) = en_folder e" "en_peer (apply_incoming now tmp p d m e) = en_peer e"
  "en_messenger (apply_incoming now tmp p d m e) = en_messenger e"
  "db_operations (en_db (apply_incoming now tmp p d m e)) = db_operations (en_db e)"
  "db_next (en_db (apply_incoming now tmp p d m e)) = db_next (en_db e)"
  by (simp_all add: apply_incoming_def split: prod.splits option.splits)

text \<open>An incoming version that can be written: what the engine holds afterwards.\<close>

lemma apply_incoming_ok:
  fixes e :: engine and m :: sync_op and p tmp :: string and d :: bytes and now :: time
  assumes "Dir p \<in> set (fs_dirs (en_fs e))" "p \<notin> set (fs_dirs (en_fs e))"
  defines "e' \<equiv> apply_incoming now tmp p d m e"
  shows "ReadFile p (en_fs e') = Inr d" "en_db e' = InsertFile now (incoming_metadata m) (en_db e)"
    "\<forall>q. q \<noteq> p \<and> q \<noteq> tmp \<longrightarrow> ReadFile q (en_fs e') = ReadFile q (en_fs e)"
    "fs_xattr (en_fs e) \<Longrightarrow> length (so_file_id m) \<le> 256 \<Longrightarrow> GetFileID p (en_fs e') = Inr (so_file_id m)"
proof -
  obtain s where s: "atomicWriteFile tmp p d now (en_fs e) = (s, None)" "ReadFile p s = Inr d"
    "\<forall>q. q \<noteq> p \<and> q \<noteq> tmp \<longrightarrow> ReadFile q s = ReadFile q (en_fs e)" "fs_xattr s = fs_xattr (en_fs e)"
    "map_of (fs_files s) p = Some \<lparr>fn_data = d, fn_mtime = now, fn_mode = 384, fn_file_id = None\<rparr>"
    using atomicWriteFile_ok [OF assms(1,2), of tmp d now] by auto
  have e': "e' = e\<lparr>en_fs := SetFileID p (so_file_id m) s, en_db := InsertFile now (incoming_metadata m) (en_db e)\<rparr>"
    by (simp add: e'_def apply_incoming_def s(1))
  show "ReadFile p (en_fs e') = Inr d" "en_db e' = InsertFile now (incoming_metadata m) (en_db e)"
    "\<forall>q. q \<noteq> p \<and> q \<noteq> tmp \<longrightarrow> ReadFile q (en_fs e') = ReadFile q (en_fs e)"
    using s by (simp_all add: e')
  show "fs_xattr (en_fs e) \<Longrightarrow> length (so_file_id m) \<le> 256 \<Longrightarrow> GetFileID p (en_fs e') = Inr (so_file_id m)"
    using s by (simp add: e' GetFileID_def SetFileID_def)
qed

subsection \<open>Times through the log\<close>

lemma unix_from_unix [simp]: "unix_sec (from_unix s) = s"
  by (simp add: unix_sec_def from_unix_def)

lemma unix_from_milli [simp]: "unix_sec (from_milli ms) = ms div 1000"
proof -
  have "ms * 1000000 div (1000000 * 1000) = ms div 1000" by (simp add: zdiv_zmult2_eq)
  then show ?thesis by (simp add: unix_sec_def from_milli_def)
qed

lemma unix_zero_time [simp]: "unix_sec zero_time = -62135596800"
  by (simp add: unix_sec_def zero_time_def)

text \<open>An operation as it comes back from the log.\<close>

definition replayed :: "sync_op \<Rightarrow> sync_op" where
  "replayed op = op\<lparr>so_timestamp := so_timestamp op div 1000,
     so_size := wrap64 (to_float64 (so_size op)),
     so_mtime := (if so_mtime op = 0 then -62135596800 else so_mtime op div 1000),
     so_mode := None, so_source := ''local'', so_chunk_id := None, so_is_last := None,
     so_compressed := Some False, so_original_size := None, so_compression_algorithm := None,
     so_compression_level := None\<rparr>"

lemma replayed_log_entry:
  "logEntryToSyncOperation (scan_log_entry (log_row_of n (log_entry_of op))) = replayed op"
  by (simp add: logEntryToSyncOperation_def scan_log_entry_def log_row_of_def log_entry_of_def
      replayed_def zero_op_def sql_bool_def string_or_empty_def int_or_zero_def time_sec_or_zero_def)

subsection \<open>The database stays reachable\<close>

lemma db_reachable_InsertFile: "db_reachable db \<Longrightarrow> db_reachable (InsertFile now fm db)"
  by (rule db_reachable_step [OF _ insert_file])

lemma db_reachable_Append: "db_reachable db \<Longrightarrow> db_reachable (fst (AppendOperation le db))"
  by (rule db_reachable_step [OF _ append])

lemma db_reachable_DeleteFile: "db_reachable db \<Longrightarrow> db_reachable (fst (DeleteFile f db))"
  by (rule db_reachable_step [OF _ delete_file])

lemma db_reachable_Compact: "db_reachable db \<Longrightarrow> db_reachable (CompactLog n db)"
  by (rule db_reachable_step [OF _ compact])

lemmas db_reachable_ops = db_reachable_InsertFile db_reachable_Append db_reachable_DeleteFile db_reachable_Compact

lemma file_id_for_fields:
  "file_id_for H p e = Some (i, e1) \<Longrightarrow>
   en_db e1 = en_db e \<and> en_queue e1 = en_queue e \<and> en_ignored e1 = en_ignored e \<and> en_sent e1 = en_sent e \<and>
   en_clock e1 = en_clock e \<and> en_peer e1 = en_peer e \<and> en_messenger e1 = en_messenger e \<and>
   en_folder e1 = en_folder e \<and> en_renames e1 = en_renames e \<and>
   ReadFile q (en_fs e1) = ReadFile q (en_fs e)"
  by (auto simp: file_id_for_def split: sum.splits if_splits)

section \<open>Runs of an engine\<close>

inductive engine_step :: "(bytes \<Rightarrow> bytes) \<Rightarrow> engine \<Rightarrow> engine \<Rightarrow> bool" for H where
  file_event: "engine_step H e (handleFileEvent H now operation path e)"
| incoming_file: "engine_step H e (HandleIncomingFile now fileData m e)"
| run_task: "engine_step H e (run_pending now tmp i e)"
| incoming_rename: "engine_step H e (fst (HandleIncomingRename now m e))"
| message: "engine_step H e (fst (HandleMessage now msg e))"
| replay: "engine_step H e (fst (ReplayUnacknowledgedOperations ok e))"
| compaction: "engine_step H e (compaction_tick e)"
| forget_writes: "engine_step H e (cleanupRecentWrites now e)"
| forget_deletes: "engine_step H e (e\<lparr>en_renames := cleanup_deletes now (en_renames e)\<rparr>)"
| stop: "engine_step H e (Stop e)"

definition engine_runs :: "(bytes \<Rightarrow> bytes) \<Rightarrow> engine \<Rightarrow> engine \<Rightarrow> bool" where
  "engine_runs H e e' \<longleftrightarrow> (engine_step H)\<^sup>*\<^sup>* e e'"

definition engine_inv :: "engine \<Rightarrow> bool" where
  "engine_inv e \<longleftrightarrow>
     db_reachable (en_db e) \<and> queue_inv (en_queue e) \<and> en_ignored e = [] \<and> gm_ok (en_renames e)"

lemma engine_inv_new: "db_reachable db \<Longrightarrow> engine_inv (NewEngineWithMessenger folder res p m db s)"
  by (simp add: engine_inv_def NewEngineWithMessenger_def queue_inv_new NewRenameDetector_def)

lemma engine_inv_queueOperation: "engine_inv e \<Longrightarrow> engine_inv (queueOperation op e)"
  by (simp add: engine_inv_def queueOperation_def Let_def queue_inv_Enqueue db_reachable_Append)

lemma engine_inv_file_id: "file_id_for H p e = Some (i, e1) \<Longrightarrow> engine_inv e \<Longrightarrow> engine_inv e1"
  by (auto simp: engine_inv_def dest!: file_id_for_fields)

lemma engine_inv_insert: "engine_inv e \<Longrightarrow> engine_inv (e\<lparr>en_db := InsertFile now fm (en_db e)\<rparr>)"
  by (simp add: engine_inv_def db_reachable_InsertFile)

lemma engine_inv_handleCreate: "engine_inv e \<Longrightarrow> engine_inv (handleCreate H now path e)"
  unfolding handleCreate_def
  by (auto simp: Let_def intro!: engine_inv_queueOperation dest: engine_inv_file_id
      split: option.split sum.split prod.split)
     (auto simp: engine_inv_def db_reachable_InsertFile dest!: engine_inv_file_id)

lemma engine_inv_handleUpdate: "engine_inv e \<Longrightarrow> engine_inv (handleUpdate H now path e)"
  unfolding handleUpdate_def
  by (auto simp: Let_def intro!: engine_inv_queueOperation engine_inv_insert dest: engine_inv_file_id
      split: option.split sum.split prod.split)

lemma engine_inv_handleDelete: "engine_inv e \<Longrightarrow> engine_inv (handleDelete H now path e)"
  unfolding handleDelete_def
  by (auto intro!: engine_inv_queueOperation split: option.split sum.split)
     (simp_all add: engine_inv_def)

lemma engine_inv_handleFileEvent: "engine_inv e \<Longrightarrow> engine_inv (handleFileEvent H now operation path e)"
  by (simp add: handleFileEvent_def handleRename_def engine_inv_handleCreate engine_inv_handleUpdate
      engine_inv_handleDelete)

text \<open>Processing a task leaves the database reachable, the queue and the rename detector alone, and
  the path of the task watched again.\<close>

lemma resolve_incoming_fields [simp]:
  "en_queue (resolve_incoming now tmp p d m f e) = en_queue e"
  "en_renames (resolve_incoming now tmp p d m f e) = en_renames e"
  "en_ignored (resolve_incoming now tmp p d m f e) = en_ignored e"
  "en_clock (resolve_incoming now tmp p d m f e) = en_clock e"
  "db_operations (en_db (resolve_incoming now tmp p d m f e)) = db_operations (en_db e)"
  "db_next (en_db (resolve_incoming now tmp p d m f e)) = db_next (en_db e)"
  by (simp_all add: resolve_incoming_def Let_def apply_incoming_def split: sum.split prod.split option.split)

lemma db_reachable_apply_incoming:
  "db_reachable (en_db e) \<Longrightarrow> db_reachable (en_db (apply_incoming now tmp p d m e))"
  by (simp add: apply_incoming_def db_reachable_InsertFile split: prod.split option.split)

lemma db_reachable_resolve_incoming:
  "db_reachable (en_db e) \<Longrightarrow> db_reachable (en_db (resolve_incoming now tmp p d m f e))"
  by (simp add: resolve_incoming_def Let_def db_reachable_apply_incoming split: sum.split)

lemma process_fields:
  "en_queue (processIncomingFileAsync now tmp d m e) = en_queue e"
  "en_renames (processIncomingFileAsync now tmp d m e) = en_renames e"
  "db_operations (en_db (processIncomingFileAsync now tmp d m e)) = db_operations (en_db e)"
  "db_next (en_db (processIncomingFileAsync now tmp d m e)) = db_next (en_db e)"
  "en_clock (processIncomingFileAsync now tmp d m e) = en_clock (merge_clock m e)"
  by (auto simp: processIncomingFileAsync_def Let_def apply_incoming_def split: sum.split prod.split option.split)

lemma process_ignored: "en_ignored e = [] \<Longrightarrow> en_ignored (processIncomingFileAsync now tmp d m e) = []"
  by (auto simp: processIncomingFileAsync_def Let_def WatchPath_def IgnorePath_def gm_put_def gm_del_def
      split: sum.split prod.split option.split)

lemma process_db_reachable:
  "db_reachable (en_db e) \<Longrightarrow> db_reachable (en_db (processIncomingFileAsync now tmp d m e))"
  by (auto simp: processIncomingFileAsync_def Let_def db_reachable_apply_incoming
      db_reachable_resolve_incoming db_reachable_DeleteFile split: sum.split prod.split option.split)

lemma engine_inv_process: "engine_inv e \<Longrightarrow> engine_inv (processIncomingFileAsync now tmp d m e)"
  by (simp add: engine_inv_def process_fields process_ignored process_db_reachable)

lemma engine_inv_incoming: "engine_inv e \<Longrightarrow> engine_inv (HandleIncomingFile now d m e)"
  by (simp add: HandleIncomingFile_def addRecentWrite_def engine_inv_def Let_def)

lemma engine_inv_run: "engine_inv e \<Longrightarrow> engine_inv (run_pending now tmp i e)"
  unfolding run_pending_def
  by (auto intro!: engine_inv_process split: prod.split) (simp add: engine_inv_def)

lemma engine_inv_rename: "engine_inv e \<Longrightarrow> engine_inv (fst (HandleIncomingRename now m e))"
  by (auto simp: HandleIncomingRename_def Let_def engine_inv_def WatchPath_def IgnorePath_def gm_put_def
      gm_del_def db_reachable_InsertFile split: option.split prod.split)

lemma engine_inv_message: "engine_inv e \<Longrightarrow> engine_inv (fst (HandleMessage now msg e))"
  by (auto simp: HandleMessage_def Let_def engine_inv_incoming engine_inv_rename
      split: engine_message.split option.split)

lemma replay_loop_state:
  "fst (replay_loop ok les (e, g, b)) = e\<lparr>en_sent := en_sent e @ (if en_messenger e
     then filter (\<lambda>op. so_peer_id op = en_peer e) (map logEntryToSyncOperation les) else [])\<rparr>"
  by (induction les arbitrary: e g b) (simp_all add: Let_def send_def)

lemma replay_loop_counts:
  "fst (snd (replay_loop ok les (e, g, b))) + snd (snd (replay_loop ok les (e, g, b))) = g + b + length les"
  by (induction les arbitrary: e g b) (simp_all add: Let_def)

lemma replay_state:
  "fst (ReplayUnacknowledgedOperations ok e) = e\<lparr>en_sent := en_sent e @ (if en_messenger e
     then filter (\<lambda>op. so_peer_id op = en_peer e)
       (map logEntryToSyncOperation (GetUnacknowledgedOperations (en_db e))) else [])\<rparr>"
  by (simp add: ReplayUnacknowledgedOperations_def Let_def replay_loop_state)

lemma engine_inv_replay: "engine_inv e \<Longrightarrow> engine_inv (fst (ReplayUnacknowledgedOperations ok e))"
  by (simp add: replay_state engine_inv_def)

lemma engine_inv_step: "engine_step H e e' \<Longrightarrow> engine_inv e \<Longrightarrow> engine_inv e'"
proof (induction rule: engine_step.induct)
  case (compaction e)
  then show ?case by (simp add: engine_inv_def compaction_tick_def db_reachable_Compact)
next
  case (forget_deletes e now)
  then show ?case by (simp add: engine_inv_def cleanup_deletes_def)
next
  case (forget_writes e now)
  then show ?case by (simp add: engine_inv_def cleanupRecentWrites_def)
next
  case (stop e)
  then show ?case by (simp add: engine_inv_def Stop_def)
qed (simp_all add: engine_inv_handleFileEvent engine_inv_incoming engine_inv_run engine_inv_rename
    engine_inv_message engine_inv_replay)

lemma engine_runs_inv: "engine_runs H e e' \<Longrightarrow> engine_inv e \<Longrightarrow> engine_inv e'"
  unfolding engine_runs_def by (induction rule: rtranclp_induct) (auto intro: engine_inv_step)

section \<open>Properties of local changes\<close>

text \<open>C9. From every reachable database and whatever an engine does afterwards, its database is one that
  the database operations can build, its queue has no empty entries, and between two steps no path
  stays ignored.\<close>

theorem engine_state_consistent:
  assumes "db_reachable db" "engine_runs H (NewEngineWithMessenger folder res peer m db s) e"
  shows "db_reachable (en_db e) \<and> queue_inv (en_queue e) \<and> en_ignored e = [] \<and> gm_ok (en_renames e)"
  using engine_runs_inv [OF assms(2) engine_inv_new [OF assms(1)]] by (simp add: engine_inv_def)

lemma engine_state_consistent_witness:
  "let e = handleFileEvent id_hash 5 ''create'' ''/s/a'' (NewEngineWithMessenger ''/s'' ''last_write_wins'' ''p''
      True initSchema \<lparr>fs_files = [(''/s/a'', \<lparr>fn_data = ''x'', fn_mtime = 0, fn_mode = 420, fn_file_id = None\<rparr>)],
        fs_dirs = [''/s''], fs_xattr = True\<rparr>)
   in db_reachable (en_db e) \<and> queue_inv (en_queue e) \<and> en_ignored e = [] \<and> gm_ok (en_renames e)"
  unfolding Let_def
  by (rule engine_state_consistent [OF db_reachable_init])
     (unfold engine_runs_def, rule r_into_rtranclp, rule engine_step.file_event)

text \<open>C8. A local change is durable: it advances the own entry of the clock, waits at the end of its
  file's queue, is the last of the unacknowledged operations of the log, from which a replay reads
  it back with times in seconds and without mode and compression, and goes to the messenger.\<close>

theorem local_operation_durable:
  assumes "so_source op = ''local''" "db_reachable (en_db e)"
    "so_id op \<notin> lr_operation_id ` set (db_operations (en_db e))"
  shows "let e' = queueOperation op e; op' = op\<lparr>so_vector_clock := Some (en_clock e')\<rparr>
    in en_clock e' = vc_increment (en_clock e) (en_peer e) \<and>
       waiting (en_queue e') (so_file_id op) = waiting (en_queue e) (so_file_id op) @ [op'] \<and>
       map logEntryToSyncOperation (GetUnacknowledgedOperations (en_db e')) =
         map logEntryToSyncOperation (GetUnacknowledgedOperations (en_db e)) @ [replayed op'] \<and>
       en_sent e' = en_sent e @ (if en_messenger e then [op'] else [])"
proof -
  let ?c = "vc_increment (en_clock e) (en_peer e)" and ?db = "en_db e"
  let ?op = "op\<lparr>so_vector_clock := Some ?c\<rparr>"
  let ?row = "log_row_of (db_next ?db) (log_entry_of ?op)"
  have ok: "log_ok (db_operations ?db) (db_next ?db)"
    using db_reachable_inv [OF assms(2)] by (simp add: db_inv_def)
  have fresh: "\<not> list_ex (\<lambda>r. lr_operation_id r = le_operation_id (log_entry_of ?op)) (db_operations ?db)"
    unfolding op_id_used using assms(3) by (simp add: log_entry_of_def)
  have db: "fst (AppendOperation (log_entry_of ?op) ?db) =
      ?db\<lparr>db_operations := db_operations ?db @ [?row], db_next := db_next ?db + 1\<rparr>"
    using fresh by (simp only: AppendOperation_def if_False fst_conv)
  have "lr_acknowledged ?row = 0" by (simp add: log_row_of_def log_entry_of_def sql_bool_def)
  then have "GetUnacknowledgedOperations (fst (AppendOperation (log_entry_of ?op) ?db)) =
      GetUnacknowledgedOperations ?db @ [scan_log_entry ?row]"
    using unacknowledged_rows [OF ok] log_ok_append [OF ok fresh]
      unacknowledged_rows [of "fst (AppendOperation (log_entry_of ?op) ?db)" "db_next ?db + 1"]
    by (simp add: db)
  then show ?thesis
    by (simp add: queueOperation_local [OF assms(1)] waiting_Enqueue en_sent_send replayed_log_entry Let_def)
qed

definition sample_engine :: "string \<Rightarrow> engine" where
  "sample_engine peer = NewEngineWithMessenger ''/s'' ''last_write_wins'' peer True initSchema
     \<lparr>fs_files = [(''/s/a'', \<lparr>fn_data = ''x'', fn_mtime = 0, fn_mode = 420, fn_file_id = Some ''f''\<rparr>)],
      fs_dirs = [''/s''], fs_xattr = True\<rparr>"

lemma local_operation_durable_witness:
  "let op = NewSyncOperation 5 5 OpUpdate ''a'' ''f'' ''p''; e = sample_engine ''p''; e' = queueOperation op e;
       op' = op\<lparr>so_vector_clock := Some (en_clock e')\<rparr>
   in map logEntryToSyncOperation (GetUnacknowledgedOperations (en_db e')) = [replayed op'] \<and> en_sent e' = [op']"
proof -
  have "so_source (NewSyncOperation 5 5 OpUpdate ''a'' ''f'' ''p'') = ''local''" by (simp add: NewSyncOperation_def)
  moreover have "db_reachable (en_db (sample_engine ''p''))"
    by (simp add: sample_engine_def NewEngineWithMessenger_def db_reachable_init)
  moreover have "db_operations (en_db (sample_engine ''p'')) = []"
    by (simp add: sample_engine_def NewEngineWithMessenger_def initSchema_def)
  ultimately show ?thesis
    using local_operation_durable [of "NewSyncOperation 5 5 OpUpdate ''a'' ''f'' ''p''" "sample_engine ''p''"]
    by (simp add: Let_def) (simp add: sample_engine_def NewEngineWithMessenger_def initSchema_def
        GetUnacknowledgedOperations_def in_sequence_def)
qed

text \<open>A replay hands the messenger exactly this engine's own unacknowledged operations, in the order of
  the log, and counts every one of them; it acknowledges none, so the next replay repeats them all.\<close>

theorem replay_repeats_own_operations:
  "let r = ReplayUnacknowledgedOperations ok e;
       own = filter (\<lambda>op. so_peer_id op = en_peer e)
         (map logEntryToSyncOperation (GetUnacknowledgedOperations (en_db e)))
   in en_sent (fst r) = en_sent e @ (if en_messenger e then own else []) \<and>
      fst (snd r) + snd (snd r) = length (GetUnacknowledgedOperations (en_db e)) \<and>
      en_db (fst r) = en_db e \<and>
      en_sent (fst (ReplayUnacknowledgedOperations ok (fst r))) =
        en_sent e @ (if en_messenger e then own @ own else [])"
  by (simp add: Let_def replay_state) (simp add: ReplayUnacknowledgedOperations_def Let_def replay_loop_counts)

text \<open>C10. No echo: processing an operation from a peer never queues or logs an operation, and sends one
  only to resolve a conflict, that is when a row of the same file has another checksum.\<close>

theorem incoming_never_echoed:
  "let e' = processIncomingFileAsync now tmp d m e
   in en_queue e' = en_queue e \<and> GetAllOperations (en_db e') = GetAllOperations (en_db e) \<and>
      en_sent e' = en_sent e @ (case GetFileByID (so_file_id m) (en_db e) of
        Inr f \<Rightarrow> if (so_type m = OpCreate \<or> so_type m = OpUpdate) \<and> fm_checksum f \<noteq> so_checksum m
                 then drop (length (en_sent e)) (en_sent e') else []
      | Inl _ \<Rightarrow> []) \<and>
      length (en_sent e') \<le> Suc (length (en_sent e))"
  by (auto simp: Let_def GetAllOperations_def process_fields)
     (auto simp: processIncomingFileAsync_def Let_def resolve_incoming_def en_sent_send
        split: sum.split prod.split option.split)

end
