(* ===== verification/Convergence.thy ===== *)
theory Convergence
  imports EngineProperties
begin

text \<open>
  What happens to two versions of a file across engines: the normal application of an incoming
  change, the conflicts and how they are decided, deletions and renames, and two places where the
  engine trusts its input. The theorems rest on the field lemmas of \<open>EngineProperties\<close> and on
  the resolver.
\<close>

section \<open>Lemmas\<close>

lemma from_unix_sec_milli: "unix_sec (fm_mtime (incoming_metadata m)) = so_mtime m div 1000"
  by (simp add: incoming_metadata_def)

lemma process_write:
  assumes "so_type m = OpCreate \<or> so_type m = OpUpdate"
  shows "processIncomingFileAsync now tmp d m e =
    (let p = Join (en_folder e) (so_path m); e1 = IgnorePath p (merge_clock m e)
     in WatchPath p (case GetFileByID (so_file_id m) (en_db e) of
        Inr f \<Rightarrow> if fm_checksum f \<noteq> so_checksum m then resolve_incoming now tmp p d m f e1
                 else apply_incoming now tmp p d m e1
      | Inl _ \<Rightarrow> apply_incoming now tmp p d m e1))"
  using assms by (simp add: processIncomingFileAsync_def Let_def)

text \<open>The remote version wins whenever its clock is strictly above the stored one.\<close>

lemma resolve_incoming_remote:
  assumes "vc_le (vc_or_empty (fm_vector_clock f)) (vc_or_empty (so_vector_clock m))"
    "\<not> vc_le (vc_or_empty (so_vector_clock m)) (vc_or_empty (fm_vector_clock f))"
    "fm_checksum f \<noteq> so_checksum m"
  shows "resolve_incoming now tmp p d m f e = apply_incoming now tmp p d m e"
proof -
  have "ResolveConflict r op1 op2 (vc_or_empty (fm_vector_clock f)) (vc_or_empty (so_vector_clock m)) = op2"
    for r op1 op2
    using assms(1,2) by (simp add: ResolveConflict_def isConcurrent_def compareVectorClocks_eq vc_compare_alt)
  then show ?thesis
    using assms(3) by (simp add: resolve_incoming_def Let_def remote_conflict_op_def local_conflict_op_def)
qed

lemma empty_clock_below: "vc_nonneg c \<Longrightarrow> vc_le [] c"
  by (simp add: vc_le_def vc_nonneg_get)

lemma vc_le_empty_iff: "vc_le c [] \<longleftrightarrow> (\<forall>p. vc_get c p \<le> 0)"
  by (simp add: vc_le_def)

section \<open>Applying a change\<close>

text \<open>Without a row, or with a row of the same checksum, the incoming version is written.\<close>

lemma process_applied:
  assumes "so_type m = OpCreate \<or> so_type m = OpUpdate"
    and "case GetFileByID (so_file_id m) (en_db e) of Inl _ \<Rightarrow> True | Inr f \<Rightarrow> fm_checksum f = so_checksum m"
  shows "processIncomingFileAsync now tmp d m e = (let p = Join (en_folder e) (so_path m)
    in WatchPath p (apply_incoming now tmp p d m (IgnorePath p (merge_clock m e))))"
  using assms(2) unfolding process_write [OF assms(1)] Let_def by (auto split: sum.splits)


definition sample_update :: "string \<Rightarrow> string \<Rightarrow> sync_op" where
  "sample_update f rel = zero_op\<lparr>so_id := ''op-1'', so_type := OpUpdate, so_path := rel, so_file_id := f,
     so_checksum := ''c'', so_size := 1, so_peer_id := ''q'', so_vector_clock := Some [(''q'', 1)]\<rparr>"

lemma sample_paths: "Join ''/s'' ''a'' = ''/s/a''" "Dir ''/s/a'' = ''/s''" "Rel ''/s'' ''/s/a'' = Some ''a''"
  by code_simp+

lemma sample_update_fields [simp]:
  "so_type (sample_update f rel) = OpUpdate" "so_path (sample_update f rel) = rel"
  "so_file_id (sample_update f rel) = f" "so_checksum (sample_update f rel) = ''c''"
  "so_vector_clock (sample_update f rel) = Some [(''q'', 1)]"
  by (simp_all add: sample_update_def)

lemma sample_engine_fields [simp]:
  "en_folder (sample_engine p) = ''/s''" "en_db (sample_engine p) = initSchema"
  "fs_dirs (en_fs (sample_engine p)) = [''/s'']" "fs_xattr (en_fs (sample_engine p)) = True"
  "en_clock (sample_engine p) = []" "en_peer (sample_engine p) = p" "en_messenger (sample_engine p)"
  "en_sent (sample_engine p) = []"
  by (simp_all add: sample_engine_def NewEngineWithMessenger_def NewVectorClock_def)

lemma GetFileByID_init [simp]: "GetFileByID f initSchema = Inl (FileNotFound f)"
  by (simp add: GetFileByID_def initSchema_def newest_first_def)


section \<open>Conflicts\<close>

text \<open>A stored version without a clock never survives a conflict, whatever the strategy and the time
  stamps.\<close>

lemma row_without_clock_loses:
  assumes "so_type m = OpCreate \<or> so_type m = OpUpdate"
    and "GetFileByID (so_file_id m) (en_db e) = Inr f" "fm_vector_clock f = None" "fm_checksum f \<noteq> so_checksum m"
    and "so_vector_clock m = Some c" "vc_nonneg c" "0 < vc_get c q"
    and "p = Join (en_folder e) (so_path m)" "Dir p \<in> set (fs_dirs (en_fs e))" "p \<notin> set (fs_dirs (en_fs e))"
  shows "let e' = processIncomingFileAsync now tmp d m e
    in ReadFile p (en_fs e') = Inr d \<and> en_db e' = InsertFile now (incoming_metadata m) (en_db e) \<and>
       en_sent e' = en_sent e"
proof -
  let ?e1 = "IgnorePath p (merge_clock m e)"
  have "resolve_incoming now tmp p d m f ?e1 = apply_incoming now tmp p d m ?e1"
    using assms(3-7) by (intro resolve_incoming_remote)
      (auto simp: vc_or_empty_def empty_clock_below vc_le_empty_iff not_le)
  then have "processIncomingFileAsync now tmp d m e = WatchPath p (apply_incoming now tmp p d m ?e1)"
    using assms(2,4) unfolding process_write [OF assms(1)] Let_def assms(8) [symmetric] by simp
  moreover have "Dir p \<in> set (fs_dirs (en_fs ?e1))" "p \<notin> set (fs_dirs (en_fs ?e1))" using assms(9,10) by simp_all
  note apply_incoming_ok [OF this, where now = now and tmp = tmp and d = d and m = m]
  ultimately show ?thesis by (simp add: Let_def)
qed

text \<open>A file that the engine tracks: its id is in the attribute, its path is below the folder.\<close>

definition tracks :: "engine \<Rightarrow> string \<Rightarrow> string \<Rightarrow> string \<Rightarrow> bytes \<Rightarrow> bool" where
  "tracks e path rel f d \<longleftrightarrow>
     GetFileID path (en_fs e) = Inr f \<and> ReadFile path (en_fs e) = Inr d \<and> f \<noteq> '''' \<and>
     Rel (en_folder e) path = Some rel \<and> Join (en_folder e) rel = path \<and>
     Dir path \<in> set (fs_dirs (en_fs e)) \<and> path \<notin> set (fs_dirs (en_fs e)) \<and>
     en_messenger e \<and> gm_ok (db_files (en_db e)) \<and> vc_nonneg (en_clock e) \<and>
     in_int64 (vc_get (en_clock e) (en_peer e) + 1)"

lemma GetFileByID_InsertFile:
  "gm_ok (db_files db) \<Longrightarrow> \<exists>f. GetFileByID (fm_file_id fm) (InsertFile now fm db) = Inr f \<and>
     fm_vector_clock f = fm_vector_clock fm \<and> fm_checksum f = fm_checksum fm \<and> fm_path f = fm_path fm \<and> fm_size f = fm_size fm"
  by (simp add: GetFileByID_eq InsertFile_def upsert_file_def GetFile_def scan_file_def file_columns_of_def Let_def
      split: option.split)

lemma tracked_update:
  fixes H :: "bytes \<Rightarrow> bytes" and now :: time and path rel f :: string and d :: bytes and e :: engine
  assumes "tracks e path rel f d"
  defines "e' \<equiv> handleUpdate H now path e" and "c \<equiv> vc_increment (en_clock e) (en_peer e)"
  shows "\<exists>op. en_sent e' = en_sent e @ [op] \<and> so_type op = OpUpdate \<and> so_path op = rel \<and> so_file_id op = f \<and>
      so_checksum op = HashString H d \<and> so_vector_clock op = Some c"
    "\<exists>row. GetFileByID f (en_db e') = Inr row \<and> fm_vector_clock row = None \<and> fm_checksum row = HashString H d"
    "en_fs e' = en_fs e" "en_folder e' = en_folder e" "en_messenger e' = en_messenger e"
    "vc_nonneg c" "0 < vc_get c (en_peer e)"
proof -
  obtain sz mt mo where meta: "GetFileMetadata path (en_fs e) = Inr (sz, mt, mo)"
    using assms(1) unfolding tracks_def ReadFile_def GetFileMetadata_def by (auto split: option.splits)
  have id: "file_id_for H path e = Some (f, e)" using assms(1) by (simp add: tracks_def file_id_for_def)
  have sum: "getFileChecksum H path e = Inr (HashString H d)"
    using assms(1) by (simp add: tracks_def getFileChecksum_def)
  have e': "e' = queueOperation ((NewSyncOperation now now OpUpdate rel f (en_peer e))
      \<lparr>so_checksum := HashString H d, so_size := sz\<rparr>)
      (e\<lparr>en_db := InsertFile now (local_metadata now f rel (HashString H d) sz e) (en_db e)\<rparr>)"
    using assms(1) by (simp add: e'_def handleUpdate_def id sum meta tracks_def)
  show "\<exists>op. en_sent e' = en_sent e @ [op] \<and> so_type op = OpUpdate \<and> so_path op = rel \<and> so_file_id op = f \<and>
      so_checksum op = HashString H d \<and> so_vector_clock op = Some c"
    using assms(1) by (simp add: e' queueOperation_local NewSyncOperation_def en_sent_send tracks_def c_def zero_op_def)
  show "en_fs e' = en_fs e" "en_folder e' = en_folder e" "en_messenger e' = en_messenger e" by (simp_all add: e')
  have "GetFileByID f (en_db e') = GetFileByID f (InsertFile now (local_metadata now f rel (HashString H d) sz e) (en_db e))"
    by (simp add: e' GetFileByID_def)
  then show "\<exists>row. GetFileByID f (en_db e') = Inr row \<and> fm_vector_clock row = None \<and> fm_checksum row = HashString H d"
    using GetFileByID_InsertFile [of "en_db e" "local_metadata now f rel (HashString H d) sz e" now] assms(1)
    by (auto simp: tracks_def local_metadata_def)
  show "vc_nonneg c" using assms(1) by (simp add: tracks_def c_def vc_nonneg_increment)
  show "0 < vc_get c (en_peer e)"
    using assms(1) vc_nonneg_get [of "en_clock e" "en_peer e"] by (simp add: tracks_def c_def vc_get_increment)
qed

text \<open>Both engines of a pair track the file under the same id and relative path.\<close>

lemma tracked_loses:
  assumes "tracks e path rel f d" "HashString H d \<noteq> so_checksum op"
    and "so_type op = OpUpdate" "so_path op = rel" "so_file_id op = f" "so_vector_clock op = Some c"
    and "vc_nonneg c" "0 < vc_get c q"
  shows "let e' = handleUpdate H now path e; e'' = processIncomingFileAsync now' tmp d' op e'
    in ReadFile path (en_fs e'') = Inr d' \<and> en_sent e'' = en_sent e'"
proof -
  note u = tracked_update(1-5) [OF assms(1), of H now]
  obtain row where row: "GetFileByID f (en_db (handleUpdate H now path e)) = Inr row"
    "fm_vector_clock row = None" "fm_checksum row = HashString H d" using u(2) by blast
  show ?thesis unfolding Let_def
    using row_without_clock_loses [where m = op and e = "handleUpdate H now path e" and f = row and c = c
        and q = q and p = path and now = now' and tmp = tmp and d = d'] row u(3,4) assms
    by (simp add: tracks_def Let_def)
qed

text \<open>C3. Concurrent edits of one file on two peers do not converge: because the row of a local edit
  stores no clock, each engine takes the other's version as newer, so after both messages the
  contents are swapped, and neither engine sends anything that would end this.\<close>

theorem concurrent_edits_swap:
  assumes "tracks a pa rel f da" "tracks b pb rel f db'" "HashString H da \<noteq> HashString H db'"
  shows "let a1 = handleUpdate H t pa a; b1 = handleUpdate H u pb b;
      a2 = processIncomingFileAsync t' tmp db' (last (en_sent b1)) a1;
      b2 = processIncomingFileAsync u' tmp' da (last (en_sent a1)) b1
    in ReadFile pa (en_fs a2) = Inr db' \<and> ReadFile pb (en_fs b2) = Inr da \<and>
       en_sent a2 = en_sent a1 \<and> en_sent b2 = en_sent b1"
proof -
  obtain oa ob where o: "en_sent (handleUpdate H t pa a) = en_sent a @ [oa]" "so_type oa = OpUpdate"
    "so_path oa = rel" "so_file_id oa = f" "so_checksum oa = HashString H da"
    "so_vector_clock oa = Some (vc_increment (en_clock a) (en_peer a))"
    "en_sent (handleUpdate H u pb b) = en_sent b @ [ob]" "so_type ob = OpUpdate"
    "so_path ob = rel" "so_file_id ob = f" "so_checksum ob = HashString H db'"
    "so_vector_clock ob = Some (vc_increment (en_clock b) (en_peer b))"
    using tracked_update(1) [OF assms(1), of H t] tracked_update(1) [OF assms(2), of H u] by blast
  show ?thesis
    using tracked_loses [OF assms(1) _ o(8-10) o(12) tracked_update(6,7) [OF assms(2)],
        where H = H and now = t and now' = t' and tmp = tmp and d' = db']
      tracked_loses [OF assms(2) _ o(2-4) o(6) tracked_update(6,7) [OF assms(1)],
        where H = H and now = u and now' = u' and tmp = tmp' and d' = da]
    by (simp add: o(1,5,7,11) assms(3) assms(3) [symmetric] Let_def)
qed

definition sample_other :: "string \<Rightarrow> engine" where
  "sample_other peer = (sample_engine peer)\<lparr>en_fs :=
     \<lparr>fs_files = [(''/s/a'', \<lparr>fn_data = ''y'', fn_mtime = 0, fn_mode = 420, fn_file_id = Some ''f''\<rparr>)],
      fs_dirs = [''/s''], fs_xattr = True\<rparr>\<rparr>"

lemma sample_tracks:
  "tracks (sample_engine p) ''/s/a'' ''a'' ''f'' ''x''" "tracks (sample_other p) ''/s/a'' ''a'' ''f'' ''y''"
  by (simp_all add: tracks_def sample_other_def sample_paths)
     (simp_all add: sample_engine_def NewEngineWithMessenger_def GetFileID_def ReadFile_def initSchema_def in_int64_def)

lemma sample_hash: "HashString id_hash ''x'' \<noteq> HashString id_hash ''y''"
  by code_simp

lemma concurrent_edits_swap_witness:
  "let a1 = handleUpdate id_hash 1 ''/s/a'' (sample_engine ''p''); b1 = handleUpdate id_hash 2 ''/s/a'' (sample_other ''q'');
      a2 = processIncomingFileAsync 3 ''/s/t'' ''y'' (last (en_sent b1)) a1;
      b2 = processIncomingFileAsync 4 ''/s/t'' ''x'' (last (en_sent a1)) b1
    in ReadFile ''/s/a'' (en_fs a2) = Inr ''y'' \<and> ReadFile ''/s/a'' (en_fs b2) = Inr ''x'' \<and>
       en_sent a2 = en_sent a1 \<and> en_sent b2 = en_sent b1"
  by (rule concurrent_edits_swap [OF sample_tracks sample_hash])

end
