(* ===== verification/Propagation.thy ===== *)
theory Propagation
  imports Convergence
begin

text \<open>
  Single changes as they travel: a new file through the in-memory messenger to another engine, a
  deletion that arrives, and what deletions and renames leave in the local index; the paths that an
  incoming operation may name; the cache of recent writes.
\<close>

section \<open>A new file reaches the other engine\<close>

lemma tracked_create:
  fixes H :: "bytes \<Rightarrow> bytes" and now :: time and path rel f :: string and d :: bytes and e :: engine
  assumes "tracks e path rel f d" "GetFileByID f (en_db e) = Inl err"
  defines "e' \<equiv> handleCreate H now path e"
  shows "\<exists>op. en_sent e' = en_sent e @ [op] \<and> so_type op = OpCreate \<and> so_path op = rel \<and> so_file_id op = f \<and>
      so_checksum op = HashString H d \<and> so_peer_id op = en_peer e"
    "en_fs e' = en_fs e" "en_folder e' = en_folder e"
proof -
  obtain sz mt mo where meta: "GetFileMetadata path (en_fs e) = Inr (sz, mt, mo)"
    using assms(1) unfolding tracks_def ReadFile_def GetFileMetadata_def by (auto split: option.splits)
  have id: "file_id_for H path e = Some (f, e)" using assms(1) by (simp add: tracks_def file_id_for_def)
  have sum: "getFileChecksum H path e = Inr (HashString H d)"
    using assms(1) by (simp add: tracks_def getFileChecksum_def)
  have e': "e' = queueOperation ((NewSyncOperation now now OpCreate rel f (en_peer e))
      \<lparr>so_checksum := HashString H d, so_size := sz\<rparr>)
      (e\<lparr>en_renames := snd (CheckRename f (HashString H d) sz (en_renames e)),
         en_db := InsertFile now (local_metadata now f rel (HashString H d) sz e) (en_db e)\<rparr>)"
    using assms(1,2) by (simp add: e'_def handleCreate_def id sum meta tracks_def Let_def)
  show "\<exists>op. en_sent e' = en_sent e @ [op] \<and> so_type op = OpCreate \<and> so_path op = rel \<and> so_file_id op = f \<and>
      so_checksum op = HashString H d \<and> so_peer_id op = en_peer e"
    using assms(1) by (simp add: e' queueOperation_local NewSyncOperation_def en_sent_send tracks_def zero_op_def)
  show "en_fs e' = en_fs e" "en_folder e' = en_folder e" by (simp_all add: e')
qed

lemma run_last_pending:
  "run_pending now tmp (length (en_pending e)) (HandleIncomingFile t d m e) =
     processIncomingFileAsync now tmp d (m\<lparr>so_source := ''remote''\<rparr>)
       (if so_checksum m \<noteq> '''' then addRecentWrite t (so_checksum m) e else e)"
  by (simp add: run_pending_def HandleIncomingFile_def addRecentWrite_def Let_def)


lemma gm_ok_init [simp]: "gm_ok (db_files initSchema)"
  by (simp add: initSchema_def)


section \<open>Deletions\<close>

text \<open>A deletion from a peer removes the file and its row, unless chunk rows refer to that row, and
  touches no other file; if the file is already gone the row is still deleted.\<close>

theorem incoming_delete_removes:
  assumes "so_type m = OpDelete" "p = Join (en_folder e) (so_path m)" "p \<notin> set (fs_dirs (en_fs e))"
    and "\<not> list_ex (\<lambda>((f, _), _). f = so_file_id m) (db_chunks (en_db e))"
  shows "let e' = processIncomingFileAsync now tmp d m e
    in ReadFile p (en_fs e') = Inl NotExist \<and> GetFile (so_file_id m) (en_db e') = Inl (FileNotFound (so_file_id m)) \<and>
       (q \<noteq> p \<longrightarrow> ReadFile q (en_fs e') = ReadFile q (en_fs e)) \<and> en_sent e' = en_sent e"
proof -
  have "\<exists>s err. RemoveFile p (en_fs e) = (s, err) \<and> (err = None \<or> err = Some NotExist) \<and> ReadFile p s = Inl NotExist \<and>
      (\<forall>q. q \<noteq> p \<longrightarrow> ReadFile q s = ReadFile q (en_fs e))"
    using assms(3) by (auto simp: RemoveFile_def ReadFile_def split: option.splits)
  then obtain s err where s: "RemoveFile p (en_fs e) = (s, err)" "err = None \<or> err = Some NotExist"
    "ReadFile p s = Inl NotExist" "\<forall>q. q \<noteq> p \<longrightarrow> ReadFile q s = ReadFile q (en_fs e)" by blast
  have e': "processIncomingFileAsync now tmp d m e = WatchPath p ((IgnorePath p (merge_clock m e))
      \<lparr>en_fs := s, en_db := fst (DeleteFile (so_file_id m) (en_db e))\<rparr>)"
    using s(1,2) assms(1) unfolding processIncomingFileAsync_def assms(2) [symmetric] Let_def
    by (auto simp: OpDelete_def OpCreate_def OpUpdate_def)
  have "GetFile (so_file_id m) (fst (DeleteFile (so_file_id m) (en_db e))) = Inl (FileNotFound (so_file_id m))"
    using assms(4) by (simp add: DeleteFile_def GetFile_def)
  then show ?thesis using s(3,4) by (simp add: e' Let_def)
qed

lemma incoming_delete_removes_witness:
  "let e' = processIncomingFileAsync 9 ''/s'' [] ((sample_update ''f'' ''a'')\<lparr>so_type := OpDelete\<rparr>) (sample_engine ''p'')
   in ReadFile ''/s/a'' (en_fs e') = Inl NotExist \<and> en_sent e' = []"
  using incoming_delete_removes [where m = "(sample_update ''f'' ''a'')\<lparr>so_type := OpDelete\<rparr>" and e = "sample_engine ''p''"
      and p = "''/s/a''" and q = "''/s''" and now = 9 and tmp = "''/s''" and d = "[]"]
  by (simp add: sample_paths initSchema_def Let_def)

text \<open>A local deletion leaves the index as it is: the row of the deleted file stays, so the manifest
  that the engine builds for its peers still lists the file.\<close>

theorem local_delete_keeps_row:
  "db_files (en_db (handleDelete H now path e)) = db_files (en_db e) \<and>
   syncStateWithPeers (handleDelete H now path e) = syncStateWithPeers e"
proof -
  have "db_files (en_db (handleDelete H now path e)) = db_files (en_db e) \<and>
      en_messenger (handleDelete H now path e) = en_messenger e"
    by (simp add: handleDelete_def split: option.split sum.split)
  then show ?thesis by (simp add: syncStateWithPeers_def GetAllFiles_def)
qed

section \<open>Renames\<close>

lemma rename_event:
  assumes "GetFileID path (en_fs e) = Inr f" "ReadFile path (en_fs e) = Inr d" "f \<noteq> ''''"
    "Rel (en_folder e) path = Some rel" "GetFileByID f (en_db e) = Inr row" "fm_path row \<noteq> rel"
  shows "\<exists>op. handleCreate H now path e = queueOperation op e \<and> so_source op = ''local'' \<and> so_type op = OpRename \<and>
    so_from_path op = Some (fm_path row) \<and> so_path op = rel \<and> so_file_id op = f"
proof -
  obtain sz mt mo where meta: "GetFileMetadata path (en_fs e) = Inr (sz, mt, mo)"
    using assms(2) unfolding ReadFile_def GetFileMetadata_def by (auto split: option.splits)
  have id: "file_id_for H path e = Some (f, e)" using assms(1,3) by (simp add: file_id_for_def)
  have sum: "getFileChecksum H path e = Inr (HashString H d)" using assms(2) by (simp add: getFileChecksum_def)
  have "handleCreate H now path e = queueOperation ((NewSyncOperation now now OpRename rel f (en_peer e))
      \<lparr>so_from_path := Some (fm_path row), so_checksum := HashString H d, so_size := sz\<rparr>) e"
    using assms by (simp add: handleCreate_def id sum meta Let_def)
  then show ?thesis
    by (intro exI [where x = "(NewSyncOperation now now OpRename rel f (en_peer e))
      \<lparr>so_from_path := Some (fm_path row), so_checksum := HashString H d, so_size := sz\<rparr>"])
       (simp add: NewSyncOperation_def zero_op_def)
qed

lemma queueOperation_sent:
  "so_source op = ''local'' \<Longrightarrow> en_messenger e \<Longrightarrow> \<exists>c. en_sent (queueOperation op e) = en_sent e @ [op\<lparr>so_vector_clock := Some c\<rparr>]"
  by (rule exI [where x = "vc_increment (en_clock e) (en_peer e)"]) (simp add: queueOperation_local en_sent_send)

text \<open>A file whose stored row names another path is reported as a rename from that path, with the
  same id; the row keeps the old path, so a later create or rename event for the file at its new
  path reports the same rename again.\<close>

theorem rename_reported_again:
  assumes "tracks e path rel f d" "GetFileByID f (en_db e) = Inr row" "fm_path row \<noteq> rel"
  shows "let e' = handleCreate H now path e; e'' = handleRename H now' path e'
    in (\<exists>op. en_sent e' = en_sent e @ [op] \<and> so_type op = OpRename \<and> so_from_path op = Some (fm_path row) \<and>
          so_path op = rel \<and> so_file_id op = f) \<and>
       (\<exists>op. en_sent e'' = en_sent e' @ [op] \<and> so_type op = OpRename \<and> so_from_path op = Some (fm_path row) \<and>
          so_path op = rel \<and> so_file_id op = f) \<and>
       GetFileByID f (en_db e'') = Inr row"
proof -
  have t: "GetFileID path (en_fs e) = Inr f" "ReadFile path (en_fs e) = Inr d" "f \<noteq> ''''"
    "Rel (en_folder e) path = Some rel" "en_messenger e" using assms(1) by (simp_all add: tracks_def)
  obtain o1 where o1: "handleCreate H now path e = queueOperation o1 e" "so_source o1 = ''local''" "so_type o1 = OpRename"
    "so_from_path o1 = Some (fm_path row)" "so_path o1 = rel" "so_file_id o1 = f"
    using rename_event [OF t(1-4) assms(2,3), of H now] by blast
  let ?e = "queueOperation o1 e"
  have row: "GetFileByID f (en_db (queueOperation op e0)) = GetFileByID f (en_db e0)" for op e0
    by (simp add: GetFileByID_def)
  have t': "GetFileID path (en_fs ?e) = Inr f" "ReadFile path (en_fs ?e) = Inr d"
    "Rel (en_folder ?e) path = Some rel" "GetFileByID f (en_db ?e) = Inr row" using t assms(2) row by simp_all
  obtain o2 where o2: "handleCreate H now' path ?e = queueOperation o2 ?e" "so_source o2 = ''local''"
    "so_type o2 = OpRename" "so_from_path o2 = Some (fm_path row)" "so_path o2 = rel" "so_file_id o2 = f"
    using rename_event [OF t'(1,2) t(3) t'(3,4) assms(3), of H now'] by blast
  obtain c1 c2 where "en_sent ?e = en_sent e @ [o1\<lparr>so_vector_clock := Some c1\<rparr>]"
    "en_sent (queueOperation o2 ?e) = en_sent ?e @ [o2\<lparr>so_vector_clock := Some c2\<rparr>]"
    using queueOperation_sent [OF o1(2) t(5)] queueOperation_sent [OF o2(2), of ?e] t(5) by auto
  then show ?thesis using o1(3-6) o2(3-6) row t'(4) by (simp add: handleRename_def o1(1) o2(1) Let_def)
qed

definition sample_renamed :: engine where
  "sample_renamed = (sample_engine ''p'')\<lparr>en_db := InsertFile 1
     (local_metadata 1 ''f'' ''b'' ''c'' 1 (sample_engine ''p'')) initSchema\<rparr>"

lemma sample_renamed_tracks: "tracks sample_renamed ''/s/a'' ''a'' ''f'' ''x''"
  using sample_tracks(1) [of "''p''"]
  by (simp add: tracks_def sample_renamed_def InsertFile_def upsert_file_def)

lemma sample_renamed_row:
  "\<exists>row. GetFileByID ''f'' (en_db sample_renamed) = Inr row \<and> fm_path row = ''b''"
  using GetFileByID_InsertFile [of initSchema "local_metadata 1 ''f'' ''b'' ''c'' 1 (sample_engine ''p'')" 1]
  by (auto simp: sample_renamed_def local_metadata_def)

lemma rename_reported_again_witness:
  "\<exists>op. en_sent (handleRename id_hash 3 ''/s/a'' (handleCreate id_hash 2 ''/s/a'' sample_renamed)) =
     en_sent (handleCreate id_hash 2 ''/s/a'' sample_renamed) @ [op] \<and> so_type op = OpRename \<and> so_from_path op = Some ''b''"
proof -
  obtain row where row: "GetFileByID ''f'' (en_db sample_renamed) = Inr row" "fm_path row = ''b''"
    using sample_renamed_row by blast
  then have "fm_path row \<noteq> ''a''" by simp
  from rename_reported_again [OF sample_renamed_tracks row(1) this, of id_hash 2 3] row(2)
  show ?thesis unfolding Let_def by auto
qed

section \<open>Paths\<close>

text \<open>The path of an incoming operation is not checked: an operation for \<^verbatim>\<open>../name\<close> writes its bytes
  beside the folder that is synchronised.\<close>

theorem incoming_path_escapes:
  assumes "\<forall>c \<in> set (ds @ [g, name]). plain c" "en_folder e = abs_folder (ds @ [g])"
    and "so_type m = OpCreate" "so_path m = ''../'' @ name" "GetFileByID (so_file_id m) (en_db e) = Inl err"
    and "Dir (abs_folder (ds @ [name])) \<in> set (fs_dirs (en_fs e))" "abs_folder (ds @ [name]) \<notin> set (fs_dirs (en_fs e))"
  shows "ReadFile (abs_folder (ds @ [name])) (en_fs (processIncomingFileAsync now tmp d m e)) = Inr d"
proof -
  let ?p = "abs_folder (ds @ [name])"
  have "split_path (''../'' @ name) = [''..'', name]"
    using assms(1) split_path_append [of "''..''" name] split_join_path [of "[name]"] split_join_path [of "[''..'']"]
    by (simp add: plain_def join_path_def slash_def)
  then have j: "Join (en_folder e) (so_path m) = ?p"
    using assms(1) by (simp add: assms(2,4) Join_abs plain_def)
  have "case GetFileByID (so_file_id m) (en_db e) of Inl _ \<Rightarrow> True | Inr g \<Rightarrow> fm_checksum g = so_checksum m"
    by (simp add: assms(5))
  note e' = process_applied [OF disjI1 [OF assms(3)] this, of now tmp d, unfolded j Let_def]
  have "Dir ?p \<in> set (fs_dirs (en_fs (IgnorePath ?p (merge_clock m e))))"
    "?p \<notin> set (fs_dirs (en_fs (IgnorePath ?p (merge_clock m e))))" using assms(6,7) by simp_all
  note apply_incoming_ok(1) [OF this, where now = now and tmp = tmp and d = d and m = m]
  then show ?thesis by (simp add: e')
qed

lemma incoming_path_escapes_witness:
  "ReadFile ''/t'' (en_fs (processIncomingFileAsync 9 ''/t.tmp'' ''new'' ((sample_update ''g'' ''../t'')\<lparr>so_type := OpCreate\<rparr>)
     ((sample_engine ''p'')\<lparr>en_fs := \<lparr>fs_files = [], fs_dirs = [''/'', ''/s''], fs_xattr = True\<rparr>\<rparr>))) = Inr ''new''"
proof -
  have c: "abs_folder [''s''] = ''/s''" "abs_folder [''t''] = ''/t''" "Dir ''/t'' = ''/''"
    "plain ''s''" "plain ''t''" by code_simp+
  show ?thesis
    using incoming_path_escapes [where ds = "[]" and g = "''s''" and name = "''t''"
        and m = "(sample_update ''g'' ''../t'')\<lparr>so_type := OpCreate\<rparr>" and now = 9 and tmp = "''/t.tmp''" and d = "''new''"
        and e = "(sample_engine ''p'')\<lparr>en_fs := \<lparr>fs_files = [], fs_dirs = [''/'', ''/s''], fs_xattr = True\<rparr>\<rparr>"]
    by (simp add: c)
qed

section \<open>Merges\<close>

text \<open>The row of a merged file does not describe it: the bytes written are the merge of the two
  versions, but the row has the empty checksum and the size of the old local version, and so has
  the operation that is broadcast with the merged bytes.\<close>

theorem merged_row_is_stale:
  assumes "so_type m = OpCreate \<or> so_type m = OpUpdate" "GetFileByID (so_file_id m) (en_db e) = Inr f"
    and "fm_checksum f \<noteq> ''''" "so_checksum m \<noteq> ''''" "fm_checksum f \<noteq> so_checksum m"
    and "strategy (en_resolver e) = ''intelligent_merge''"
    and "vc_compare (vc_or_empty (fm_vector_clock f)) (vc_or_empty (so_vector_clock m)) = 0"
    and "p = Join (en_folder e) (so_path m)" "ReadFile p (en_fs e) = Inr l" "isTextFile l" "isTextFile d"
    and "Dir p \<in> set (fs_dirs (en_fs e))" "p \<notin> set (fs_dirs (en_fs e))" "en_messenger e" "gm_ok (db_files (en_db e))"
  shows "let e' = processIncomingFileAsync now tmp d m e; merged = join_lines (mergeLines (split_lines l) (split_lines d))
    in ReadFile p (en_fs e') = Inr merged \<and>
       (\<exists>row. GetFileByID (so_file_id m) (en_db e') = Inr row \<and> fm_checksum row = '''' \<and> fm_size row = fm_size f) \<and>
       (\<exists>op. en_sent e' = en_sent e @ [op] \<and> so_data op = merged \<and> so_checksum op = '''' \<and> so_size op = fm_size f)"
proof -
  let ?e1 = "IgnorePath p (merge_clock m e)" and ?merged = "join_lines (mergeLines (split_lines l) (split_lines d))"
  let ?w = "ThreeWayMerge (local_conflict_op f l) (remote_conflict_op m d)"
  let ?m = "m\<lparr>so_data := ?merged, so_checksum := '''', so_size := fm_size f\<rparr>"
  have w: "co_data ?w = ?merged" "co_checksum ?w = ''''" "co_size ?w = fm_size f"
    by (simp_all add: ThreeWayMerge_def local_conflict_op_def remote_conflict_op_def Let_def)
  have ne: "l \<noteq> []" "d \<noteq> []" using assms(10,11) by (auto simp: isTextFile_def)
  have "ResolveConflict (en_resolver e) (local_conflict_op f l) (remote_conflict_op m d)
      (vc_or_empty (fm_vector_clock f)) (vc_or_empty (so_vector_clock m)) = ?w"
    using assms(6,7,10,11) ne by (simp add: ResolveConflict_def isConcurrent_def compareVectorClocks_eq intelligentMerge_def)
       (simp add: local_conflict_op_def remote_conflict_op_def)
  moreover have "co_checksum (local_conflict_op f l) = fm_checksum f" "co_checksum (remote_conflict_op m d) = so_checksum m"
    by (simp_all add: local_conflict_op_def remote_conflict_op_def)
  ultimately have "\<exists>op. resolve_incoming now tmp p d m f ?e1 = send op (apply_incoming now tmp p ?merged ?m ?e1) \<and>
      so_data op = ?merged \<and> so_checksum op = '''' \<and> so_size op = fm_size f"
    using assms(3,4,9) by (simp add: resolve_incoming_def Let_def w broadcast_op_def)
      (intro exI conjI, rule refl, simp_all)
  then obtain op where op: "resolve_incoming now tmp p d m f ?e1 = send op (apply_incoming now tmp p ?merged ?m ?e1)"
    "so_data op = ?merged" "so_checksum op = ''''" "so_size op = fm_size f" by blast
  have e': "processIncomingFileAsync now tmp d m e = WatchPath p (send op (apply_incoming now tmp p ?merged ?m ?e1))"
    using assms(2,5) op(1) unfolding process_write [OF assms(1)] Let_def assms(8) [symmetric] by simp
  have "Dir p \<in> set (fs_dirs (en_fs ?e1))" "p \<notin> set (fs_dirs (en_fs ?e1))" using assms(12,13) by simp_all
  note ok = apply_incoming_ok(1,2) [OF this, where now = now and tmp = tmp and d = ?merged and m = ?m]
  obtain row where "GetFileByID (so_file_id m) (InsertFile now (incoming_metadata ?m) (en_db e)) = Inr row"
    "fm_checksum row = ''''" "fm_size row = fm_size f"
    using GetFileByID_InsertFile [OF assms(15), of "incoming_metadata ?m" now] by (auto simp: incoming_metadata_def)
  then show ?thesis using ok op(2-4) assms(14) by (simp add: e' en_sent_send Let_def)
qed

lemma merged_row_is_stale_witness:
  "let e = sample_renamed\<lparr>en_resolver := NewResolver ''intelligent_merge''\<rparr>;
       m = (sample_update ''f'' ''a'')\<lparr>so_checksum := ''z'', so_vector_clock := None\<rparr>;
       e' = processIncomingFileAsync 9 ''/s/t'' ''y'' m e; merged = join_lines (mergeLines (split_lines ''x'') (split_lines ''y''))
   in ReadFile ''/s/a'' (en_fs e') = Inr merged"
proof -
  let ?e = "sample_renamed\<lparr>en_resolver := NewResolver ''intelligent_merge''\<rparr>"
    and ?m = "(sample_update ''f'' ''a'')\<lparr>so_checksum := ''z'', so_vector_clock := None\<rparr>"
  obtain row where row: "GetFileByID ''f'' (en_db ?e) = Inr row" "fm_vector_clock row = None" "fm_checksum row = ''c''"
    using GetFileByID_InsertFile [of initSchema "local_metadata 1 ''f'' ''b'' ''c'' 1 (sample_engine ''p'')" 1]
    by (auto simp: sample_renamed_def local_metadata_def)
  have t: "tracks sample_renamed ''/s/a'' ''a'' ''f'' ''x''" by (rule sample_renamed_tracks)
  have c: "isTextFile ''x''" "isTextFile ''y''" "vc_compare [] [] = 0" "strategy (NewResolver ''intelligent_merge'') = ''intelligent_merge''"
    by code_simp+
  show ?thesis
    using merged_row_is_stale [where m = ?m and e = ?e and f = row and p = "''/s/a''" and l = "''x''" and d = "''y''"
        and now = 9 and tmp = "''/s/t''"] row t c
    by (simp add: tracks_def vc_or_empty_def Let_def)
qed

section \<open>Recent writes\<close>

text \<open>A checksum is remembered for five seconds after an incoming write, and the clean-up forgets
  only what is older; but no handler of file events asks for it: what they do and what they send
  does not depend on the cache.\<close>

theorem recent_writes_not_consulted:
  "(isRecentWrite now c (addRecentWrite t c e) \<longleftrightarrow> now - t \<le> recentWritesTTL) \<and>
   handleFileEvent H now operation path (e\<lparr>en_recent := r\<rparr>) = (handleFileEvent H now operation path e)\<lparr>en_recent := r\<rparr>"
proof -
  have q: "queueOperation op (e\<lparr>en_recent := r\<rparr>) = (queueOperation op e)\<lparr>en_recent := r\<rparr>"
    "queueOperation op (e\<lparr>en_recent := r, en_db := db\<rparr>) = (queueOperation op (e\<lparr>en_db := db\<rparr>))\<lparr>en_recent := r\<rparr>"
    "queueOperation op (e\<lparr>en_recent := r, en_renames := ds\<rparr>) = (queueOperation op (e\<lparr>en_renames := ds\<rparr>))\<lparr>en_recent := r\<rparr>"
    "queueOperation op (e\<lparr>en_recent := r, en_renames := ds, en_db := db\<rparr>) =
      (queueOperation op (e\<lparr>en_renames := ds, en_db := db\<rparr>))\<lparr>en_recent := r\<rparr>"
    "queueOperation op (e\<lparr>en_recent := r, en_db := db, en_renames := ds\<rparr>) =
      (queueOperation op (e\<lparr>en_renames := ds, en_db := db\<rparr>))\<lparr>en_recent := r\<rparr>" for op e ds db
    by (cases e, simp add: queueOperation_def send_def Let_def)+
  have i: "file_id_for H path (e\<lparr>en_recent := r\<rparr>) = map_option (\<lambda>(i, e'). (i, e'\<lparr>en_recent := r\<rparr>)) (file_id_for H path e)"
    by (simp add: file_id_for_def split: sum.split)
  have s: "getFileChecksum H path (e\<lparr>en_recent := r\<rparr>) = getFileChecksum H path e" for e
    by (simp add: getFileChecksum_def)
  have c: "handleCreate H now path (e\<lparr>en_recent := r\<rparr>) = (handleCreate H now path e)\<lparr>en_recent := r\<rparr>"
    by (cases "file_id_for H path e") (auto simp: handleCreate_def i s q Let_def local_metadata_def
        split: sum.split option.split prod.split)
  have u: "handleUpdate H now path (e\<lparr>en_recent := r\<rparr>) = (handleUpdate H now path e)\<lparr>en_recent := r\<rparr>"
    by (cases "file_id_for H path e") (auto simp: handleUpdate_def i s q Let_def local_metadata_def
        split: sum.split option.split prod.split)
  have "handleDelete H now path (e\<lparr>en_recent := r\<rparr>) = (handleDelete H now path e)\<lparr>en_recent := r\<rparr>"
    by (simp add: handleDelete_def q split: sum.split option.split)
  then show ?thesis
    by (simp add: handleFileEvent_def handleRename_def c u isRecentWrite_def addRecentWrite_def not_less)
qed

section \<open>Folders inside the folder\<close>

text \<open>What a peer can make an engine do: a message comes in, or the scheduler runs a task that a message has left.\<close>

datatype arrival = Receives time engine_message | Runs time string nat

fun arrive :: "arrival \<Rightarrow> engine \<Rightarrow> engine" where
  "arrive (Receives now msg) e = fst (HandleMessage now msg e)"
| "arrive (Runs now tmp i) e = run_pending now tmp i e"

definition missing :: "string \<Rightarrow> fs \<Rightarrow> bool" where
  "missing p s \<longleftrightarrow> Dir p \<notin> set (fs_dirs s) \<and> map_of (fs_files s) p = None"

lemma missing_SetFileID [simp]: "missing p (SetFileID q i s) = missing p s"
  by (auto simp: missing_def SetFileID_def split: option.splits)

lemma missing_RemoveFile: "missing p s \<Longrightarrow> missing p (fst (RemoveFile q s))"
  by (auto simp: missing_def RemoveFile_def)

lemma missing_RenameFile: "missing p s \<Longrightarrow> missing p (fst (RenameFile a b s))"
  by (auto simp: missing_def RenameFile_def split: option.splits)

lemma missing_renamed: "RenameFile a b s = (s', r) \<Longrightarrow> missing p s \<Longrightarrow> missing p s'"
  using missing_RenameFile [of p s a b] by simp

lemma missing_atomicWriteFile: "missing p s \<Longrightarrow> missing p (fst (atomicWriteFile tmp q data now s))"
  by (auto simp: missing_def atomicWriteFile_def RenameFile_def RemoveFile_def create_write split: option.splits prod.splits)

lemmas missing_intros = missing_RemoveFile missing_RenameFile missing_atomicWriteFile

lemma missing_apply: "missing p (en_fs e) \<Longrightarrow> missing p (en_fs (apply_incoming now tmp q d m e))"
  using missing_atomicWriteFile [of p "en_fs e" tmp q d now]
  by (auto simp: apply_incoming_def split: prod.splits option.splits)

lemma missing_resolve: "missing p (en_fs e) \<Longrightarrow> missing p (en_fs (resolve_incoming now tmp q d m f e))"
  by (simp add: resolve_incoming_def Let_def missing_apply split: sum.split)

lemma missing_process: "missing p (en_fs e) \<Longrightarrow> missing p (en_fs (processIncomingFileAsync now tmp d m e))"
  using missing_RemoveFile [of p "en_fs e" "Join (en_folder e) (so_path m)"]
  by (auto simp: processIncomingFileAsync_def Let_def missing_apply missing_resolve split: sum.split prod.split option.split)

lemma missing_rename: "missing p (en_fs e) \<Longrightarrow> missing p (en_fs (fst (HandleIncomingRename now m e)))"
  by (auto simp: HandleIncomingRename_def Let_def split: prod.split option.split dest: missing_renamed)

lemma missing_arrive: "missing p (en_fs e) \<Longrightarrow> missing p (en_fs (arrive a e))"
proof (cases a)
  case (Receives now msg)
  assume "missing p (en_fs e)"
  then show ?thesis using Receives
    by (auto simp: HandleMessage_def HandleIncomingFile_def addRecentWrite_def Let_def missing_rename
        split: engine_message.split option.split)
qed (auto simp: run_pending_def missing_process split: prod.split)

lemma missing_arrivals: "missing p (en_fs e) \<Longrightarrow> missing p (en_fs (fold arrive as e))"
  by (induction as arbitrary: e) (simp_all add: missing_arrive)


definition sample_payload :: log_payload where
  "sample_payload = \<lparr>pl_operation_id = ''op-1'', pl_timestamp = 1, pl_type = OpCreate, pl_peer_id = ''q'', pl_vector_clock = None,
     pl_file_id = Some ''g'', pl_path = ''d/b'', pl_from_path = None, pl_checksum = Some ''c'', pl_size = Some 1, pl_mtime = Some 1,
     pl_mode = None, pl_data = ''x'', pl_compressed = None, pl_original_size = None, pl_compression_algorithm = None\<rparr>"


end
