(* ===== verification/LocalChanges.thy ===== *)
theory LocalChanges
  imports Watcher Propagation
begin

text \<open>
  From the notifications of the file system to the operations that are sent: the watcher and the engine
  together. A burst of notifications for one path passes the debouncing of \<^verbatim>\<open>internal/filesystem/watcher.go\<close>,
  and \<open>processFileEvents\<close> of \<^verbatim>\<open>internal/sync/engine.go\<close> hands what comes out to \<open>handleFileEvent\<close>.
\<close>

section \<open>One round\<close>

text \<open>\<open>processFileEvents\<close> takes one event from the channel, if there is one.\<close>

definition process_file_event :: "(bytes \<Rightarrow> bytes) \<Rightarrow> time \<Rightarrow> watcher \<times> engine \<Rightarrow> watcher \<times> engine" where
  "process_file_event H now we =
     (case receive_event (fst we) of
        (None, w) \<Rightarrow> (w, snd we)
      | (Some ev, w) \<Rightarrow> (w, handleFileEvent H now (fe_operation ev) (fe_path ev) (snd we)))"

text \<open>
  The notifications of a burst are processed, the timer of the last one expires, its goroutine sends
  the event, and the engine handles it.
\<close>

definition observe_burst ::
  "(bytes \<Rightarrow> bytes) \<Rightarrow> (time \<times> file_event) list \<Rightarrow> string \<Rightarrow> time \<Rightarrow> watcher \<times> engine \<Rightarrow> watcher \<times> engine" where
  "observe_burst H tes p now we =
     (let w1 = debounce_all tes (fst we); e = burst_event (map snd tes);
          w2 = send_event e (check_closed e (take_event p (fire_timer now (wt_next w1 - 1) w1)))
      in process_file_event H now (w2, snd we))"

definition quiet :: "watcher \<Rightarrow> string \<Rightarrow> bool" where
  "quiet w p \<longleftrightarrow> watcher_reachable w \<and> \<not> wt_closed w \<and> wt_events w = [] \<and> map_of (wt_pending w) p = None \<and>
     (\<forall>t \<in> set (wt_timers w). tm_path t \<noteq> p)"

definition burst_on :: "(time \<times> file_event) list \<Rightarrow> string \<Rightarrow> watcher \<Rightarrow> time \<Rightarrow> bool" where
  "burst_on tes p w now \<longleftrightarrow> tes \<noteq> [] \<and> (\<forall>(t, e) \<in> set tes. fe_path e = p \<and> fe_operation e = operation_of (fe_op e)) \<and>
     fst (last tes) + wt_debounce w \<le> now"

lemma burst_event_in: "es \<noteq> [] \<Longrightarrow> burst_event es \<in> set es"
  by (auto simp: burst_event_def find_Some_iff split: option.split)

lemma observe_burst_engine:
  assumes "quiet w p" "burst_on tes p w now"
  shows "snd (observe_burst H tes p now (w, e)) = handleFileEvent H now (fe_operation (burst_event (map snd tes))) p e"
    and "wt_events (fst (observe_burst H tes p now (w, e))) = []"
proof -
  have q: "watcher_reachable w" "\<not> wt_closed w" "length (wt_events w) < events_capacity" "map_of (wt_pending w) p = None"
    "\<forall>t \<in> set (wt_timers w). tm_path t \<noteq> p" "wt_events w = []"
    using assms(1) by (simp_all add: quiet_def events_capacity_def)
  have b: "tes \<noteq> []" "\<forall>(t, e) \<in> set tes. fe_path e = p" "fst (last tes) + wt_debounce w \<le> now"
    using assms(2) by (auto simp: burst_on_def)
  have "fe_path (burst_event (map snd tes)) = p"
    using burst_event_in [of "map snd tes"] b by auto
  then show "snd (observe_burst H tes p now (w, e)) = handleFileEvent H now (fe_operation (burst_event (map snd tes))) p e"
    "wt_events (fst (observe_burst H tes p now (w, e))) = []"
    using burst_delivered [OF q(1-3) b(1,2) q(4,5) b(3)] q(6)
    by (simp_all add: observe_burst_def process_file_event_def receive_event_def Let_def)
qed

lemma burst_event_create:
  "e \<in> set es \<Longrightarrow> fe_operation e = ''create'' \<Longrightarrow> fe_operation (burst_event es) = ''create''"
  by (auto simp: burst_event_def find_None_iff split: option.split dest: find_SomeD)

lemma burst_event_last:
  "list_all (\<lambda>e. fe_operation e \<noteq> ''create'') es \<Longrightarrow> burst_event es = last es"
  by (auto simp: burst_event_def find_Some_iff list_all_iff split: option.split)

section \<open>Properties\<close>


text \<open>A change of the mode hides a change of the contents: when a write is followed within half a second
  by a notification that carries only a mode change, the engine handles an event with the operation
  \<^verbatim>\<open>unknown\<close> and ignores it. Nothing is recorded or sent, whatever the file holds now.
\<close>

theorem write_masked_by_chmod:
  assumes "quiet w path" "burst_on tes path w now" "set (fe_op (snd (last tes))) = {NotifyChmod}"
    and "\<forall>(t, ev) \<in> set tes. NotifyCreate \<notin> set (fe_op ev)"
  shows "snd (observe_burst H tes path now (w, e)) = e \<and> wt_events (fst (observe_burst H tes path now (w, e))) = []"
proof -
  have "list_all (\<lambda>e. fe_operation e \<noteq> ''create'') (map snd tes)"
  proof -
    have "fe_operation ev \<noteq> ''create''" if "(t, ev) \<in> set tes" for t ev
    proof -
      have "NotifyCreate \<notin> set (fe_op ev)" "fe_operation ev = operation_of (fe_op ev)"
        using assms(2,4) that by (auto simp: burst_on_def)
      then show ?thesis by (simp add: operation_of_def)
    qed
    then show ?thesis by (auto simp: list_all_iff)
  qed
  then have "burst_event (map snd tes) = snd (last tes)"
    using assms(2) by (simp add: burst_event_last last_map burst_on_def)
  moreover have "fe_operation (snd (last tes)) = ''unknown''"
  proof -
    have "last tes \<in> set tes" using assms(2) by (simp add: burst_on_def)
    moreover have "\<forall>(t, ev) \<in> set tes. fe_operation ev = operation_of (fe_op ev)" using assms(2) by (auto simp: burst_on_def)
    ultimately have "fe_operation (snd (last tes)) = operation_of (fe_op (snd (last tes)))" by (simp add: case_prod_beta)
    then show ?thesis using assms(3) by (simp add: operation_of_def)
  qed
  ultimately show ?thesis
    by (simp add: observe_burst_engine [OF assms(1,2)] handleFileEvent_def)
qed

text \<open>A creation hides the deletion that follows it: a path that is replaced and then removed within the
  same half second is reported as created, the handler finds no file and does nothing. A row that the
  index has for the path stays, and the other peers keep the file.
\<close>

theorem delete_masked_by_create:
  assumes "quiet w path" "burst_on tes path w now" "(t, ev) \<in> set tes" "NotifyCreate \<in> set (fe_op ev)"
    and "ReadFile path (en_fs e) = Inl NotExist" "path \<notin> set (fs_dirs (en_fs e))"
  shows "snd (observe_burst H tes path now (w, e)) = e"
proof -
  have "fe_operation ev = ''create''" using assms(2-4) by (auto simp: burst_on_def operation_of_def)
  then have "fe_operation (burst_event (map snd tes)) = ''create''"
    using assms(3) by (intro burst_event_create [of ev]) force+
  moreover have "map_of (fs_files (en_fs e)) path = None" using assms(5) by (simp add: ReadFile_def split: option.splits)
  ultimately show ?thesis
    by (simp add: observe_burst_engine(1) [OF assms(1,2)] handleFileEvent_def handleCreate_def file_id_for_def
        GetFileID_def GenerateFileID_def)
qed

section \<open>Examples\<close>

definition event_on :: "string \<Rightarrow> notify_op list \<Rightarrow> file_event" where
  "event_on p ops = \<lparr>fe_path = p, fe_op = ops, fe_operation = operation_of ops\<rparr>"

lemma quiet_new: "quiet NewWatcher p"
  by (simp add: quiet_def watcher_reachable_def) (simp add: NewWatcher_def)

lemma wt_debounce_new [simp]: "wt_debounce NewWatcher = 500000000"
  by (simp add: NewWatcher_def)


theorem write_masked_by_chmod_witness:
  "snd (observe_burst id_hash [(0, event_on ''/s/a'' [NotifyWrite]), (1, event_on ''/s/a'' [NotifyChmod])]
        ''/s/a'' (10 ^ 9) (NewWatcher, sample_engine ''p'')) = sample_engine ''p'' \<and>
   wt_events (fst (observe_burst id_hash [(0, event_on ''/s/a'' [NotifyWrite]), (1, event_on ''/s/a'' [NotifyChmod])]
        ''/s/a'' (10 ^ 9) (NewWatcher, sample_engine ''p''))) = []"
  by (rule write_masked_by_chmod [OF quiet_new]) (simp_all add: burst_on_def event_on_def)

theorem delete_masked_by_create_witness:
  "snd (observe_burst id_hash [(0, event_on ''/s/b'' [NotifyCreate]), (1, event_on ''/s/b'' [NotifyRemove])]
        ''/s/b'' (10 ^ 9) (NewWatcher, sample_engine ''p'')) = sample_engine ''p''"
  by (rule delete_masked_by_create [OF quiet_new, where t = 0 and ev = "event_on ''/s/b'' [NotifyCreate]"])
    (simp_all add: burst_on_def event_on_def sample_engine_def ReadFile_def NewEngine_def NewEngineWithMessenger_def)

end
