(* ===== verification/Watching.thy ===== *)
theory Watching
  imports LocalChanges
begin

text \<open>
  Which directories are watched: \<open>Add\<close> and \<open>AddDir\<close> of \<^verbatim>\<open>internal/filesystem/watcher.go\<close>, and \<open>Start\<close> of
  \<^verbatim>\<open>internal/sync/engine.go\<close>, the only caller. The directories registered with fsnotify are a list; \<open>accepts\<close> says which of them
  fsnotify can watch. As its documentation states, fsnotify reports on the entries of a directory and not on what is further below.
\<close>

section \<open>Registering directories\<close>

text \<open>\<open>filepath.Walk\<close> visits the directories in lexical order of their elements.\<close>

definition walk_dirs :: "string \<Rightarrow> fs \<Rightarrow> string list" where
  "walk_dirs path s = sort_key split_path (filter (\<lambda>d. d = path \<or> below path d) (fs_dirs s))"

fun add_watches :: "(string \<Rightarrow> bool) \<Rightarrow> string list \<Rightarrow> string list \<Rightarrow> string list \<times> bool" where
  "add_watches accepts [] watched = (watched, True)"
| "add_watches accepts (d # ds) watched = (if accepts d then add_watches accepts ds (watched @ [d]) else (watched, False))"

definition AddWatch :: "(string \<Rightarrow> bool) \<Rightarrow> string \<Rightarrow> fs \<Rightarrow> watcher \<Rightarrow> string list \<Rightarrow> string list \<times> bool" where
  "AddWatch accepts path s w watched =
     (if wt_closed w then (watched, False)
      else if \<not> FileExists path s then (watched, False)
      else add_watches accepts (walk_dirs path s) watched)"

definition AddDirWatch :: "(string \<Rightarrow> bool) \<Rightarrow> string \<Rightarrow> watcher \<Rightarrow> string list \<Rightarrow> string list \<times> bool" where
  "AddDirWatch accepts dirPath w watched =
     (if wt_closed w then (watched, False)
      else if accepts dirPath then (watched @ [dirPath], True) else (watched, False))"

text \<open>A failed replay is only logged. The goroutines that \<open>Start\<close> leaves behind are steps of their own.\<close>

definition StartEngine :: "(sync_op \<Rightarrow> bool) \<Rightarrow> (string \<Rightarrow> bool) \<Rightarrow> watcher \<Rightarrow> engine \<Rightarrow> engine \<times> string list \<times> bool" where
  "StartEngine ok accepts w e =
     (let e1 = fst (ReplayUnacknowledgedOperations ok e)
      in (e1, AddWatch accepts (en_folder e1) (en_fs e1) w []))"

section \<open>What is noticed\<close>

definition notified :: "string list \<Rightarrow> string \<Rightarrow> bool" where
  "notified watched p \<longleftrightarrow> Dir p \<in> set watched"

text \<open>Another program makes a directory or a file, and the engine handles the event if there is one.\<close>

definition user_mkdir :: "(bytes \<Rightarrow> bytes) \<Rightarrow> time \<Rightarrow> string list \<Rightarrow> string \<Rightarrow> engine \<Rightarrow> engine" where
  "user_mkdir H now watched d e =
     (let e1 = e\<lparr>en_fs := (en_fs e)\<lparr>fs_dirs := fs_dirs (en_fs e) @ [d]\<rparr>\<rparr>
      in if notified watched d then handleFileEvent H now ''create'' d e1 else e1)"

definition user_creates :: "(bytes \<Rightarrow> bytes) \<Rightarrow> time \<Rightarrow> string list \<Rightarrow> string \<Rightarrow> fnode \<Rightarrow> engine \<Rightarrow> engine" where
  "user_creates H now watched p n e =
     (let e1 = e\<lparr>en_fs := (en_fs e)\<lparr>fs_files := gm_put p n (fs_files (en_fs e))\<rparr>\<rparr>
      in if notified watched p then handleFileEvent H now ''create'' p e1 else e1)"

section \<open>Properties\<close>

lemma add_watches_all: "add_watches accepts ds ws = (ws', True) \<Longrightarrow> ws' = ws @ ds"
  by (induction ds arbitrary: ws) (fastforce split: if_splits)+

lemma replay_fields: "en_folder (fst (ReplayUnacknowledgedOperations ok e)) = en_folder e"
  "en_fs (fst (ReplayUnacknowledgedOperations ok e)) = en_fs e" "en_db (fst (ReplayUnacknowledgedOperations ok e)) = en_db e"
  by (simp_all add: replay_state)

text \<open>A start that succeeds watches exactly the directories that exist in the folder at that moment, so exactly the changes in those are
  noticed.
\<close>

lemma start_watches_existing_folders:
  assumes "StartEngine ok accepts w e = (e1, ws, True)"
  shows "notified ws p \<longleftrightarrow> Dir p \<in> set (fs_dirs (en_fs e)) \<and> (Dir p = en_folder e \<or> below (en_folder e) (Dir p))"
proof -
  have "AddWatch accepts (en_folder e) (en_fs e) w [] = (ws, True)"
    using assms by (auto simp: StartEngine_def Let_def replay_fields)
  then have "ws = walk_dirs (en_folder e) (en_fs e)"
    using add_watches_all [of accepts "walk_dirs (en_folder e) (en_fs e)" "[]" ws] by (simp add: AddWatch_def split: if_splits)
  then show ?thesis by (auto simp: notified_def walk_dirs_def)
qed

text \<open>The engine does nothing with the creation of a directory.\<close>

lemma directory_event_ignored:
  "map_of (fs_files (en_fs e)) d = None \<Longrightarrow> handleFileEvent H now ''create'' d e = e"
  by (simp add: handleFileEvent_def handleCreate_def file_id_for_def GetFileID_def GenerateFileID_def)

text \<open>A folder made after the start is a blind spot. Its creation is noticed and ignored, it is not watched, and so no file that is made in
  it is recorded or sent until the program starts again.
\<close>

theorem new_folder_unnoticed:
  assumes "StartEngine ok accepts w e = (e1, ws, True)"
    and "d \<notin> set (fs_dirs (en_fs e))" "map_of (fs_files (en_fs e)) d = None" "Dir p = d"
  shows "let e2 = user_creates H t' ws p n (user_mkdir H t ws d e1)
    in en_sent e2 = en_sent e1 \<and> en_db e2 = en_db e1 \<and> en_queue e2 = en_queue e1 \<and> en_clock e2 = en_clock e1 \<and>
       ReadFile p (en_fs e2) = Inr (fn_data n)"
proof -
  have e1: "en_fs e1 = en_fs e" using assms(1) by (auto simp: StartEngine_def Let_def replay_fields)
  have "\<not> notified ws p" using start_watches_existing_folders [OF assms(1), of p] assms(2,4) by simp
  then show ?thesis using assms(3)
    by (simp add: user_creates_def user_mkdir_def Let_def directory_event_ignored e1 ReadFile_def)
qed


lemma start_watches_sample:
  "StartEngine (\<lambda>_. True) (\<lambda>_. True) NewWatcher (sample_engine ''p'') =
     (fst (ReplayUnacknowledgedOperations (\<lambda>_. True) (sample_engine ''p'')), [''/s''], True)"
proof -
  have s: "en_folder (sample_engine ''p'') = ''/s''" "fs_dirs (en_fs (sample_engine ''p'')) = [''/s'']"
    by (simp_all add: sample_engine_def NewEngineWithMessenger_def)
  then show ?thesis
    by (simp add: StartEngine_def Let_def AddWatch_def replay_fields NewWatcher_def FileExists_def walk_dirs_def)
qed

theorem new_folder_unnoticed_witness:
  "let e1 = fst (ReplayUnacknowledgedOperations (\<lambda>_. True) (sample_engine ''p''));
       n = \<lparr>fn_data = ''y'', fn_mtime = 2, fn_mode = 420, fn_file_id = None\<rparr>
   in en_sent (user_creates id_hash 2 [''/s''] ''/s/d/b'' n (user_mkdir id_hash 1 [''/s''] ''/s/d'' e1)) = en_sent e1"
proof -
  have d: "Dir ''/s/d/b'' = ''/s/d''" by code_simp
  have "''/s/d'' \<notin> set (fs_dirs (en_fs (sample_engine ''p'')))" "map_of (fs_files (en_fs (sample_engine ''p''))) ''/s/d'' = None"
    by (simp_all add: sample_engine_def NewEngineWithMessenger_def)
  then show ?thesis unfolding Let_def
    by (rule new_folder_unnoticed [OF start_watches_sample _ _ d, unfolded Let_def, THEN conjunct1])
qed

end
