(* ===== verification/ChunkBuffer.thy ===== *)
theory ChunkBuffer
  imports Chunking
begin

text \<open>
  The buffer for chunks that arrive out of order, \<^verbatim>\<open>internal/chunking/buffer.go\<close>. Its channel of
  capacity one is a flag that says whether the token is in it. The invariant ties the completion
  flag to the chunks present; the mutex makes every operation one step.
\<close>

definition ChunkTimeout :: time where "ChunkTimeout = 30 * 10 ^ 9"

record chunk_buffer =
  cb_file_id :: string
  cb_total :: int
  cb_chunks :: "(int, chunk) gomap"
  cb_received :: "(int, bool) gomap"
  cb_last_received :: time
  cb_complete :: bool
  cb_token :: bool

definition NewChunkBuffer :: "time \<Rightarrow> string \<Rightarrow> int \<Rightarrow> chunk_buffer" where
  "NewChunkBuffer now fileID totalChunks =
     \<lparr>cb_file_id = fileID, cb_total = totalChunks, cb_chunks = [], cb_received = [],
      cb_last_received = now, cb_complete = False, cb_token = False\<rparr>"

datatype buffer_error =
    FileIdMismatch string string
  | InvalidChunkId int int
  | NotAllReceived
  | ChunkMissing int
  | WaitTimeout "int list"

text \<open>
  The hash check of \<open>AddChunk\<close> compares \<open>chunk.Hash\<close> with itself, so its error branch is absent.
\<close>

definition AddChunk :: "time \<Rightarrow> chunk \<Rightarrow> chunk_buffer \<Rightarrow> chunk_buffer \<times> buffer_error option" where
  "AddChunk now ck cb =
     (if ck_file_id ck \<noteq> cb_file_id cb then (cb, Some (FileIdMismatch (cb_file_id cb) (ck_file_id ck)))
      else if ck_id ck < 0 \<or> ck_id ck \<ge> cb_total cb then
        (cb, Some (InvalidChunkId (ck_id ck) (wrap64 (cb_total cb - 1))))
      else
        (let cb1 = cb\<lparr>cb_chunks := gm_put (ck_id ck) ck (cb_chunks cb),
                      cb_received := gm_put (ck_id ck) True (cb_received cb),
                      cb_last_received := now\<rparr>
         in (if int (length (cb_chunks cb1)) = cb_total cb1
             then cb1\<lparr>cb_complete := True, cb_token := True\<rparr>
             else cb1, None)))"

definition GetMissingChunks :: "chunk_buffer \<Rightarrow> int list" where
  "GetMissingChunks cb =
     filter (\<lambda>i. \<not> gm_get False (cb_received cb) i) (map int [0..<nat (cb_total cb)])"

definition IsComplete :: "chunk_buffer \<Rightarrow> bool" where
  "IsComplete cb = cb_complete cb"

fun collect_chunks :: "(int, chunk) gomap \<Rightarrow> int list \<Rightarrow> buffer_error + chunk list" where
  "collect_chunks chunks [] = Inr []"
| "collect_chunks chunks (i # is) =
     (case map_of chunks i of
        None \<Rightarrow> Inl (ChunkMissing i)
      | Some ck \<Rightarrow> map_sum id ((#) ck) (collect_chunks chunks is))"

definition GetChunks :: "chunk_buffer \<Rightarrow> buffer_error + chunk list" where
  "GetChunks cb =
     (if \<not> cb_complete cb then Inl NotAllReceived
      else collect_chunks (cb_chunks cb) (map int [0..<nat (cb_total cb)]))"

text \<open>
  \<open>WaitForCompletion\<close> consumes the token or gives up. When both the token and the timer are ready
  the choice is the run time's, so the choice is an argument; without a token it ends by the timer.
\<close>

definition WaitForCompletion :: "bool \<Rightarrow> chunk_buffer \<Rightarrow> chunk_buffer \<times> buffer_error option" where
  "WaitForCompletion timer_first cb =
     (if cb_token cb \<and> \<not> timer_first then (cb\<lparr>cb_token := False\<rparr>, None)
      else (cb, Some (WaitTimeout (GetMissingChunks cb))))"

definition GetLastReceived :: "chunk_buffer \<Rightarrow> time" where
  "GetLastReceived cb = cb_last_received cb"

definition ShouldRequestRetransmission :: "time \<Rightarrow> chunk_buffer \<Rightarrow> bool" where
  "ShouldRequestRetransmission now cb =
     (if cb_complete cb then False
      else now - cb_last_received cb > ChunkTimeout \<and> int (length (cb_chunks cb)) < cb_total cb)"

section \<open>Reachable buffers\<close>

inductive buffer_reachable :: "string \<Rightarrow> int \<Rightarrow> chunk_buffer \<Rightarrow> bool" for f n where
  new: "buffer_reachable f n (NewChunkBuffer now f n)"
| add: "buffer_reachable f n cb \<Longrightarrow> buffer_reachable f n (fst (AddChunk now ck cb))"
| wait: "buffer_reachable f n cb \<Longrightarrow> buffer_reachable f n (fst (WaitForCompletion b cb))"

definition buffer_inv :: "string \<Rightarrow> int \<Rightarrow> chunk_buffer \<Rightarrow> bool" where
  "buffer_inv f n cb \<longleftrightarrow>
     cb_file_id cb = f \<and> cb_total cb = n \<and> gm_ok (cb_chunks cb) \<and>
     (\<forall>i. gm_get False (cb_received cb) i = (i \<in> dom (map_of (cb_chunks cb)))) \<and>
     (\<forall>i ck. map_of (cb_chunks cb) i = Some ck \<longrightarrow> 0 \<le> i \<and> i < n \<and> ck_id ck = i \<and> ck_file_id ck = f) \<and>
     (cb_complete cb \<longleftrightarrow> cb_chunks cb \<noteq> [] \<and> int (length (cb_chunks cb)) = n) \<and>
     (cb_token cb \<longrightarrow> cb_complete cb)"

lemma gm_put_not_Nil [simp]: "gm_put k v m \<noteq> []"
  by (cases m) (auto simp: gm_put_def)

lemma gm_card: "gm_ok m \<Longrightarrow> card (dom (map_of m)) = length m"
  using distinct_card [of "map fst m"] by (simp add: gm_ok_def dom_map_of_conv_image_fst)

lemma buffer_inv_dom: "buffer_inv f n cb \<Longrightarrow> dom (map_of (cb_chunks cb)) \<subseteq> {0..<n}"
  by (auto simp: buffer_inv_def)

text \<open>A map whose keys lie in a range and which has as many entries as the range holds every key.\<close>

lemma complete_iff_full:
  assumes "buffer_inv f n cb" "0 < n"
  shows "cb_complete cb \<longleftrightarrow> dom (map_of (cb_chunks cb)) = {0..<n}"
proof
  assume "cb_complete cb"
  then have "int (length (cb_chunks cb)) = n" "gm_ok (cb_chunks cb)"
    using assms by (simp_all add: buffer_inv_def)
  then have "card (dom (map_of (cb_chunks cb))) = card {0..<n}"
    using gm_card [of "cb_chunks cb"] by auto
  then show "dom (map_of (cb_chunks cb)) = {0..<n}"
    by (intro card_subset_eq buffer_inv_dom [OF assms(1)]) simp_all
next
  assume full: "dom (map_of (cb_chunks cb)) = {0..<n}"
  then have "int (length (cb_chunks cb)) = n"
    using assms gm_card [of "cb_chunks cb"] by (simp add: buffer_inv_def)
  then show "cb_complete cb" using assms by (auto simp: buffer_inv_def)
qed

lemma buffer_inv_new: "buffer_inv f n (NewChunkBuffer now f n)"
  by (simp add: buffer_inv_def NewChunkBuffer_def gm_get_def)

lemma buffer_inv_add:
  assumes inv: "buffer_inv f n cb"
  shows "buffer_inv f n (fst (AddChunk now ck cb))"
proof (cases "ck_file_id ck = f \<and> 0 \<le> ck_id ck \<and> ck_id ck < n")
  case False
  then show ?thesis using inv by (auto simp: AddChunk_def buffer_inv_def)
next
  case True
  let ?m = "gm_put (ck_id ck) ck (cb_chunks cb)"
  have full: "int (length ?m) = n" if "cb_complete cb"
  proof -
    have "ck_id ck \<in> dom (map_of (cb_chunks cb))"
      using that True complete_iff_full [OF inv] by auto
    then have "length ?m = length (cb_chunks cb)"
      by (simp add: gm_length_put dom_map_of_conv_image_fst)
    then show ?thesis using that inv by (simp add: buffer_inv_def)
  qed
  define cb1 where "cb1 = cb\<lparr>cb_chunks := ?m, cb_received := gm_put (ck_id ck) True (cb_received cb),
      cb_last_received := now, cb_complete := (int (length ?m) = n),
      cb_token := (int (length ?m) = n)\<rparr>"
  have "buffer_inv f n cb1"
    using inv True by (auto simp: buffer_inv_def cb1_def store_laws)
  moreover have "fst (AddChunk now ck cb) = cb1"
    using inv True full by (auto simp: AddChunk_def cb1_def buffer_inv_def Let_def)
  ultimately show ?thesis by simp
qed

lemma buffer_inv_wait: "buffer_inv f n cb \<Longrightarrow> buffer_inv f n (fst (WaitForCompletion b cb))"
  by (auto simp: WaitForCompletion_def buffer_inv_def)

lemma buffer_reachable_inv: "buffer_reachable f n cb \<Longrightarrow> buffer_inv f n cb"
  by (induction rule: buffer_reachable.induct)
     (simp_all add: buffer_inv_new buffer_inv_add buffer_inv_wait)

text \<open>The operations on a buffer that satisfies the invariant.\<close>

lemma int_upt_set: "set (map int [0..<nat n]) = {0..<n}"
  by (simp add: image_int_atLeastLessThan)

lemma missing_Nil_iff:
  assumes "buffer_inv f n cb" "0 < n"
  shows "GetMissingChunks cb = [] \<longleftrightarrow> cb_complete cb"
proof -
  have "GetMissingChunks cb = filter (\<lambda>i. i \<notin> dom (map_of (cb_chunks cb))) (map int [0..<nat n])"
    using assms(1) by (simp add: GetMissingChunks_def buffer_inv_def)
  moreover have "filter (\<lambda>i. i \<notin> D) (map int [0..<nat n]) = [] \<longleftrightarrow> {0..<n} \<subseteq> D" for D
    using int_upt_set [of n] by (auto simp: filter_empty_conv)
  ultimately show ?thesis
    using complete_iff_full [OF assms] buffer_inv_dom [OF assms(1)] by auto
qed

lemma collect_chunks_all:
  "set is \<subseteq> dom (map_of m) \<Longrightarrow> collect_chunks m is = Inr (map (\<lambda>i. the (map_of m i)) is)"
  by (induction "is") auto

lemma GetChunks_complete:
  assumes inv: "buffer_inv f n cb" and c: "cb_complete cb"
  shows "\<exists>cks. GetChunks cb = Inr cks \<and> map ck_id cks = map int [0..<nat n] \<and>
    set cks = ran (map_of (cb_chunks cb))"
proof (intro exI conjI)
  let ?m = "map_of (cb_chunks cb)"
  let ?cks = "map (\<lambda>i. the (?m i)) (map int [0..<nat n])"
  have "cb_chunks cb \<noteq> []" "int (length (cb_chunks cb)) = n"
    using inv c by (simp_all add: buffer_inv_def)
  then have "0 < n" by (cases "cb_chunks cb") auto
  then have full: "dom ?m = {0..<n}" using complete_iff_full [OF inv] c by simp
  have total: "cb_total cb = n" using inv by (simp add: buffer_inv_def)
  show "GetChunks cb = Inr ?cks"
    using c full int_upt_set [of n] by (simp only: GetChunks_def total collect_chunks_all) simp
  have "ck_id (the (?m i)) = i" if "i \<in> dom ?m" for i
    using inv that by (auto simp: buffer_inv_def)
  then have "map (\<lambda>i. ck_id (the (?m i))) (map int [0..<nat n]) = map int [0..<nat n]"
    using full int_upt_set [of n] by (intro map_idI) auto
  then show "map ck_id ?cks = map int [0..<nat n]" by (simp add: comp_def)
  have "set ?cks = (\<lambda>i. the (?m i)) ` set (map int [0..<nat n])" by (rule set_map)
  also have "\<dots> = (\<lambda>i. the (?m i)) ` dom ?m" by (simp only: int_upt_set full)
  also have "\<dots> = ran ?m" by (force simp: ran_def)
  finally show "set ?cks = ran ?m" .
qed

section \<open>Properties\<close>

text \<open>In every buffer the program can build, whatever chunks were offered and in whatever order,
  the completion flag is set exactly when no chunk is missing, and \<open>GetChunks\<close> then returns the
  chunks numbered from zero to the last, each of the buffer's file.\<close>

theorem buffer_complete_exact:
  assumes "buffer_reachable f n cb" "0 < n"
  shows "(IsComplete cb \<longleftrightarrow> GetMissingChunks cb = []) \<and>
    (case GetChunks cb of
       Inl e \<Rightarrow> \<not> IsComplete cb \<and> e = NotAllReceived
     | Inr cks \<Rightarrow> IsComplete cb \<and> map ck_id cks = map int [0..<nat n] \<and>
         set cks \<subseteq> {ck. ck_file_id ck = f})"
proof -
  note inv = buffer_reachable_inv [OF assms(1)]
  have files: "ran (map_of (cb_chunks cb)) \<subseteq> {ck. ck_file_id ck = f}"
    using inv by (auto simp: buffer_inv_def ran_def)
  show ?thesis
  proof (cases "cb_complete cb")
    case True
    then show ?thesis
      using missing_Nil_iff [OF inv assms(2)] GetChunks_complete [OF inv True] files
      by (auto simp: IsComplete_def)
  next
    case False
    then show ?thesis
      using missing_Nil_iff [OF inv assms(2)] by (simp add: IsComplete_def GetChunks_def)
  qed
qed

definition two_chunk_buffer :: chunk_buffer where
  "two_chunk_buffer =
     (let ck = file_chunk id_hash ''f'' 2 ''abc''
      in fst (AddChunk 7 (ck 0) (fst (AddChunk 5 (ck 1) (NewChunkBuffer 0 ''f'' 2)))))"

lemma buffer_complete_exact_witness:
  "(IsComplete two_chunk_buffer \<longleftrightarrow> GetMissingChunks two_chunk_buffer = []) \<and>
    (case GetChunks two_chunk_buffer of
       Inl e \<Rightarrow> \<not> IsComplete two_chunk_buffer \<and> e = NotAllReceived
     | Inr cks \<Rightarrow> IsComplete two_chunk_buffer \<and> map ck_id cks = map int [0..<nat 2] \<and>
         set cks \<subseteq> {ck. ck_file_id ck = ''f''})"
  by (rule buffer_complete_exact)
     (simp_all add: two_chunk_buffer_def Let_def buffer_reachable.intros)

text \<open>The completion token is handed to one waiter: a second wait on the same complete buffer ends by
  its timer, with an empty list of missing chunks, until another copy of a chunk is added.\<close>

theorem completion_token_used_once:
  "WaitForCompletion b1 cb = (cb', None) \<Longrightarrow> buffer_reachable f n cb \<Longrightarrow> 0 < n \<Longrightarrow>
   WaitForCompletion b2 cb' = (cb', Some (WaitTimeout [])) \<and> IsComplete cb'"
proof -
  assume w: "WaitForCompletion b1 cb = (cb', None)" and r: "buffer_reachable f n cb" and n: "0 < n"
  have inv: "buffer_inv f n cb'"
    using buffer_inv_wait [OF buffer_reachable_inv [OF r], of b1] w by simp
  have "cb_complete cb'" "\<not> cb_token cb'"
    using w buffer_reachable_inv [OF r]
    by (auto simp: WaitForCompletion_def buffer_inv_def split: if_splits)
  then show ?thesis
    using missing_Nil_iff [OF inv n] by (simp add: WaitForCompletion_def IsComplete_def)
qed

lemma completion_token_used_once_witness:
  "\<exists>cb'. WaitForCompletion False two_chunk_buffer = (cb', None) \<and>
     WaitForCompletion False cb' = (cb', Some (WaitTimeout [])) \<and> IsComplete cb'"
proof -
  have r: "buffer_reachable ''f'' 2 two_chunk_buffer"
    by (simp add: two_chunk_buffer_def Let_def buffer_reachable.intros)
  have t: "cb_token two_chunk_buffer"
    by (simp add: two_chunk_buffer_def AddChunk_def NewChunkBuffer_def gm_put_def Let_def)
  then have w: "WaitForCompletion False two_chunk_buffer = (two_chunk_buffer\<lparr>cb_token := False\<rparr>, None)"
    by (simp add: WaitForCompletion_def)
  show ?thesis using w completion_token_used_once [OF w r, of False] by auto
qed

text \<open>The buffer does not check hashes: a chunk whose data do not match its hash replaces the good
  chunk of the same number without an error.\<close>

theorem buffer_accepts_corrupt_chunk:
  "0 \<le> ck_id ck \<Longrightarrow> ck_id ck < cb_total cb \<Longrightarrow> ck_file_id ck = cb_file_id cb \<Longrightarrow>
   snd (AddChunk now (ck\<lparr>ck_data := bad\<rparr>) cb) = None \<and>
   map_of (cb_chunks (fst (AddChunk now (ck\<lparr>ck_data := bad\<rparr>) cb))) (ck_id ck) = Some (ck\<lparr>ck_data := bad\<rparr>)"
  by (simp add: AddChunk_def Let_def)

lemma buffer_accepts_corrupt_chunk_witness:
  "VerifyChunkHash id_hash ((file_chunk id_hash ''f'' 2 ''abc'' 0)\<lparr>ck_data := ''x''\<rparr>) \<noteq> None \<and>
   snd (AddChunk 9 ((file_chunk id_hash ''f'' 2 ''abc'' 0)\<lparr>ck_data := ''x''\<rparr>) two_chunk_buffer) = None"
proof -
  have "ck_id (file_chunk id_hash ''f'' 2 ''abc'' 0) < cb_total two_chunk_buffer"
    "ck_file_id (file_chunk id_hash ''f'' 2 ''abc'' 0) = cb_file_id two_chunk_buffer"
    by (simp_all add: two_chunk_buffer_def AddChunk_def NewChunkBuffer_def gm_put_def Let_def)
  from buffer_accepts_corrupt_chunk [OF _ this, of 9 "''x''"] show ?thesis
    by (simp add: VerifyChunkHash_def HashString_def id_hash_def hex_encode_def hex_digit_def)
qed

end
