(* ===== verification/ChunkManager.thy ===== *)
theory ChunkManager
  imports ChunkBuffer
begin

text \<open>
  The manager of file transfers, \<^verbatim>\<open>internal/chunking/manager.go\<close>: one record per file, made by
  \<open>StartTransfer\<close> or by the first chunk. Every method holds the locks for its whole body, so each is
  one step; the clock is read once per call. The monitor goroutine only calls \<open>HasTimedOut\<close> and
  discards the result, so it has no effect on the state.
\<close>

record chunk_receipt =
  rc_chunk :: chunk
  rc_received_at :: time
  rc_verified :: bool

record file_transfer =
  ft_file_id :: string
  ft_file_hash :: string
  ft_total :: int
  ft_received :: "(int, chunk_receipt) gomap"
  ft_last_received :: time
  ft_retransmissions :: int
  ft_complete :: bool
  ft_expected_size :: int64

type_synonym chunk_manager = "(string, file_transfer) gomap"

datatype manager_error =
    TransferExists string
  | TransferNotFound string
  | VerificationFailed int string string
  | TransferIncomplete int int
  | AssemblyFailed assemble_error

definition NewChunkManager :: chunk_manager where
  "NewChunkManager = []"

definition StartTransfer ::
  "time \<Rightarrow> string \<Rightarrow> string \<Rightarrow> int \<Rightarrow> int64 \<Rightarrow> chunk_manager \<Rightarrow> chunk_manager \<times> manager_error option" where
  "StartTransfer now fileID fileHash totalChunks expectedSize cm =
     (if map_of cm fileID \<noteq> None then (cm, Some (TransferExists fileID))
      else (gm_put fileID
              \<lparr>ft_file_id = fileID, ft_file_hash = fileHash, ft_total = totalChunks, ft_received = [],
               ft_last_received = now, ft_retransmissions = 0, ft_complete = False,
               ft_expected_size = expectedSize\<rparr> cm, None))"

definition new_transfer :: "time \<Rightarrow> string \<Rightarrow> file_transfer" where
  "new_transfer now fileID =
     \<lparr>ft_file_id = fileID, ft_file_hash = '''', ft_total = 0, ft_received = [],
      ft_last_received = now, ft_retransmissions = 0, ft_complete = False, ft_expected_size = 0\<rparr>"

text \<open>What \<open>ReceiveChunk\<close> does to the transfer once it has stored the receipt.\<close>

definition store_receipt :: "time \<Rightarrow> chunk \<Rightarrow> file_transfer \<Rightarrow> file_transfer" where
  "store_receipt now ck ft =
     (let ft1 = ft\<lparr>ft_received := gm_put (ck_id ck)
                     \<lparr>rc_chunk = ck, rc_received_at = now, rc_verified = True\<rparr> (ft_received ft),
                   ft_last_received := now\<rparr>;
          ft2 = (if ck_is_last ck
                 then ft1\<lparr>ft_total := wrap64 (ck_id ck + 1), ft_file_hash := ck_file_hash ck\<rparr> else ft1)
      in if ft_total ft2 > 0 \<and> int (length (ft_received ft2)) = ft_total ft2
         then ft2\<lparr>ft_complete := True\<rparr> else ft2)"

definition ReceiveChunk ::
  "(bytes \<Rightarrow> bytes) \<Rightarrow> time \<Rightarrow> chunk \<Rightarrow> chunk_manager \<Rightarrow> chunk_manager \<times> manager_error option" where
  "ReceiveChunk H now ck cm =
     (let (ft, cm1) = (case map_of cm (ck_file_id ck) of
                         Some ft \<Rightarrow> (ft, cm)
                       | None \<Rightarrow> (let ft = new_transfer now (ck_file_id ck)
                                  in (ft, gm_put (ck_file_id ck) ft cm)))
      in if map_of (ft_received ft) (ck_id ck) \<noteq> None then (cm1, None)
         else
           (case VerifyChunkHash H ck of
              Some (i, e, a) \<Rightarrow> (cm1, Some (VerificationFailed i e a))
            | None \<Rightarrow> (gm_put (ck_file_id ck) (store_receipt now ck ft) cm1, None)))"

definition IsTransferComplete :: "string \<Rightarrow> chunk_manager \<Rightarrow> bool" where
  "IsTransferComplete fileID cm =
     (case map_of cm fileID of None \<Rightarrow> False | Some ft \<Rightarrow> ft_complete ft)"

definition AssembleFile :: "(bytes \<Rightarrow> bytes) \<Rightarrow> string \<Rightarrow> chunk_manager \<Rightarrow> manager_error + bytes" where
  "AssembleFile H fileID cm =
     (case map_of cm fileID of
        None \<Rightarrow> Inl (TransferNotFound fileID)
      | Some ft \<Rightarrow>
          if \<not> ft_complete ft then
            Inl (TransferIncomplete (int (length (ft_received ft))) (ft_total ft))
          else
            (case AssembleChunks H (map (\<lambda>(_, rc). rc_chunk rc) (ft_received ft)) (ft_file_hash ft) of
               Inl e \<Rightarrow> Inl (AssemblyFailed e)
             | Inr data \<Rightarrow> Inr data))"

definition MissingChunks :: "string \<Rightarrow> chunk_manager \<Rightarrow> manager_error + int list" where
  "MissingChunks fileID cm =
     (case map_of cm fileID of
        None \<Rightarrow> Inl (TransferNotFound fileID)
      | Some ft \<Rightarrow>
          Inr (if ft_total ft = 0 then []
               else filter (\<lambda>i. map_of (ft_received ft) i = None) (map int [0..<nat (ft_total ft)])))"

definition HasTimedOut :: "time \<Rightarrow> string \<Rightarrow> chunk_manager \<Rightarrow> bool" where
  "HasTimedOut now fileID cm =
     (case map_of cm fileID of
        None \<Rightarrow> False
      | Some ft \<Rightarrow>
          if ft_complete ft then False
          else if ft_total ft > 0 \<and> int (length (ft_received ft)) < ft_total ft then
            now - ft_last_received ft > ChunkTimeout
          else False)"

definition IncrementRetransmissionCount ::
  "string \<Rightarrow> chunk_manager \<Rightarrow> chunk_manager \<times> manager_error option" where
  "IncrementRetransmissionCount fileID cm =
     (case map_of cm fileID of
        None \<Rightarrow> (cm, Some (TransferNotFound fileID))
      | Some ft \<Rightarrow>
          (gm_put fileID (ft\<lparr>ft_retransmissions := wrap64 (ft_retransmissions ft + 1)\<rparr>) cm, None))"

definition GetRetransmissionCount :: "string \<Rightarrow> chunk_manager \<Rightarrow> int" where
  "GetRetransmissionCount fileID cm =
     (case map_of cm fileID of None \<Rightarrow> 0 | Some ft \<Rightarrow> ft_retransmissions ft)"

definition CleanupTransfer :: "string \<Rightarrow> chunk_manager \<Rightarrow> chunk_manager" where
  "CleanupTransfer fileID cm = gm_del fileID cm"

definition checkTimeouts :: "time \<Rightarrow> chunk_manager \<Rightarrow> string list" where
  "checkTimeouts now cm = filter (\<lambda>fileID. HasTimedOut now fileID cm) (map fst cm)"

definition GetTransferStatus :: "string \<Rightarrow> chunk_manager \<Rightarrow> manager_error + (int \<times> int \<times> bool)" where
  "GetTransferStatus fileID cm =
     (case map_of cm fileID of
        None \<Rightarrow> Inl (TransferNotFound fileID)
      | Some ft \<Rightarrow> Inr (int (length (ft_received ft)), ft_total ft, ft_complete ft))"

section \<open>Reachable managers\<close>

inductive manager_step :: "(bytes \<Rightarrow> bytes) \<Rightarrow> chunk_manager \<Rightarrow> chunk_manager \<Rightarrow> bool" for H where
  start: "manager_step H cm (fst (StartTransfer now f h n sz cm))"
| receive: "manager_step H cm (fst (ReceiveChunk H now ck cm))"
| retransmit: "manager_step H cm (fst (IncrementRetransmissionCount f cm))"
| cleanup: "manager_step H cm (CleanupTransfer f cm)"

definition manager_reachable :: "(bytes \<Rightarrow> bytes) \<Rightarrow> chunk_manager \<Rightarrow> bool" where
  "manager_reachable H cm \<longleftrightarrow> (manager_step H)\<^sup>*\<^sup>* NewChunkManager cm"

definition transfer_ok :: "(bytes \<Rightarrow> bytes) \<Rightarrow> string \<Rightarrow> file_transfer \<Rightarrow> bool" where
  "transfer_ok H f ft \<longleftrightarrow>
     ft_file_id ft = f \<and> gm_ok (ft_received ft) \<and>
     (\<forall>i rc. map_of (ft_received ft) i = Some rc \<longrightarrow>
        ck_id (rc_chunk rc) = i \<and> ck_file_id (rc_chunk rc) = f \<and> rc_verified rc \<and>
        ck_hash (rc_chunk rc) = HashString H (ck_data (rc_chunk rc)))"

definition manager_inv :: "(bytes \<Rightarrow> bytes) \<Rightarrow> chunk_manager \<Rightarrow> bool" where
  "manager_inv H cm \<longleftrightarrow> gm_ok cm \<and> (\<forall>f ft. map_of cm f = Some ft \<longrightarrow> transfer_ok H f ft)"

lemma manager_inv_new: "manager_inv H NewChunkManager"
  by (simp add: manager_inv_def NewChunkManager_def)

lemma manager_inv_put: "manager_inv H cm \<Longrightarrow> transfer_ok H f ft \<Longrightarrow> manager_inv H (gm_put f ft cm)"
  by (simp add: manager_inv_def)

lemma manager_inv_del: "manager_inv H cm \<Longrightarrow> manager_inv H (gm_del f cm)"
  by (simp add: manager_inv_def)

lemma transfer_ok_new: "transfer_ok H f (new_transfer now f)"
  by (simp add: transfer_ok_def new_transfer_def)

lemma VerifyChunkHash_None: "VerifyChunkHash H ck = None \<longleftrightarrow> ck_hash ck = HashString H (ck_data ck)"
  by (auto simp: VerifyChunkHash_def Let_def)

lemma store_receipt_fields:
  "ft_received (store_receipt now ck ft) =
     gm_put (ck_id ck) \<lparr>rc_chunk = ck, rc_received_at = now, rc_verified = True\<rparr> (ft_received ft)"
  "ft_file_id (store_receipt now ck ft) = ft_file_id ft"
  "ft_total (store_receipt now ck ft) = (if ck_is_last ck then wrap64 (ck_id ck + 1) else ft_total ft)"
  "ft_file_hash (store_receipt now ck ft) = (if ck_is_last ck then ck_file_hash ck else ft_file_hash ft)"
  by (simp_all add: store_receipt_def Let_def)

lemma transfer_ok_store:
  "transfer_ok H f ft \<Longrightarrow> ck_file_id ck = f \<Longrightarrow> VerifyChunkHash H ck = None \<Longrightarrow>
   transfer_ok H f (store_receipt now ck ft)"
  by (simp add: transfer_ok_def store_receipt_fields VerifyChunkHash_None)

lemma manager_inv_receive: "manager_inv H cm \<Longrightarrow> manager_inv H (fst (ReceiveChunk H now ck cm))"
  by (auto simp: ReceiveChunk_def Let_def manager_inv_def transfer_ok_new
      intro: transfer_ok_store split: option.splits)

lemma manager_inv_start: "manager_inv H cm \<Longrightarrow> manager_inv H (fst (StartTransfer now f h n sz cm))"
  by (simp add: StartTransfer_def manager_inv_def transfer_ok_def)

lemma manager_inv_retransmit:
  "manager_inv H cm \<Longrightarrow> manager_inv H (fst (IncrementRetransmissionCount f cm))"
  by (auto simp: IncrementRetransmissionCount_def manager_inv_def transfer_ok_def split: option.splits)

lemma manager_inv_step: "manager_step H cm cm' \<Longrightarrow> manager_inv H cm \<Longrightarrow> manager_inv H cm'"
  by (induction rule: manager_step.induct)
     (simp_all add: manager_inv_start manager_inv_receive manager_inv_retransmit manager_inv_del
       CleanupTransfer_def)

lemma manager_reachable_inv: "manager_reachable H cm \<Longrightarrow> manager_inv H cm"
  unfolding manager_reachable_def
  by (induction rule: rtranclp_induct) (auto simp: manager_inv_new intro: manager_inv_step)

section \<open>Receiving a whole file\<close>

definition receive_all ::
  "(bytes \<Rightarrow> bytes) \<Rightarrow> (time \<times> chunk) list \<Rightarrow> chunk_manager \<Rightarrow> chunk_manager" where
  "receive_all H arrivals cm = foldl (\<lambda>cm (now, ck). fst (ReceiveChunk H now ck cm)) cm arrivals"

text \<open>The chunk number \<open>i\<close> of a file whose sender fills in the file hash \<open>h\<close>.\<close>

definition sent_chunk :: "(bytes \<Rightarrow> bytes) \<Rightarrow> string \<Rightarrow> nat \<Rightarrow> bytes \<Rightarrow> string \<Rightarrow> nat \<Rightarrow> chunk" where
  "sent_chunk H f k data h i = (file_chunk H f k data i)\<lparr>ck_file_hash := h\<rparr>"

text \<open>The state of the transfer after the chunks with the numbers in \<open>S\<close> have arrived.\<close>

definition transfer_after ::
  "(bytes \<Rightarrow> bytes) \<Rightarrow> string \<Rightarrow> nat \<Rightarrow> bytes \<Rightarrow> string \<Rightarrow> nat set \<Rightarrow> file_transfer \<Rightarrow> bool" where
  "transfer_after H f k data h S ft \<longleftrightarrow>
     (let m = chunk_count k (length data)
      in gm_ok (ft_received ft) \<and> dom (map_of (ft_received ft)) = int ` S \<and>
         (\<forall>i rc. map_of (ft_received ft) (int i) = Some rc \<longrightarrow> rc_chunk rc = sent_chunk H f k data h i) \<and>
         ft_total ft = (if m - 1 \<in> S then int m else 0) \<and>
         ft_file_hash ft = (if m - 1 \<in> S then h else '''') \<and>
         (ft_complete ft \<longleftrightarrow> S = {0..<m}))"

lemma transfer_after_new: "transfer_after H f k data h {} (new_transfer now f)"
  using chunk_count_pos [of k "length data"]
  by (auto simp: transfer_after_def new_transfer_def Let_def)

lemma sent_chunk_fields [simp]:
  "ck_id (sent_chunk H f k data h i) = int i" "ck_file_id (sent_chunk H f k data h i) = f"
  "ck_is_last (sent_chunk H f k data h i) = (i = chunk_count k (length data) - 1)"
  "ck_file_hash (sent_chunk H f k data h i) = h"
  "VerifyChunkHash H (sent_chunk H f k data h i) = None"
  by (simp_all add: sent_chunk_def VerifyChunkHash_def)

lemma chunk_count_int64: "0 < k \<Longrightarrow> in_int64 (int n + int k) \<Longrightarrow> in_int64 (int (chunk_count k n))"
proof -
  assume k: "0 < k" and r: "in_int64 (int n + int k)"
  have "(n + k - 1) div k \<le> n + k - 1" by simp
  then have "chunk_count k n \<le> n + k"
    unfolding chunk_count_def using k by (intro max.boundedI) linarith+
  then show ?thesis using r unfolding in_int64_def by linarith
qed

lemma transfer_after_store:
  assumes "transfer_after H f k data h S ft" "i < chunk_count k (length data)" "i \<notin> S"
    "S \<subseteq> {0..<chunk_count k (length data)}" "0 < k" "in_int64 (int (length data) + int k)"
  shows "transfer_after H f k data h (insert i S) (store_receipt now (sent_chunk H f k data h i) ft)"
proof -
  let ?m = "chunk_count k (length data)" and ?ft = "store_receipt now (sent_chunk H f k data h i) ft"
  have ok: "gm_ok (ft_received ?ft)" and dom: "dom (map_of (ft_received ?ft)) = int ` insert i S"
    using assms(1) by (simp_all add: transfer_after_def store_receipt_fields Let_def)
  have total: "ft_total ?ft = (if ?m - 1 \<in> insert i S then int ?m else 0)"
    using assms(1,2) chunk_count_int64 [OF assms(5,6)]
    by (auto simp: transfer_after_def store_receipt_fields Let_def)
  have fin: "finite (insert i S)" using assms(4) finite_subset by auto
  have len: "length (ft_received ?ft) = card (insert i S)"
    using gm_card [OF ok] dom by (simp only: card_image inj_on_of_nat)
  have sub: "insert i S \<subseteq> {0..<?m}" using assms(2,4) by auto
  have full: "insert i S = {0..<?m} \<longleftrightarrow> card (insert i S) = ?m"
    using card_subset_eq [OF _ sub] by auto
  have "ft_complete ?ft \<longleftrightarrow> ft_complete ft \<or>
      ft_total ?ft > 0 \<and> int (length (ft_received ?ft)) = ft_total ?ft"
    by (auto simp: store_receipt_def Let_def)
  moreover have "\<not> ft_complete ft" using assms(1-3) by (auto simp: transfer_after_def Let_def)
  moreover have "?m - 1 \<in> insert i S" if "insert i S = {0..<?m}"
    using that chunk_count_pos [of k "length data"] by auto
  ultimately have "ft_complete ?ft \<longleftrightarrow> insert i S = {0..<?m}"
    unfolding total len using full chunk_count_pos [of k "length data"] by auto
  then show ?thesis
    using ok dom total assms(1)
    by (simp add: transfer_after_def store_receipt_fields Let_def)
qed

definition transfer_state ::
  "(bytes \<Rightarrow> bytes) \<Rightarrow> string \<Rightarrow> nat \<Rightarrow> bytes \<Rightarrow> string \<Rightarrow> nat set \<Rightarrow> chunk_manager \<Rightarrow> bool" where
  "transfer_state H f k data h S cm \<longleftrightarrow>
     (case map_of cm f of None \<Rightarrow> S = {} | Some ft \<Rightarrow> transfer_after H f k data h S ft)"

lemma transfer_state_receive:
  assumes "transfer_state H f k data h S cm" "i < chunk_count k (length data)"
    "S \<subseteq> {0..<chunk_count k (length data)}" "0 < k" "in_int64 (int (length data) + int k)"
  shows "transfer_state H f k data h (insert i S) (fst (ReceiveChunk H now (sent_chunk H f k data h i) cm))"
proof -
  have *: "transfer_state H f k data h (insert i S)
      (if map_of (ft_received ft) (int i) \<noteq> None then cm1
       else gm_put f (store_receipt now (sent_chunk H f k data h i) ft) cm1)"
    if ft: "transfer_after H f k data h S ft" "map_of cm1 f = Some ft" for ft cm1
  proof (cases "i \<in> S")
    case True
    then have "map_of (ft_received ft) (int i) \<noteq> None"
      using ft(1) by (auto simp: transfer_after_def Let_def domIff [symmetric])
    with True ft show ?thesis by (simp add: transfer_state_def insert_absorb)
  next
    case False
    then have "int i \<notin> dom (map_of (ft_received ft))"
      using ft(1) by (auto simp: transfer_after_def Let_def)
    then show ?thesis
      using transfer_after_store [OF ft(1) assms(2) False assms(3-5)]
      by (simp add: transfer_state_def domIff)
  qed
  show ?thesis
  proof (cases "map_of cm f")
    case None
    then show ?thesis
      using * [of "new_transfer now f" "gm_put f (new_transfer now f) cm"] transfer_after_new assms(1)
      by (auto simp: ReceiveChunk_def Let_def transfer_state_def split: if_splits)
  next
    case (Some ft)
    then show ?thesis
      using * [of ft cm] assms(1)
      by (auto simp: ReceiveChunk_def Let_def transfer_state_def split: if_splits)
  qed
qed

lemma transfer_state_receive_all:
  assumes "0 < k" "in_int64 (int (length data) + int k)"
  shows "snd ` set arrivals \<subseteq> sent_chunk H f k data h ` {0..<chunk_count k (length data)} \<Longrightarrow>
    S \<subseteq> {0..<chunk_count k (length data)} \<Longrightarrow> transfer_state H f k data h S cm \<Longrightarrow>
    \<exists>S'. transfer_state H f k data h S' (receive_all H arrivals cm) \<and>
      int ` S' = int ` S \<union> ck_id ` snd ` set arrivals"
proof (induction arrivals arbitrary: S cm)
  case (Cons a arrivals)
  obtain now i where a: "a = (now, sent_chunk H f k data h i)" "i < chunk_count k (length data)"
    using Cons.prems(1) by (cases a) auto
  have "insert i S \<subseteq> {0..<chunk_count k (length data)}" using a(2) Cons.prems(2) by simp
  from Cons.IH [OF _ this transfer_state_receive [OF Cons.prems(3) a(2) Cons.prems(2) assms, of now]]
  obtain S' where "transfer_state H f k data h S' (receive_all H arrivals
        (fst (ReceiveChunk H now (sent_chunk H f k data h i) cm)))"
      "int ` S' = int ` insert i S \<union> ck_id ` snd ` set arrivals"
    using Cons.prems(1) by auto
  then show ?case by (auto simp: receive_all_def a(1) intro!: exI [of _ S'])
qed (auto simp: receive_all_def)

text \<open>A complete transfer assembles to the file.\<close>

lemma AssembleFile_after:
  assumes after: "transfer_after H f k data h {0..<chunk_count k (length data)} ft"
    and cm: "map_of cm f = Some ft" and k: "0 < k" and r: "in_int64 (int (length data) + int k)"
  shows "AssembleFile H f cm =
    (if HashString H data = h then Inr data
     else Inl (AssemblyFailed (FileHashMismatch h (HashString H data))))"
proof -
  let ?m = "chunk_count k (length data)" and ?cks = "map (\<lambda>(_, rc). rc_chunk rc) (ft_received ft)"
  let ?plain = "map (ck_file_hash_update (\<lambda>_. '''')) ?cks"
  have ok: "gm_ok (ft_received ft)" and dom: "dom (map_of (ft_received ft)) = int ` {0..<?m}"
    and entry: "\<And>i rc. map_of (ft_received ft) (int i) = Some rc \<Longrightarrow> rc_chunk rc = sent_chunk H f k data h i"
    using after by (simp_all add: transfer_after_def Let_def)
  have e: "i \<in> int ` {0..<?m} \<and> rc_chunk rc = sent_chunk H f k data h (nat i)"
    if "(i, rc) \<in> set (ft_received ft)" for i rc
  proof -
    have "map_of (ft_received ft) i = Some rc" using ok that by (simp add: gm_ok_def)
    moreover from this have "i \<in> int ` {0..<?m}" using dom by blast
    ultimately show ?thesis using entry [of "nat i" rc] by auto
  qed
  then have "?plain = map (\<lambda>i. file_chunk H f k data (nat i)) (map fst (ft_received ft))"
    by (auto simp: sent_chunk_def comp_def case_prod_unfold file_chunk_def Let_def)
  then have "mset ?plain = image_mset (\<lambda>i. file_chunk H f k data (nat i)) (mset (map fst (ft_received ft)))"
    by (simp only: mset_map)
  also have "mset (map fst (ft_received ft)) = mset (map int [0..<?m])"
  proof -
    have "set (map fst (ft_received ft)) = set (map int [0..<?m])"
      using dom by (simp add: dom_map_of_conv_image_fst)
    moreover have "distinct (map int [0..<?m])" by (simp add: distinct_map)
    ultimately show ?thesis using ok unfolding gm_ok_def by (metis set_eq_iff_mset_eq_distinct)
  qed
  also have "image_mset (\<lambda>i. file_chunk H f k data (nat i)) (mset (map int [0..<?m])) =
      mset (file_chunks H f k data)"
    by (simp add: file_chunks_def comp_def flip: mset_map)
  finally have perm: "mset ?plain = mset (file_chunks H f k data)" .
  have "in_int64 (int (length data))" using r by (simp add: in_int64_def)
  from AssembleChunks_file_chunks [OF k this perm, of H h]
  have "AssembleChunks H ?cks h = (if HashString H data = h then Inr data
      else Inl (FileHashMismatch h (HashString H data)))"
    by (simp only: AssembleChunks_file_hash)
  moreover have "ft_complete ft" "ft_file_hash ft = h"
    using after chunk_count_pos [of k "length data"] by (auto simp: transfer_after_def Let_def)
  ultimately show ?thesis by (simp add: AssembleFile_def cm)
qed

lemma receive_all_delivers:
  assumes "0 < k" "in_int64 (int (length data) + int k)" "map_of cm f = None"
    and "ChunkFile H (NewChunker (int k)) f data = Some chunks"
    and "snd ` set arrivals = ck_file_hash_update (\<lambda>_. h) ` set chunks"
  shows "IsTransferComplete f (receive_all H arrivals cm) \<and>
    MissingChunks f (receive_all H arrivals cm) = Inr [] \<and>
    AssembleFile H f (receive_all H arrivals cm) =
      (if HashString H data = h then Inr data
       else Inl (AssemblyFailed (FileHashMismatch h (HashString H data))))"
proof -
  let ?m = "chunk_count k (length data)" and ?cm = "receive_all H arrivals cm"
  have arr: "snd ` set arrivals = sent_chunk H f k data h ` {0..<?m}"
  proof -
    have "chunks = map (file_chunk H f k data) [0..<?m]"
      using assms(4) ChunkFile_file_chunks [OF assms(1,2), of H f] by (simp add: file_chunks_def)
    then show ?thesis using assms(5) by (simp add: sent_chunk_def image_image)
  qed
  obtain S where S: "transfer_state H f k data h S ?cm" "int ` S = ck_id ` snd ` set arrivals"
    using transfer_state_receive_all [OF assms(1,2), of arrivals H f h "{}" cm] arr assms(3)
    by (auto simp: transfer_state_def)
  have "int ` S = int ` {0..<?m}" unfolding S(2) arr by (simp add: image_image)
  then have "S = {0..<?m}" by (simp add: inj_image_eq_iff)
  then obtain ft where ft: "map_of ?cm f = Some ft" "transfer_after H f k data h {0..<?m} ft"
    using S(1) chunk_count_pos [of k "length data"] by (auto simp: transfer_state_def split: option.splits)
  then have "ft_complete ft" "ft_total ft = int ?m" "dom (map_of (ft_received ft)) = int ` {0..<?m}"
    using chunk_count_pos [of k "length data"] by (auto simp: transfer_after_def Let_def)
  then have "IsTransferComplete f ?cm" "MissingChunks f ?cm = Inr []"
    using ft(1) chunk_count_pos [of k "length data"]
    by (auto simp: IsTransferComplete_def MissingChunks_def filter_empty_conv domIff)
  with AssembleFile_after [OF ft(2,1) assms(1,2)] show ?thesis by simp
qed

section \<open>Properties\<close>

text \<open>C13. Every transfer the manager can ever hold keeps its chunks under their own numbers, holds only
  chunks of its own file, and only chunks whose hash matches their data.\<close>

theorem manager_holds_verified_chunks:
  assumes "manager_reachable H cm" "map_of cm f = Some ft" "map_of (ft_received ft) i = Some rc"
  shows "ck_id (rc_chunk rc) = i \<and> ck_file_id (rc_chunk rc) = f \<and> rc_verified rc \<and>
    ck_hash (rc_chunk rc) = HashString H (ck_data (rc_chunk rc))"
  using manager_reachable_inv [OF assms(1)] assms(2,3) by (auto simp: manager_inv_def transfer_ok_def)

definition one_chunk_manager :: chunk_manager where
  "one_chunk_manager = fst (ReceiveChunk id_hash 5 (file_chunk id_hash ''f'' 2 ''abc'' 1) NewChunkManager)"

lemma manager_holds_verified_chunks_witness:
  "\<exists>ft rc. map_of one_chunk_manager ''f'' = Some ft \<and> map_of (ft_received ft) 1 = Some rc \<and>
     ck_id (rc_chunk rc) = 1 \<and> ck_file_id (rc_chunk rc) = ''f'' \<and> rc_verified rc \<and>
     ck_hash (rc_chunk rc) = HashString id_hash (ck_data (rc_chunk rc))"
proof -
  have "manager_reachable id_hash one_chunk_manager"
    unfolding manager_reachable_def one_chunk_manager_def
    by (rule r_into_rtranclp) (rule manager_step.receive)
  moreover obtain ft rc where "map_of one_chunk_manager ''f'' = Some ft" "map_of (ft_received ft) 1 = Some rc"
    by (auto simp: one_chunk_manager_def ReceiveChunk_def NewChunkManager_def VerifyChunkHash_def Let_def
        store_receipt_fields new_transfer_def)
  ultimately show ?thesis using manager_holds_verified_chunks by blast
qed

text \<open>C12. Delivery: when all the chunks of a file have arrived at a manager that had no transfer for it,
  in any order, at any times and with any repetitions, the transfer is complete, nothing is missing
  and \<open>AssembleFile\<close> returns the file if the chunks carry its hash, and a hash mismatch otherwise.\<close>

theorem manager_delivers_file:
  assumes "0 < k" "in_int64 (int (length data) + int k)" "map_of cm f = None"
    and "ChunkFile H (NewChunker (int k)) f data = Some chunks"
    and "snd ` set arrivals = ck_file_hash_update (\<lambda>_. h) ` set chunks"
  shows "IsTransferComplete f (receive_all H arrivals cm) \<and>
    MissingChunks f (receive_all H arrivals cm) = Inr [] \<and>
    AssembleFile H f (receive_all H arrivals cm) =
      (if HashString H data = h then Inr data
       else Inl (AssemblyFailed (FileHashMismatch h (HashString H data))))"
  using assms by (rule receive_all_delivers)

lemma manager_delivers_file_witness:
  "AssembleFile id_hash ''f'' (receive_all id_hash
     (map (\<lambda>ck. (3, ck\<lparr>ck_file_hash := HashString id_hash ''abc''\<rparr>))
       (let c = file_chunks id_hash ''f'' 2 ''abc'' in rev c @ c)) NewChunkManager) = Inr ''abc''"
  using manager_delivers_file [of 2 "''abc''" NewChunkManager "''f''" id_hash "file_chunks id_hash ''f'' 2 ''abc''"
      "map (\<lambda>ck. (3, ck\<lparr>ck_file_hash := HashString id_hash ''abc''\<rparr>))
        (let c = file_chunks id_hash ''f'' 2 ''abc'' in rev c @ c)" "HashString id_hash ''abc''"]
    ChunkFile_file_chunks [of 2 "''abc''" id_hash "''f''"]
  by (simp add: in_int64_def NewChunkManager_def image_image Let_def image_Un)

text \<open>The chunks as \<open>ChunkFile\<close> makes them cannot be assembled by the manager: none carries the
  hash of the file, so the transfer becomes complete but its assembly is checked against an empty
  hash and fails, for every file and every arrival order.\<close>

theorem chunker_output_never_assembles:
  assumes "0 < k" "in_int64 (int (length data) + int k)" "map_of cm f = None" "H data \<noteq> []"
    and "ChunkFile H (NewChunker (int k)) f data = Some chunks" "snd ` set arrivals = set chunks"
  shows "AssembleFile H f (receive_all H arrivals cm) =
    Inl (AssemblyFailed (FileHashMismatch '''' (HashString H data)))"
proof -
  have "ck\<lparr>ck_file_hash := ''''\<rparr> = ck" if "ck \<in> set chunks" for ck
    using that assms(5) ChunkFile_file_chunks [OF assms(1,2), of H f]
    by (auto simp: file_chunks_def file_chunk_def Let_def)
  then have "snd ` set arrivals = ck_file_hash_update (\<lambda>_. '''') ` set chunks"
    using assms(6) by simp
  moreover have "HashString H data \<noteq> ''''"
    using assms(4) by (cases "H data") (simp_all add: HashString_def hex_encode_def)
  ultimately show ?thesis using receive_all_delivers [OF assms(1-3,5)] by simp
qed

lemma chunker_output_never_assembles_witness:
  "AssembleFile id_hash ''f'' (receive_all id_hash
     (map (Pair 3) (file_chunks id_hash ''f'' 2 ''abc'')) NewChunkManager) =
   Inl (AssemblyFailed (FileHashMismatch '''' (HashString id_hash ''abc'')))"
  by (rule chunker_output_never_assembles [of 2, OF _ _ _ _ ChunkFile_file_chunks])
     (simp_all add: in_int64_def NewChunkManager_def image_image id_hash_def)

text \<open>A transfer can be complete and yet miss a chunk: completion counts the stored chunks, and a
  chunk whose number is past the end counts too.\<close>

theorem complete_with_missing_chunk:
  assumes "map_of cm f = None" "ck_file_id a = f" "ck_file_id b = f" "ck_id a = 1" "ck_is_last a"
    "1 < ck_id b" "\<not> ck_is_last b" "VerifyChunkHash H a = None" "VerifyChunkHash H b = None"
  shows "IsTransferComplete f (receive_all H [(t1, a), (t2, b)] cm) \<and>
    MissingChunks f (receive_all H [(t1, a), (t2, b)] cm) = Inr [0]"
proof -
  let ?ft = "store_receipt t2 b (store_receipt t1 a (new_transfer t1 f))"
  have "map_of (receive_all H [(t1, a), (t2, b)] cm) f = Some ?ft"
    using assms by (simp add: receive_all_def ReceiveChunk_def Let_def store_receipt_fields new_transfer_def)
  moreover have "map_of (ft_received ?ft) i = None \<longleftrightarrow> i \<noteq> 1 \<and> i \<noteq> ck_id b" for i
    using assms(4) by (simp add: store_receipt_fields new_transfer_def)
  moreover have "length (ft_received ?ft) = 2"
    using assms(4,6) by (simp add: store_receipt_fields new_transfer_def gm_put_def)
  moreover have "ft_total ?ft = 2" "ft_complete ?ft"
    using assms by (simp_all add: store_receipt_def new_transfer_def gm_put_def wrap64_def)
  moreover have "map int [0..<nat 2] = [0, 1]" by (simp add: eval_nat_numeral)
  ultimately show ?thesis
    using assms(6) by (simp add: IsTransferComplete_def MissingChunks_def)
qed

lemma complete_with_missing_chunk_witness:
  "let a = file_chunk id_hash ''f'' 2 ''abc'' 1; b = (file_chunk id_hash ''f'' 2 ''abc'' 0)\<lparr>ck_id := 7\<rparr>
   in IsTransferComplete ''f'' (receive_all id_hash [(1, a), (2, b)] []) \<and>
      MissingChunks ''f'' (receive_all id_hash [(1, a), (2, b)] []) = Inr [0]"
  unfolding Let_def
  by (rule complete_with_missing_chunk) (simp_all add: chunk_count_def VerifyChunkHash_def)

end
