(* ===== verification/Float64.thy ===== *)
theory Float64
  imports Prelude Complex_Main "HOL-Library.Log_Nat"
begin

text \<open>
  Go's \<open>float64\<close> where the code computes with durations: rounding to 53 significant bits, to nearest
  and to even on a tie, on rational numbers. The values that occur are zero or normal numbers, so
  neither underflow nor infinities are needed; a value is represented by the number it denotes.
\<close>

section \<open>Rounding\<close>

definition pow2 :: "int \<Rightarrow> rat" where
  "pow2 e = (if 0 \<le> e then 2 ^ nat e else 1 / 2 ^ nat (- e))"

definition floor_log2 :: "rat \<Rightarrow> int" where
  "floor_log2 x =
     (let (a, b) = quotient_of x; l = int (floorlog 2 (nat a)) - int (floorlog 2 (nat b))
      in if pow2 l \<le> x then l else l - 1)"

definition round_even :: "rat \<Rightarrow> int" where
  "round_even y =
     (let n = \<lfloor>y\<rfloor>; d = y - of_int n
      in if d < 1 / 2 then n else if 1 / 2 < d then n + 1 else if even n then n else n + 1)"

definition fl64 :: "rat \<Rightarrow> rat" where
  "fl64 x = (if x \<le> 0 then 0 else (let e = floor_log2 x - 52 in of_int (round_even (x / pow2 e)) * pow2 e))"

text \<open>Conversion to \<open>int64\<close>: truncation; out of range, the smallest value, as on amd64.\<close>

definition float_to_int64 :: "rat \<Rightarrow> int64" where
  "float_to_int64 x = (if x < 2 ^ 63 then \<lfloor>x\<rfloor> else - (2 ^ 63))"

text \<open>\<open>time.Duration.Seconds\<close> of a duration that is not negative.\<close>

definition seconds :: "int64 \<Rightarrow> rat" where
  "seconds d = fl64 (fl64 (of_int (d div 10 ^ 9)) + fl64 (fl64 (of_int (d mod 10 ^ 9)) / 10 ^ 9))"

section \<open>Lemmas\<close>

lemma pow2_pos [simp]: "0 < pow2 e"
  by (simp add: pow2_def)

lemma pow2_nonzero [simp]: "pow2 e \<noteq> 0"
  using pow2_pos [of e] by linarith

lemma pow2_powi: "pow2 e = 2 powi e"
  by (simp add: pow2_def power_int_def inverse_eq_divide power_one_over)

lemma pow2_add: "pow2 (a + b) = pow2 a * pow2 b"
  by (simp add: pow2_powi power_int_add)

lemma pow2_mono: "a \<le> b \<Longrightarrow> pow2 a \<le> pow2 b"
  by (simp add: pow2_powi power_int_increasing)

lemma pow2_nat: "pow2 (int n) = 2 ^ n"
  by (simp add: pow2_def)

lemma pow2_52: "pow2 52 = 2 ^ 52"
  by (simp add: pow2_def)

lemma fl64_zero [simp]: "fl64 0 = 0"
  by (simp add: fl64_def)

lemma floorlog2_bounds:
  assumes "0 < n"
  shows "pow2 (int (floorlog 2 n) - 1) \<le> of_nat n" "of_nat n < pow2 (int (floorlog 2 n))"
proof -
  have b: "2 ^ (floorlog 2 n - 1) \<le> n \<and> n < 2 ^ floorlog 2 n"
    using assms floorlog_bounds [of n 2] by simp
  have "floorlog 2 n \<noteq> 0" using assms by (simp add: floorlog_eq_zero_iff)
  then have e: "int (floorlog 2 n) - 1 = int (floorlog 2 n - 1)" by simp
  show "pow2 (int (floorlog 2 n) - 1) \<le> of_nat n"
    using b unfolding e pow2_nat by (metis of_nat_le_iff of_nat_numeral of_nat_power)
  show "of_nat n < pow2 (int (floorlog 2 n))"
    using b unfolding pow2_nat by (metis of_nat_less_iff of_nat_numeral of_nat_power)
qed

lemma floor_log2_bounds:
  assumes "0 < x"
  shows "pow2 (floor_log2 x) \<le> x" "x < pow2 (floor_log2 x + 1)"
proof -
  obtain a b where q: "quotient_of x = (a, b)" by (cases "quotient_of x")
  have b: "0 < b" using q by (rule quotient_of_denom_pos)
  have x: "x = of_int a / of_int b" using q by (rule quotient_of_div)
  then have a: "0 < a" using assms b by (simp add: zero_less_divide_iff)
  define A B where "A = int (floorlog 2 (nat a))" and "B = int (floorlog 2 (nat b))"
  have A: "pow2 (A - 1) \<le> of_int a" "of_int a < pow2 A"
    using floorlog2_bounds [of "nat a"] a by (simp_all add: A_def)
  have B: "pow2 (B - 1) \<le> of_int b" "of_int b < pow2 B"
    using floorlog2_bounds [of "nat b"] b by (simp_all add: B_def)
  have up: "x < pow2 (A - B + 1)"
  proof -
    have "of_int a < pow2 (A - B + 1) * pow2 (B - 1)" using A(2) by (simp add: pow2_add [symmetric])
    also have "\<dots> \<le> pow2 (A - B + 1) * of_int b" using B(1) by (intro mult_left_mono) (simp_all add: less_imp_le)
    finally show ?thesis using b by (simp add: x field_simps)
  qed
  have lo: "pow2 (A - B - 1) \<le> x"
  proof -
    have "pow2 (A - B - 1) * of_int b \<le> pow2 (A - B - 1) * pow2 B" using B(2) by (intro mult_left_mono) (simp_all add: less_imp_le)
    also have "\<dots> \<le> of_int a" using A(1) by (simp add: pow2_add [symmetric])
    finally show ?thesis using b by (simp add: x field_simps)
  qed
  have l: "floor_log2 x = (if pow2 (A - B) \<le> x then A - B else A - B - 1)"
    by (simp add: floor_log2_def q A_def B_def Let_def)
  show "pow2 (floor_log2 x) \<le> x" "x < pow2 (floor_log2 x + 1)" using up lo by (simp_all add: l)
qed

lemma round_even_bounds: "\<lfloor>y\<rfloor> \<le> round_even y" "round_even y \<le> \<lfloor>y\<rfloor> + 1"
  by (simp_all add: round_even_def Let_def)

lemma fl64_nonneg: "0 \<le> fl64 x"
proof (cases "0 < x")
  case True
  then have "0 \<le> x / pow2 (floor_log2 x - 52)" by (simp add: less_imp_le)
  then have "0 \<le> \<lfloor>x / pow2 (floor_log2 x - 52)\<rfloor>" by simp
  then have "0 \<le> round_even (x / pow2 (floor_log2 x - 52))" using round_even_bounds(1) order_trans by blast
  then show ?thesis by (simp add: fl64_def Let_def less_imp_le)
qed (simp add: fl64_def)

text \<open>The scaled value that is rounded lies between \<open>2 ^ 52\<close> and \<open>2 ^ 53\<close>.\<close>

lemma fl64_scaled:
  assumes "0 < x"
  defines "e \<equiv> floor_log2 x - 52"
  shows "2 ^ 52 \<le> x / pow2 e" "fl64 x = of_int (round_even (x / pow2 e)) * pow2 e"
proof -
  have "floor_log2 x = int 52 + e" by (simp add: e_def)
  then have "2 ^ 52 * pow2 e \<le> x" using floor_log2_bounds(1) [OF assms(1)] by (simp only: pow2_add pow2_nat)
  then show "2 ^ 52 \<le> x / pow2 e" by (simp add: pos_le_divide_eq)
  show "fl64 x = of_int (round_even (x / pow2 e)) * pow2 e"
    using assms(1) by (simp add: fl64_def e_def Let_def)
qed

lemma fl64_ge_pow2:
  assumes "0 < x"
  shows "pow2 (floor_log2 x) \<le> fl64 x"
proof -
  let ?e = "floor_log2 x - 52"
  have "2 ^ 52 \<le> \<lfloor>x / pow2 ?e\<rfloor>" using fl64_scaled(1) [OF assms] by (simp add: le_floor_iff)
  then have "(2 :: rat) ^ 52 \<le> of_int (round_even (x / pow2 ?e))"
    using round_even_bounds(1) [of "x / pow2 ?e"] by (metis of_int_le_iff of_int_numeral of_int_power order_trans)
  then have "2 ^ 52 * pow2 ?e \<le> fl64 x" unfolding fl64_scaled(2) [OF assms] by (intro mult_right_mono) (simp_all add: less_imp_le)
  moreover have "pow2 (floor_log2 x) = 2 ^ 52 * pow2 ?e" using pow2_add [of 52 ?e] by (simp add: pow2_52)
  ultimately show ?thesis by simp
qed

lemma fl64_ge_one:
  assumes "1 \<le> x"
  shows "1 \<le> fl64 x"
proof -
  have "0 \<le> floor_log2 x"
  proof (rule ccontr)
    assume "\<not> 0 \<le> floor_log2 x"
    then have "pow2 (floor_log2 x + 1) \<le> pow2 0" by (intro pow2_mono) simp
    moreover have "x < pow2 (floor_log2 x + 1)" using assms by (intro floor_log2_bounds) simp
    ultimately show False using assms by (simp add: pow2_def)
  qed
  then have "pow2 0 \<le> pow2 (floor_log2 x)" by (rule pow2_mono)
  moreover have "pow2 (floor_log2 x) \<le> fl64 x" using assms by (intro fl64_ge_pow2) simp
  ultimately show ?thesis by (simp add: pow2_def)
qed

lemma fl64_le_double:
  assumes "0 \<le> x"
  shows "fl64 x \<le> 2 * x"
proof (cases "x = 0")
  case False
  then have x: "0 < x" using assms by simp
  let ?e = "floor_log2 x - 52" and ?y = "x / pow2 (floor_log2 x - 52)"
  have "of_int (round_even ?y) \<le> (of_int (\<lfloor>?y\<rfloor> + 1) :: rat)" using round_even_bounds(2) of_int_le_iff by blast
  also have "\<dots> \<le> ?y + 1" using of_int_floor_le [of ?y] by simp
  also have "\<dots> \<le> 2 * ?y"
  proof -
    have "(1 :: rat) \<le> 2 ^ 52" by simp
    also have "\<dots> \<le> ?y" by (rule fl64_scaled(1) [OF x])
    finally show ?thesis by linarith
  qed
  finally have "of_int (round_even ?y) * pow2 ?e \<le> 2 * ?y * pow2 ?e" by (intro mult_right_mono) (simp_all add: less_imp_le)
  moreover have "2 * ?y * pow2 ?e = 2 * x" by simp
  ultimately show ?thesis unfolding fl64_scaled(2) [OF x] by linarith
qed (simp add: fl64_def)

text \<open>Integers of up to 53 bits are exact.\<close>

lemma fl64_exact:
  assumes "0 \<le> n" "n < 2 ^ 53"
  shows "fl64 (of_int n) = of_int n"
proof (cases "n = 0")
  case False
  then have x: "0 < (of_int n :: rat)" using assms by simp
  let ?e = "floor_log2 (of_int n) - 52"
  have "?e \<le> 0"
  proof (rule ccontr)
    assume "\<not> ?e \<le> 0"
    then have "pow2 (int 53) \<le> pow2 (floor_log2 (of_int n))" by (intro pow2_mono) simp
    also have "\<dots> \<le> of_int n" by (rule floor_log2_bounds(1) [OF x])
    finally have "(2 :: rat) ^ 53 \<le> of_int n" unfolding pow2_nat .
    moreover have "of_int n < (2 :: rat) ^ 53" using assms(2) by (metis of_int_less_iff of_int_numeral of_int_power)
    ultimately show False by linarith
  qed
  then obtain k where k: "?e = - int k" by (metis nonneg_int_cases neg_0_le_iff_le minus_minus)
  have p: "pow2 ?e = 1 / 2 ^ k" unfolding k by (simp add: pow2_def)
  have y: "of_int n / pow2 ?e = (of_int (n * 2 ^ k) :: rat)" by (simp add: p)
  have "round_even (of_int n / pow2 ?e) = n * 2 ^ k" unfolding y by (simp only: round_even_def Let_def floor_of_int) simp
  then show ?thesis unfolding fl64_scaled(2) [OF x] p by simp
qed (simp add: fl64_def)

lemma seconds_whole:
  assumes "0 \<le> k" "k < 2 ^ 53"
  shows "seconds (k * 10 ^ 9) = of_int k"
  using assms by (simp add: seconds_def fl64_exact)

lemma seconds_nonneg: "0 \<le> seconds d"
  by (simp add: seconds_def fl64_nonneg)

lemma seconds_ge_one:
  assumes "10 ^ 9 \<le> d"
  shows "1 \<le> seconds d"
proof -
  have "1 \<le> d div 10 ^ 9" using zdiv_mono1 [OF assms, of "10 ^ 9"] by simp
  then have "(1 :: rat) \<le> of_int (d div 10 ^ 9)" by linarith
  then have "1 \<le> fl64 (of_int (d div 10 ^ 9))" by (rule fl64_ge_one)
  then show ?thesis unfolding seconds_def
    by (intro fl64_ge_one) (metis add_increasing2 fl64_nonneg)
qed

lemma seconds_bound:
  assumes "0 \<le> d"
  shows "seconds d \<le> 4 * of_int (d div 10 ^ 9) + 8"
proof -
  have "0 \<le> d mod 10 ^ 9 \<and> d mod 10 ^ 9 \<le> 10 ^ 9" by simp
  then have m: "0 \<le> (of_int (d mod 10 ^ 9) :: rat)" "of_int (d mod 10 ^ 9) \<le> (10 ^ 9 :: rat)"
    by (simp, metis of_int_le_iff of_int_numeral of_int_power)
  have "fl64 (of_int (d mod 10 ^ 9)) \<le> 2 * 10 ^ 9" using fl64_le_double [OF m(1)] m(2) by linarith
  then have a: "fl64 (of_int (d mod 10 ^ 9)) / 10 ^ 9 \<le> 2" by simp
  have "0 \<le> fl64 (of_int (d mod 10 ^ 9)) / 10 ^ 9" by (simp add: fl64_nonneg)
  from fl64_le_double [OF this] a have b: "fl64 (fl64 (of_int (d mod 10 ^ 9)) / 10 ^ 9) \<le> 4" by linarith
  have "0 \<le> d div 10 ^ 9" using assms by (simp add: pos_imp_zdiv_nonneg_iff)
  then have "fl64 (of_int (d div 10 ^ 9)) \<le> 2 * of_int (d div 10 ^ 9)" by (intro fl64_le_double) simp
  then show ?thesis
    unfolding seconds_def
    using b fl64_le_double [of "fl64 (of_int (d div 10 ^ 9)) + fl64 (fl64 (of_int (d mod 10 ^ 9)) / 10 ^ 9)"]
    by (simp add: fl64_nonneg add_nonneg_nonneg)
qed

end
