(* ===== verification/FlowControl.thy ===== *)
theory FlowControl
  imports Float64
begin

text \<open>
  Flow control of transfers: the token bucket of \<^verbatim>\<open>internal/network/flowcontrol/rate_limiter.go\<close> and the
  controller of \<^verbatim>\<open>internal/network/flowcontrol/controller.go\<close>, which adds limiters per file and a fixed
  number of transfer slots. The semaphore is a channel with a capacity: an operation that would block
  has no result (\<open>None\<close>).
\<close>

section \<open>The token bucket\<close>

record rate_limiter =
  rl_rate :: int64
  rl_burst :: int64
  rl_tokens :: int64
  rl_last_refill :: time
  rl_stopped :: bool

definition NewRateLimiter :: "time \<Rightarrow> int64 \<Rightarrow> int64 \<Rightarrow> rate_limiter" where
  "NewRateLimiter now rate burst =
     \<lparr>rl_rate = rate, rl_burst = burst, rl_tokens = burst, rl_last_refill = now, rl_stopped = False\<rparr>"

definition tokens_to_add :: "time \<Rightarrow> rate_limiter \<Rightarrow> int64" where
  "tokens_to_add now rl =
     float_to_int64 (fl64 (seconds (time_sub now (rl_last_refill rl)) * fl64 (of_int (rl_rate rl))))"

text \<open>The refill that \<open>tryConsume\<close> and the ticks of \<open>refillTokens\<close> share.\<close>

definition refill :: "time \<Rightarrow> rate_limiter \<Rightarrow> rate_limiter" where
  "refill now rl =
     (let tokensToAdd = tokens_to_add now rl
      in if tokensToAdd > 0 then
           (let t = wrap64 (rl_tokens rl + tokensToAdd)
            in rl\<lparr>rl_tokens := (if t > rl_burst rl then rl_burst rl else t), rl_last_refill := now\<rparr>)
         else rl)"

definition tryConsume :: "time \<Rightarrow> int64 \<Rightarrow> rate_limiter \<Rightarrow> bool \<times> rate_limiter" where
  "tryConsume now n rl =
     (let rl1 = refill now rl
      in if rl_tokens rl1 \<ge> n then (True, rl1\<lparr>rl_tokens := rl_tokens rl1 - n\<rparr>) else (False, rl1))"

definition StopLimiter :: "rate_limiter \<Rightarrow> rate_limiter" where
  "StopLimiter rl = rl\<lparr>rl_stopped := True\<rparr>"

definition refill_tick :: "time \<Rightarrow> rate_limiter \<Rightarrow> rate_limiter" where
  "refill_tick now rl = (if rl_stopped rl then rl else refill now rl)"

definition GetAvailableTokens :: "rate_limiter \<Rightarrow> int64" where
  "GetAvailableTokens rl = rl_tokens rl"

definition SetRate :: "int64 \<Rightarrow> rate_limiter \<Rightarrow> rate_limiter" where
  "SetRate rate rl = rl\<lparr>rl_rate := rate\<rparr>"

definition GetRate :: "rate_limiter \<Rightarrow> int64" where
  "GetRate rl = rl_rate rl"

text \<open>
  The loop of \<open>Wait\<close>. A list gives the time of each attempt and what ends the pause after it; the loop is
  still waiting (\<open>None\<close>) when the list is used up. Between two attempts other goroutines may act on the
  limiter; they are part of the list.
\<close>

datatype wake = TimerFired | ContextDone | LimiterDone

datatype limiter_action = Attempt time wake | RefillTick time | OtherConsume time int64

datatype wait_result = Granted | ContextError | LimiterError

fun wait_loop :: "int64 \<Rightarrow> limiter_action list \<Rightarrow> rate_limiter \<Rightarrow> wait_result option \<times> rate_limiter" where
  "wait_loop n [] rl = (None, rl)"
| "wait_loop n (RefillTick now # as) rl = wait_loop n as (refill_tick now rl)"
| "wait_loop n (OtherConsume now k # as) rl = wait_loop n as (snd (tryConsume now k rl))"
| "wait_loop n (Attempt now w # as) rl =
     (case tryConsume now n rl of
        (True, rl1) \<Rightarrow> (Some Granted, rl1)
      | (False, rl1) \<Rightarrow>
          (case w of
             ContextDone \<Rightarrow> (Some ContextError, rl1)
           | LimiterDone \<Rightarrow> (Some LimiterError, rl1)
           | TimerFired \<Rightarrow> wait_loop n as rl1))"

section \<open>The controller\<close>

record flow_controller =
  fc_global :: rate_limiter
  fc_per_file :: "(string, rate_limiter) gomap"
  fc_max :: int
  fc_active :: "(string, bool) gomap"
  fc_semaphore :: nat

text \<open>\<open>make(chan, n)\<close> panics on a negative capacity.\<close>

definition NewFlowController :: "time \<Rightarrow> int64 \<Rightarrow> int \<Rightarrow> flow_controller option" where
  "NewFlowController now globalBandwidth maxConcurrent =
     (if maxConcurrent < 0 then None
      else Some \<lparr>fc_global = NewRateLimiter now globalBandwidth (wrap64 (globalBandwidth * 2)),
                 fc_per_file = [], fc_max = maxConcurrent, fc_active = [], fc_semaphore = nat maxConcurrent\<rparr>)"

definition AcquireTransferSlot :: "string \<Rightarrow> flow_controller \<Rightarrow> flow_controller option" where
  "AcquireTransferSlot fileID fc =
     (if fc_semaphore fc = 0 then None
      else Some (fc\<lparr>fc_semaphore := fc_semaphore fc - 1, fc_active := gm_put fileID True (fc_active fc)\<rparr>))"

definition ReleaseTransferSlot :: "string \<Rightarrow> flow_controller \<Rightarrow> flow_controller option" where
  "ReleaseTransferSlot fileID fc =
     (let fc1 = fc\<lparr>fc_active := gm_del fileID (fc_active fc)\<rparr>
      in if int (fc_semaphore fc1) = fc_max fc1 then None
         else Some (fc1\<lparr>fc_semaphore := Suc (fc_semaphore fc1)\<rparr>))"

text \<open>\<open>Wait\<close>: the global limiter first, then the limiter of the file, with the attempts left over.\<close>

definition WaitFlow ::
  "string \<Rightarrow> int64 \<Rightarrow> limiter_action list \<Rightarrow> limiter_action list \<Rightarrow> flow_controller \<Rightarrow> wait_result option \<times> flow_controller" where
  "WaitFlow fileID n global_as file_as fc =
     (case wait_loop n global_as (fc_global fc) of
        (Some Granted, g) \<Rightarrow>
          (case map_of (fc_per_file fc) fileID of
             None \<Rightarrow> (Some Granted, fc\<lparr>fc_global := g\<rparr>)
           | Some rl \<Rightarrow>
               (case wait_loop n file_as rl of
                  (r, rl1) \<Rightarrow> (r, fc\<lparr>fc_global := g, fc_per_file := gm_put fileID rl1 (fc_per_file fc)\<rparr>)))
      | (r, g) \<Rightarrow> (r, fc\<lparr>fc_global := g\<rparr>))"

definition SetPerFileLimit :: "time \<Rightarrow> string \<Rightarrow> int64 \<Rightarrow> flow_controller \<Rightarrow> flow_controller" where
  "SetPerFileLimit now fileID rate fc =
     (case map_of (fc_per_file fc) fileID of
        Some rl \<Rightarrow> fc\<lparr>fc_per_file := gm_put fileID (SetRate rate rl) (fc_per_file fc)\<rparr>
      | None \<Rightarrow> fc\<lparr>fc_per_file := gm_put fileID (NewRateLimiter now rate (wrap64 (rate * 2))) (fc_per_file fc)\<rparr>)"

definition RemovePerFileLimit :: "string \<Rightarrow> flow_controller \<Rightarrow> flow_controller" where
  "RemovePerFileLimit fileID fc =
     (case map_of (fc_per_file fc) fileID of
        Some _ \<Rightarrow> fc\<lparr>fc_per_file := gm_del fileID (fc_per_file fc)\<rparr>
      | None \<Rightarrow> fc)"

definition SetGlobalBandwidth :: "int64 \<Rightarrow> flow_controller \<Rightarrow> flow_controller" where
  "SetGlobalBandwidth bandwidth fc = fc\<lparr>fc_global := SetRate bandwidth (fc_global fc)\<rparr>"

definition GetActiveTransferCount :: "flow_controller \<Rightarrow> nat" where
  "GetActiveTransferCount fc = length (fc_active fc)"

definition GetActiveTransfers :: "flow_controller \<Rightarrow> string list" where
  "GetActiveTransfers fc = map fst (fc_active fc)"

definition StopFlow :: "flow_controller \<Rightarrow> flow_controller" where
  "StopFlow fc = fc\<lparr>fc_global := StopLimiter (fc_global fc), fc_per_file := []\<rparr>"

record flow_stats =
  st_active :: nat
  st_max :: int
  st_available :: nat
  st_bandwidth :: int64
  st_tokens :: int64

definition GetStats :: "flow_controller \<Rightarrow> flow_stats" where
  "GetStats fc =
     \<lparr>st_active = length (fc_active fc), st_max = fc_max fc, st_available = fc_semaphore fc,
      st_bandwidth = GetRate (fc_global fc), st_tokens = GetAvailableTokens (fc_global fc)\<rparr>"

section \<open>Lemmas\<close>

lemma refill_fields [simp]:
  "rl_rate (refill now rl) = rl_rate rl" "rl_burst (refill now rl) = rl_burst rl"
  "rl_stopped (refill now rl) = rl_stopped rl"
  by (simp_all add: refill_def Let_def)

lemma refill_le_burst: "rl_tokens rl \<le> rl_burst rl \<Longrightarrow> rl_tokens (refill now rl) \<le> rl_burst rl"
  by (simp add: refill_def Let_def)

lemma tryConsume_burst [simp]:
  "rl_burst (snd (tryConsume now n rl)) = rl_burst rl" "rl_rate (snd (tryConsume now n rl)) = rl_rate rl"
  by (simp_all add: tryConsume_def Let_def)

lemma tryConsume_le_burst:
  "rl_tokens rl \<le> rl_burst rl \<Longrightarrow> 0 \<le> n \<Longrightarrow> rl_tokens (snd (tryConsume now n rl)) \<le> rl_burst rl"
  using refill_le_burst [of rl now] by (simp add: tryConsume_def Let_def)

lemma tryConsume_too_large: "rl_tokens rl \<le> rl_burst rl \<Longrightarrow> rl_burst rl < n \<Longrightarrow> \<not> fst (tryConsume now n rl)"
  using refill_le_burst [of rl now] by (simp add: tryConsume_def Let_def)


subsection \<open>The progress of the bucket\<close>

definition bucket_ok :: "rate_limiter \<Rightarrow> bool" where
  "bucket_ok rl \<longleftrightarrow> 1 \<le> rl_rate rl \<and> rl_rate rl \<le> 2 ^ 24 \<and> rl_burst rl \<le> 2 ^ 62 \<and>
     0 \<le> rl_tokens rl \<and> rl_tokens rl \<le> rl_burst rl"

lemma tokens_to_add_bounds:
  assumes r: "1 \<le> rl_rate rl" "rl_rate rl \<le> 2 ^ 24" and t: "rl_last_refill rl \<le> now"
  shows "0 \<le> tokens_to_add now rl" "tokens_to_add now rl < 2 ^ 62"
    and "10 ^ 9 \<le> now - rl_last_refill rl \<Longrightarrow> 1 \<le> tokens_to_add now rl"
proof -
  define d where "d = time_sub now (rl_last_refill rl)"
  have d: "0 \<le> d" "d < 2 ^ 63" using time_sub_nonneg [OF t] time_sub_le(2) by (simp_all add: d_def)
  have rr: "fl64 (of_int (rl_rate rl)) = of_int (rl_rate rl)" using r by (intro fl64_exact) simp_all
  have r1: "(1 :: rat) \<le> of_int (rl_rate rl)" "(of_int (rl_rate rl) :: rat) \<le> 2 ^ 24"
    using r by (simp, metis of_int_le_iff of_int_numeral of_int_power)
  define p where "p = seconds d * of_int (rl_rate rl)"
  have p0: "0 \<le> p" using seconds_nonneg r1 by (simp add: p_def)
  have "d div 10 ^ 9 \<le> 2 ^ 34" using zdiv_mono1 [of d "2 ^ 63" "10 ^ 9"] d by simp
  then have "(of_int (d div 10 ^ 9) :: rat) \<le> 2 ^ 34" by (metis of_int_le_iff of_int_numeral of_int_power)
  then have "seconds d \<le> 4 * 2 ^ 34 + 8" using seconds_bound [OF d(1)] by linarith
  then have s: "seconds d \<le> 2 ^ 36 + 8" by simp
  have "p \<le> (2 ^ 36 + 8) * 2 ^ 24" unfolding p_def using s r1 seconds_nonneg [of d] by (intro mult_mono) simp_all
  then have f: "fl64 p < 2 ^ 62" using fl64_le_double [OF p0] by simp
  have ta: "tokens_to_add now rl = \<lfloor>fl64 p\<rfloor>"
    using f by (simp add: tokens_to_add_def d_def [symmetric] rr p_def float_to_int64_def)
  show "0 \<le> tokens_to_add now rl" unfolding ta using fl64_nonneg by simp
  show "tokens_to_add now rl < 2 ^ 62" unfolding ta using f by (simp add: floor_less_iff)
  assume e: "10 ^ 9 \<le> now - rl_last_refill rl"
  have "10 ^ 9 \<le> d" using e by (simp add: d_def time_sub_def)
  then have "1 \<le> seconds d" by (rule seconds_ge_one)
  then have "1 \<le> p" unfolding p_def using r1 mult_mono [of 1 "seconds d" 1 "of_int (rl_rate rl)"] by simp
  then show "1 \<le> tokens_to_add now rl" unfolding ta using fl64_ge_one by simp
qed

lemma refill_cases:
  assumes b: "bucket_ok rl" and t: "rl_last_refill rl \<le> now"
  shows "bucket_ok (refill now rl)"
    and "refill now rl = rl \<and> now - rl_last_refill rl < 10 ^ 9 \<or>
         rl_last_refill (refill now rl) = now \<and> min (rl_tokens rl + 1) (rl_burst rl) \<le> rl_tokens (refill now rl)"
proof -
  have k: "0 \<le> tokens_to_add now rl" "tokens_to_add now rl < 2 ^ 62"
      "10 ^ 9 \<le> now - rl_last_refill rl \<Longrightarrow> 1 \<le> tokens_to_add now rl"
    using tokens_to_add_bounds [OF _ _ t] b by (simp_all add: bucket_ok_def)
  have "in_int64 (rl_tokens rl + tokens_to_add now rl)" using k(1,2) b by (simp add: bucket_ok_def in_int64_def)
  then have w: "wrap64 (rl_tokens rl + tokens_to_add now rl) = rl_tokens rl + tokens_to_add now rl" by (rule wrap64_id)
  show "bucket_ok (refill now rl)" using b k(1) by (simp add: bucket_ok_def refill_def Let_def w)
  show "refill now rl = rl \<and> now - rl_last_refill rl < 10 ^ 9 \<or>
         rl_last_refill (refill now rl) = now \<and> min (rl_tokens rl + 1) (rl_burst rl) \<le> rl_tokens (refill now rl)"
  proof (cases "tokens_to_add now rl > 0")
    case True
    then show ?thesis by (simp add: refill_def Let_def w)
  next
    case False
    then have "refill now rl = rl" by (simp add: refill_def Let_def)
    then show ?thesis using k(3) False by linarith
  qed
qed

text \<open>
  Actions in the order of time, the attempts at least ten milliseconds apart: \<open>p\<close> is the earliest time
  of the next attempt, \<open>m\<close> the time reached.
\<close>

fun paced :: "time \<Rightarrow> time \<Rightarrow> limiter_action list \<Rightarrow> bool" where
  "paced p m [] = True"
| "paced p m (Attempt now w # as) =
     (w = TimerFired \<and> p \<le> now \<and> m \<le> now \<and> paced (now + 10 ^ 7) now as)"
| "paced p m (RefillTick now # as) = (m \<le> now \<and> paced (max p now) now as)"
| "paced p m (OtherConsume now k # as) = False"

fun attempts :: "limiter_action list \<Rightarrow> nat" where
  "attempts [] = 0"
| "attempts (Attempt now w # as) = Suc (attempts as)"
| "attempts (_ # as) = attempts as"

lemma wait_granted:
  assumes "bucket_ok rl" "n \<le> rl_burst rl" "paced p m as" "rl_last_refill rl \<le> m"
    and "rl_last_refill rl + int c * 10 ^ 7 \<le> p" "c \<le> 100" "0 < attempts as"
    and "100 * (n - rl_tokens rl) < int c + int (attempts as)"
  shows "fst (wait_loop n as rl) = Some Granted"
  using assms
proof (induction as arbitrary: rl p m c)
  case Nil
  then show ?case by simp
next
  case (Cons a as)
  show ?case
  proof (cases a)
    case (OtherConsume now k)
    then show ?thesis using Cons.prems by simp
  next
    case (RefillTick now)
    have t: "rl_last_refill rl \<le> now" and m: "paced (max p now) now as" using Cons.prems RefillTick by simp_all
    note r = refill_cases [OF Cons.prems(1) t]
    have att: "0 < attempts as" "100 * (n - rl_tokens rl) < int c + int (attempts as)"
      using Cons.prems(7,8) RefillTick by simp_all
    show ?thesis
    proof (cases "rl_stopped rl \<or> refill now rl = rl")
      case True
      then have e: "refill_tick now rl = rl" by (auto simp: refill_tick_def)
      have "fst (wait_loop n as rl) = Some Granted"
        by (rule Cons.IH [OF Cons.prems(1,2) m t _ Cons.prems(6) att]) (use Cons.prems(5) in simp)
      then show ?thesis by (simp add: RefillTick e)
    next
      case False
      then have e: "refill_tick now rl = refill now rl" by (simp add: refill_tick_def)
      have l: "rl_last_refill (refill now rl) = now" and k: "min (rl_tokens rl + 1) (rl_burst rl) \<le> rl_tokens (refill now rl)"
        using r(2) False by auto
      have "100 * (n - rl_tokens (refill now rl)) < int 0 + int (attempts as)"
        using k att Cons.prems(2,6) by (simp add: min_def split: if_splits)
      then have "fst (wait_loop n as (refill now rl)) = Some Granted"
        by (intro Cons.IH [OF r(1) _ m, of 0]) (use Cons.prems(2) att(1) l in simp_all)
      then show ?thesis by (simp add: RefillTick e)
    qed
  next
    case (Attempt now w)
    have t: "rl_last_refill rl \<le> now" and m: "paced (now + 10 ^ 7) now as" and w: "w = TimerFired" and p: "p \<le> now"
      using Cons.prems Attempt by simp_all
    note r = refill_cases [OF Cons.prems(1) t]
    have att: "100 * (n - rl_tokens rl) < int c + 1 + int (attempts as)" using Cons.prems(8) Attempt by simp
    show ?thesis
    proof (cases "n \<le> rl_tokens (refill now rl)")
      case True
      then show ?thesis by (simp add: Attempt tryConsume_def Let_def)
    next
      case False
      have "fst (wait_loop n as (refill now rl)) = Some Granted"
      proof (cases "refill now rl = rl \<and> now - rl_last_refill rl < 10 ^ 9")
        case same: True
        have c: "int c * 10 ^ 7 < 10 ^ 9" using Cons.prems(5) p same by linarith
        then have "c < 100" by simp
        then show ?thesis using same False Cons.prems(1,2,5) m t att p
          by (intro Cons.IH [of _ "now + 10 ^ 7" now "Suc c"]) (simp_all add: algebra_simps)
      next
        case diff: False
        then have "rl_last_refill (refill now rl) = now" "rl_tokens rl + 1 \<le> rl_tokens (refill now rl)"
          using r(2) False Cons.prems(2) by (auto simp: min_def split: if_splits)
        then show ?thesis using r(1) Cons.prems(2,6) False m att
          by (intro Cons.IH [of _ "now + 10 ^ 7" now 1]) simp_all
      qed
      then show ?thesis using False by (simp add: Attempt tryConsume_def Let_def w)
    qed
  qed
qed


text \<open>C24. A rate limiter with a rate of 1 to 2^24 bytes a second serves a request that fits its burst: when
  nobody else takes tokens and the attempts come at least ten milliseconds apart (whatever ticks of the
  refill goroutine fall between them), one of the first 100 n + 1 attempts is granted. So \<open>Wait\<close>
  returns, and rounding in \<open>int64(elapsed.Seconds() * rate)\<close> never starves it.
\<close>

theorem wait_terminates:
  assumes "bucket_ok rl" "n \<le> rl_burst rl" "paced p p as" "rl_last_refill rl \<le> p"
    and "100 * n < int (attempts as)" "0 < attempts as"
  shows "fst (wait_loop n as rl) = Some Granted"
proof (rule wait_granted [OF assms(1-3), where c = 0])
  have "0 \<le> rl_tokens rl" using assms(1) by (simp add: bucket_ok_def)
  then show "100 * (n - rl_tokens rl) < int 0 + int (attempts as)" using assms(5) by simp
qed (use assms in simp_all)

theorem wait_terminates_witness:
  "fst (wait_loop 0 [RefillTick 5, Attempt 10 TimerFired] (NewRateLimiter 0 1 2)) = Some Granted"
  by (rule wait_terminates [where p = 0]) (simp_all add: bucket_ok_def NewRateLimiter_def)

definition harmless :: "limiter_action \<Rightarrow> bool" where
  "harmless a = (case a of OtherConsume now k \<Rightarrow> 0 \<le> k | _ \<Rightarrow> True)"

lemma wait_too_large:
  assumes "rl_tokens rl \<le> rl_burst rl" "rl_burst rl < n" "list_all harmless as"
  shows "fst (wait_loop n as rl) \<noteq> Some Granted \<and> rl_burst (snd (wait_loop n as rl)) = rl_burst rl"
  using assms
proof (induction n as rl rule: wait_loop.induct)
  case (2 n now as rl)
  then show ?case using refill_le_burst [of rl now] by (simp add: refill_tick_def)
next
  case (3 n now k as rl)
  then show ?case using tryConsume_le_burst [of rl k now] by (simp add: harmless_def)
next
  case (4 n now w as rl)
  obtain b rl1 where tc: "tryConsume now n rl = (b, rl1)" by (cases "tryConsume now n rl")
  have "\<not> b" using tryConsume_too_large [OF 4(2,3), of now] tc by simp
  moreover have "rl_burst rl1 = rl_burst rl" using tryConsume_burst [of now n rl] tc by simp
  moreover have "rl_tokens rl1 \<le> rl_burst rl1"
    using refill_le_burst [OF 4(2), of now] tc \<open>\<not> b\<close> by (auto simp: tryConsume_def Let_def split: if_splits)
  ultimately show ?case using 4 tc by (simp split: wake.split)
qed simp

text \<open>The burst of the global limiter is twice the bandwidth the controller was created with and
  \<open>SetGlobalBandwidth\<close> does not change it: a request for more bytes than that is never granted, however
  long it waits and whatever bandwidth is set later. The caller is only released by its context.
\<close>

theorem oversized_request_starves:
  assumes "NewFlowController now bandwidth maxConcurrent = Some fc" "in_int64 (bandwidth * 2)" "bandwidth * 2 < n"
    and "list_all harmless as"
  shows "fst (WaitFlow fileID n as bs (SetGlobalBandwidth faster fc)) \<noteq> Some Granted"
proof -
  let ?rl = "SetRate faster (fc_global fc)"
  have "rl_tokens ?rl = bandwidth * 2 \<and> rl_burst ?rl = bandwidth * 2"
    using assms(1,2) by (auto simp: NewFlowController_def NewRateLimiter_def SetRate_def split: if_splits)
  then have "fst (wait_loop n as ?rl) \<noteq> Some Granted" using wait_too_large [of ?rl n as] assms(3,4) by simp
  then show ?thesis
    by (auto simp: WaitFlow_def SetGlobalBandwidth_def split: prod.split option.split wait_result.split)
qed

theorem oversized_request_starves_witness:
  "fst (WaitFlow ''f'' 21 [Attempt 100 TimerFired, Attempt (10 ^ 12) ContextDone] []
     (SetGlobalBandwidth 1000000 (the (NewFlowController 0 10 4)))) \<noteq> Some Granted"
  by (rule oversized_request_starves [where now = 0 and bandwidth = 10 and maxConcurrent = 4])
    (simp_all add: NewFlowController_def in_int64_def harmless_def)

subsection \<open>Transfer slots\<close>

text \<open>Runs of the semaphore in which only a holder of a slot releases it; \<open>hs\<close> are the holders.\<close>

inductive slots :: "time \<Rightarrow> int64 \<Rightarrow> int \<Rightarrow> flow_controller \<Rightarrow> string list \<Rightarrow> bool" for now bandwidth maxConcurrent where
  slots_new: "NewFlowController now bandwidth maxConcurrent = Some fc \<Longrightarrow> slots now bandwidth maxConcurrent fc []"
| slots_acquire: "slots now bandwidth maxConcurrent fc hs \<Longrightarrow> AcquireTransferSlot f fc = Some fc1 \<Longrightarrow>
    slots now bandwidth maxConcurrent fc1 (f # hs)"
| slots_release: "slots now bandwidth maxConcurrent fc hs \<Longrightarrow> f \<in> set hs \<Longrightarrow> ReleaseTransferSlot f fc = Some fc1 \<Longrightarrow>
    slots now bandwidth maxConcurrent fc1 (remove1 f hs)"



text \<open>The set of active transfers is keyed by file: two transfers of one file that end one after the other
  leave the second one out of the statistics.\<close>

lemma active_count_undercounts:
  "\<exists>fc. slots 0 1000 2 fc [''a''] \<and> GetActiveTransferCount fc = 0"
proof -
  obtain fc where n: "NewFlowController 0 1000 2 = Some fc" by (simp add: NewFlowController_def)
  define fc1 where "fc1 = the (AcquireTransferSlot ''a'' fc)"
  define fc2 where "fc2 = the (AcquireTransferSlot ''a'' fc1)"
  define fc3 where "fc3 = the (ReleaseTransferSlot ''a'' fc2)"
  note d = NewFlowController_def AcquireTransferSlot_def ReleaseTransferSlot_def gm_put_def gm_del_def
  have a: "AcquireTransferSlot ''a'' fc = Some fc1" "AcquireTransferSlot ''a'' fc1 = Some fc2"
    "ReleaseTransferSlot ''a'' fc2 = Some fc3" "fc_active fc3 = []"
    using n by (auto simp: fc1_def fc2_def fc3_def d Let_def)
  have "slots 0 1000 2 fc2 [''a'', ''a'']" by (intro slots_acquire [OF slots_acquire [OF slots_new [OF n] a(1)] a(2)])
  then have "slots 0 1000 2 fc3 (remove1 ''a'' [''a'', ''a''])" by (rule slots_release) (simp_all add: a)
  then show ?thesis using a(4) by (auto simp: GetActiveTransferCount_def)
qed

end
