(* ===== verification/Connections.thy ===== *)
theory Connections
  imports Float64
begin

text \<open>
  The connection manager, \<^verbatim>\<open>internal/network/connection/manager.go\<close>, and the heartbeats of
  \<^verbatim>\<open>internal/network/connection/heartbeat.go\<close>. Go routines that the operations start are kept as pending
  tasks of the manager: \<open>cm_notify\<close> for \<open>notifyCallbacks\<close>, \<open>cm_reconnect\<close> for \<open>AttemptReconnection\<close>;
  \<open>run_notify\<close> and \<open>run_reconnect\<close> are their execution. Callbacks are functions of the caller: \<open>cm_called\<close>
  lists which were called, by their position, with which peer and event. Every operation is one step
  under the locks it takes.
\<close>

section \<open>State\<close>

datatype connection_state = StateDisconnected | StateConnecting | StateConnected

datatype connection_event = EventConnected | EventDisconnected | EventHeartbeatTimeout

record connection =
  cn_peer :: string
  cn_address :: string
  cn_port :: int
  cn_state :: connection_state
  cn_connected_at :: time
  cn_last_seen :: time
  cn_last_heartbeat :: time
  cn_session_key :: bytes
  cn_retry_count :: int64
  cn_last_retry :: time

record conn_manager =
  cm_connections :: "(string, connection) gomap"
  cm_callbacks :: nat
  cm_config :: "int64 option"
  cm_stopped :: bool
  cm_notify :: "(string \<times> connection_event) list"
  cm_reconnect :: "string list"
  cm_called :: "(nat \<times> string \<times> connection_event) list"

definition NewConnectionManager :: conn_manager where
  "NewConnectionManager =
     \<lparr>cm_connections = [], cm_callbacks = 0, cm_config = None, cm_stopped = False, cm_notify = [],
      cm_reconnect = [], cm_called = []\<rparr>"

text \<open>Of the configuration only the heartbeat interval is read.\<close>

definition NewConnectionManagerWithConfig :: "int64 \<Rightarrow> conn_manager" where
  "NewConnectionManagerWithConfig heartbeatInterval = NewConnectionManager\<lparr>cm_config := Some heartbeatInterval\<rparr>"

datatype connection_error = ConnectionNotFound string

section \<open>The manager\<close>

definition start_notify :: "string \<Rightarrow> connection_event \<Rightarrow> conn_manager \<Rightarrow> conn_manager" where
  "start_notify peer event cm = cm\<lparr>cm_notify := cm_notify cm @ [(peer, event)]\<rparr>"

definition put_connection :: "string \<Rightarrow> connection \<Rightarrow> conn_manager \<Rightarrow> conn_manager" where
  "put_connection peer conn cm = cm\<lparr>cm_connections := gm_put peer conn (cm_connections cm)\<rparr>"

definition AddConnection :: "time \<Rightarrow> string \<Rightarrow> string \<Rightarrow> int \<Rightarrow> conn_manager \<Rightarrow> connection \<times> conn_manager" where
  "AddConnection now peer address port cm =
     (let conn = \<lparr>cn_peer = peer, cn_address = address, cn_port = port, cn_state = StateConnected,
                  cn_connected_at = now, cn_last_seen = now, cn_last_heartbeat = zero_time,
                  cn_session_key = [], cn_retry_count = 0, cn_last_retry = zero_time\<rparr>
      in (conn, start_notify peer EventConnected (put_connection peer conn cm)))"

definition GetConnection :: "string \<Rightarrow> conn_manager \<Rightarrow> connection_error + connection" where
  "GetConnection peer cm =
     (case map_of (cm_connections cm) peer of
        None \<Rightarrow> Inl (ConnectionNotFound peer)
      | Some conn \<Rightarrow> Inr conn)"

definition UpdateConnectionState ::
  "time \<Rightarrow> string \<Rightarrow> connection_state \<Rightarrow> conn_manager \<Rightarrow> conn_manager \<times> connection_error option" where
  "UpdateConnectionState now peer state cm =
     (case map_of (cm_connections cm) peer of
        None \<Rightarrow> (cm, Some (ConnectionNotFound peer))
      | Some conn \<Rightarrow>
          (let conn1 = conn\<lparr>cn_state := state\<rparr>;
               conn2 = (if state = StateConnected then conn1\<lparr>cn_last_seen := now, cn_last_heartbeat := now\<rparr> else conn1);
               cm1 = put_connection peer conn2 cm
           in (if cn_state conn \<noteq> state
               then start_notify peer (if state = StateConnected then EventConnected else EventDisconnected) cm1
               else cm1, None)))"

definition RemoveConnection :: "string \<Rightarrow> conn_manager \<Rightarrow> conn_manager" where
  "RemoveConnection peer cm =
     (let cm1 = (case map_of (cm_connections cm) peer of
                   Some _ \<Rightarrow> start_notify peer EventDisconnected cm
                 | None \<Rightarrow> cm)
      in cm1\<lparr>cm_connections := gm_del peer (cm_connections cm1)\<rparr>)"

definition GetAllConnections :: "conn_manager \<Rightarrow> connection list" where
  "GetAllConnections cm = map snd (cm_connections cm)"

definition GetConnectedPeers :: "conn_manager \<Rightarrow> string list" where
  "GetConnectedPeers cm = map fst (filter (\<lambda>(peer, conn). cn_state conn = StateConnected) (cm_connections cm))"

definition AddConnectionCallback :: "conn_manager \<Rightarrow> conn_manager" where
  "AddConnectionCallback cm = cm\<lparr>cm_callbacks := Suc (cm_callbacks cm)\<rparr>"

definition UpdateHeartbeat :: "time \<Rightarrow> string \<Rightarrow> conn_manager \<Rightarrow> conn_manager \<times> connection_error option" where
  "UpdateHeartbeat now peer cm =
     (case map_of (cm_connections cm) peer of
        None \<Rightarrow> (cm, Some (ConnectionNotFound peer))
      | Some conn \<Rightarrow> (put_connection peer (conn\<lparr>cn_last_heartbeat := now, cn_last_seen := now\<rparr>) cm, None))"

definition GetSessionKey :: "string \<Rightarrow> conn_manager \<Rightarrow> connection_error + bytes" where
  "GetSessionKey peer cm = map_sum id cn_session_key (GetConnection peer cm)"

definition SetSessionKey :: "string \<Rightarrow> bytes \<Rightarrow> conn_manager \<Rightarrow> conn_manager \<times> connection_error option" where
  "SetSessionKey peer sessionKey cm =
     (case map_of (cm_connections cm) peer of
        None \<Rightarrow> (cm, Some (ConnectionNotFound peer))
      | Some conn \<Rightarrow> (put_connection peer (conn\<lparr>cn_session_key := sessionKey\<rparr>) cm, None))"

section \<open>Reconnection\<close>

text \<open>\<open>math.Pow\<close> of 2 and the products are exact until the delay is far above the maximum.\<close>

definition calculateBackoffDuration :: "int64 \<Rightarrow> int64" where
  "calculateBackoffDuration retryCount =
     (if retryCount = 0 then 0
      else (let maxDelay = 300 * 10 ^ 9;
                delay = 10 ^ 9 * pow2 (retryCount - 1);
                delay1 = (if delay > of_int maxDelay then of_int maxDelay else delay)
            in float_to_int64 delay1))"

definition AttemptReconnection :: "time \<Rightarrow> string \<Rightarrow> conn_manager \<Rightarrow> conn_manager \<times> connection_error option" where
  "AttemptReconnection now peer cm =
     (case map_of (cm_connections cm) peer of
        None \<Rightarrow> (cm, Some (ConnectionNotFound peer))
      | Some conn \<Rightarrow>
          if cn_state conn = StateConnected then (cm, None)
          else if time_sub now (cn_last_retry conn) < calculateBackoffDuration (cn_retry_count conn) then (cm, None)
          else (start_notify peer EventDisconnected
                  (put_connection peer
                     (conn\<lparr>cn_retry_count := wrap64 (cn_retry_count conn + 1), cn_last_retry := now,
                           cn_state := StateConnecting\<rparr>) cm), None))"

text \<open>The loop of \<open>checkConnectionHealth\<close> over the copy of the map.\<close>

fun check_loop :: "time \<Rightarrow> int64 \<Rightarrow> (string \<times> connection) list \<Rightarrow> conn_manager \<Rightarrow> conn_manager" where
  "check_loop now heartbeatTimeout [] cm = cm"
| "check_loop now heartbeatTimeout ((peer, conn) # conns) cm =
     (if cn_state conn = StateConnected \<and> time_sub now (cn_last_heartbeat conn) > heartbeatTimeout then
        (let cm1 = fst (UpdateConnectionState now peer StateDisconnected cm);
             cm2 = start_notify peer EventHeartbeatTimeout cm1
         in check_loop now heartbeatTimeout conns (cm2\<lparr>cm_reconnect := cm_reconnect cm2 @ [peer]\<rparr>))
      else check_loop now heartbeatTimeout conns cm)"

definition heartbeat_timeout :: "int64 \<Rightarrow> int64" where
  "heartbeat_timeout interval = wrap64 (wrap64 (interval * 2) * 10 ^ 9)"

definition checkConnectionHealth :: "time \<Rightarrow> conn_manager \<Rightarrow> conn_manager" where
  "checkConnectionHealth now cm =
     (case cm_config cm of
        None \<Rightarrow> cm
      | Some interval \<Rightarrow> check_loop now (heartbeat_timeout interval) (cm_connections cm) cm)"

text \<open>One tick of \<open>monitorConnections\<close>, which stops with the manager.\<close>

definition monitor_tick :: "time \<Rightarrow> conn_manager \<Rightarrow> conn_manager" where
  "monitor_tick now cm = (if cm_stopped cm then cm else checkConnectionHealth now cm)"

definition run_notify :: "nat \<Rightarrow> conn_manager \<Rightarrow> conn_manager" where
  "run_notify i cm =
     (if i < length (cm_notify cm) then
        (case cm_notify cm ! i of (peer, event) \<Rightarrow>
           cm\<lparr>cm_notify := take i (cm_notify cm) @ drop (Suc i) (cm_notify cm),
              cm_called := cm_called cm @ map (\<lambda>k. (k, peer, event)) [0..<cm_callbacks cm]\<rparr>)
      else cm)"

definition run_reconnect :: "time \<Rightarrow> nat \<Rightarrow> conn_manager \<Rightarrow> conn_manager" where
  "run_reconnect now i cm =
     (if i < length (cm_reconnect cm) then
        fst (AttemptReconnection now (cm_reconnect cm ! i)
          (cm\<lparr>cm_reconnect := take i (cm_reconnect cm) @ drop (Suc i) (cm_reconnect cm)\<rparr>))
      else cm)"

text \<open>Closing a closed channel panics (\<open>None\<close>).\<close>

definition StopManager :: "conn_manager \<Rightarrow> conn_manager option" where
  "StopManager cm = (if cm_stopped cm then None else Some (cm\<lparr>cm_stopped := True\<rparr>))"

section \<open>Heartbeats\<close>

record heartbeat_manager =
  hm_interval :: int64
  hm_peer :: string
  hm_stopped :: bool

record heartbeat =
  hb_to :: string
  hb_address :: string
  hb_port :: int
  hb_sender :: string
  hb_timestamp :: int64

definition NewHeartbeatManager :: "int64 \<Rightarrow> string \<Rightarrow> heartbeat_manager" where
  "NewHeartbeatManager heartbeatInterval peer = \<lparr>hm_interval = heartbeatInterval, hm_peer = peer, hm_stopped = False\<rparr>"

definition StopHeartbeats :: "heartbeat_manager \<Rightarrow> heartbeat_manager option" where
  "StopHeartbeats hm = (if hm_stopped hm then None else Some (hm\<lparr>hm_stopped := True\<rparr>))"

definition GetHeartbeatInterval :: "heartbeat_manager \<Rightarrow> int64" where
  "GetHeartbeatInterval hm =
     (let interval = wrap64 (hm_interval hm * 10 ^ 9) in if interval \<le> 0 then 30 * 10 ^ 9 else interval)"

definition GetHeartbeatTimeout :: "heartbeat_manager \<Rightarrow> int64" where
  "GetHeartbeatTimeout hm = wrap64 (GetHeartbeatInterval hm * 2)"

text \<open>\<open>ok\<close> tells whether the transport accepts the message.\<close>

definition sendHeartbeatToPeer ::
  "(heartbeat \<Rightarrow> bool) \<Rightarrow> time \<Rightarrow> string \<Rightarrow> heartbeat_manager \<Rightarrow> conn_manager \<Rightarrow> heartbeat option \<times> conn_manager" where
  "sendHeartbeatToPeer ok now peer hm cm =
     (case GetConnection peer cm of
        Inl _ \<Rightarrow> (None, cm)
      | Inr conn \<Rightarrow>
          (let hb = \<lparr>hb_to = peer, hb_address = cn_address conn, hb_port = cn_port conn, hb_sender = hm_peer hm,
                     hb_timestamp = now div 1000000\<rparr>
           in if ok hb then (Some hb, fst (UpdateHeartbeat now peer cm)) else (None, cm)))"

text \<open>The goroutines of one tick, in any order: one for every peer connected at the tick.\<close>

fun heartbeat_round :: "(heartbeat \<Rightarrow> bool) \<Rightarrow> time \<Rightarrow> string list \<Rightarrow> heartbeat_manager \<Rightarrow> conn_manager \<Rightarrow> conn_manager" where
  "heartbeat_round ok now [] hm cm = cm"
| "heartbeat_round ok now (peer # peers) hm cm =
     heartbeat_round ok now peers hm (snd (sendHeartbeatToPeer ok now peer hm cm))"

definition sendHeartbeatToAllPeers :: "(heartbeat \<Rightarrow> bool) \<Rightarrow> time \<Rightarrow> heartbeat_manager \<Rightarrow> conn_manager \<Rightarrow> conn_manager" where
  "sendHeartbeatToAllPeers ok now hm cm = heartbeat_round ok now (GetConnectedPeers cm) hm cm"

definition heartbeat_tick :: "(heartbeat \<Rightarrow> bool) \<Rightarrow> time \<Rightarrow> heartbeat_manager \<Rightarrow> conn_manager \<Rightarrow> conn_manager" where
  "heartbeat_tick ok now hm cm = (if hm_stopped hm then cm else sendHeartbeatToAllPeers ok now hm cm)"

definition HandleHeartbeatResponse :: "time \<Rightarrow> string \<Rightarrow> conn_manager \<Rightarrow> conn_manager" where
  "HandleHeartbeatResponse now peer cm = fst (UpdateHeartbeat now peer cm)"

section \<open>Lemmas\<close>

abbreviation conn_of :: "conn_manager \<Rightarrow> string \<Rightarrow> connection option" where
  "conn_of cm peer \<equiv> map_of (cm_connections cm) peer"

lemma conn_of_put [simp]: "conn_of (put_connection p c cm) q = (if q = p then Some c else conn_of cm q)"
  by (simp add: put_connection_def)

lemma put_connection_fields [simp]:
  "cm_callbacks (put_connection p c cm) = cm_callbacks cm" "cm_config (put_connection p c cm) = cm_config cm"
  "cm_stopped (put_connection p c cm) = cm_stopped cm" "cm_notify (put_connection p c cm) = cm_notify cm"
  "cm_reconnect (put_connection p c cm) = cm_reconnect cm" "cm_called (put_connection p c cm) = cm_called cm"
  by (simp_all add: put_connection_def)

lemma start_notify_fields [simp]:
  "cm_connections (start_notify p ev cm) = cm_connections cm" "cm_config (start_notify p ev cm) = cm_config cm"
  "cm_stopped (start_notify p ev cm) = cm_stopped cm" "cm_reconnect (start_notify p ev cm) = cm_reconnect cm"
  "cm_notify (start_notify p ev cm) = cm_notify cm @ [(p, ev)]" "cm_callbacks (start_notify p ev cm) = cm_callbacks cm"
  by (simp_all add: start_notify_def)

lemma UpdateConnectionState_conn [simp]:
  "conn_of (fst (UpdateConnectionState now p st cm)) q =
     (if q = p then map_option (\<lambda>c. if st = StateConnected
          then c\<lparr>cn_state := st, cn_last_seen := now, cn_last_heartbeat := now\<rparr> else c\<lparr>cn_state := st\<rparr>) (conn_of cm p)
      else conn_of cm q)"
  by (simp add: UpdateConnectionState_def Let_def split: option.split)

lemma UpdateConnectionState_fields [simp]:
  "cm_config (fst (UpdateConnectionState now p st cm)) = cm_config cm"
  "cm_reconnect (fst (UpdateConnectionState now p st cm)) = cm_reconnect cm"
  "cm_stopped (fst (UpdateConnectionState now p st cm)) = cm_stopped cm"
  by (simp_all add: UpdateConnectionState_def Let_def split: option.split)

lemma UpdateHeartbeat_conn [simp]:
  "conn_of (fst (UpdateHeartbeat now p cm)) q =
     (if q = p then map_option (\<lambda>c. c\<lparr>cn_last_heartbeat := now, cn_last_seen := now\<rparr>) (conn_of cm p) else conn_of cm q)"
  by (simp add: UpdateHeartbeat_def split: option.split)

lemma UpdateHeartbeat_fields [simp]:
  "cm_config (fst (UpdateHeartbeat now p cm)) = cm_config cm"
  "cm_reconnect (fst (UpdateHeartbeat now p cm)) = cm_reconnect cm"
  "cm_stopped (fst (UpdateHeartbeat now p cm)) = cm_stopped cm"
  by (simp_all add: UpdateHeartbeat_def split: option.split)

definition silent :: "time \<Rightarrow> int64 \<Rightarrow> connection \<Rightarrow> bool" where
  "silent now limit conn \<longleftrightarrow> cn_state conn = StateConnected \<and> time_sub now (cn_last_heartbeat conn) > limit"

lemma check_loop_conn:
  "gm_ok conns \<Longrightarrow> conn_of (check_loop now limit conns cm) p =
     (case map_of conns p of
        Some c \<Rightarrow> if silent now limit c then map_option (\<lambda>c. c\<lparr>cn_state := StateDisconnected\<rparr>) (conn_of cm p)
                  else conn_of cm p
      | None \<Rightarrow> conn_of cm p)"
proof (induction now limit conns cm rule: check_loop.induct)
  case (2 now limit peer conn conns cm)
  then show ?case by (auto simp: silent_def Let_def split: option.split)
qed simp

lemma check_loop_reconnect:
  "cm_reconnect (check_loop now limit conns cm) =
     cm_reconnect cm @ map fst (filter (\<lambda>(p, c). silent now limit c) conns)"
  by (induction now limit conns cm rule: check_loop.induct) (simp_all add: silent_def Let_def)

lemma check_loop_config [simp]: "cm_config (check_loop now limit conns cm) = cm_config cm"
  by (induction now limit conns cm rule: check_loop.induct) (simp_all add: Let_def)

lemma check_loop_stopped [simp]: "cm_stopped (check_loop now limit conns cm) = cm_stopped cm"
  by (induction now limit conns cm rule: check_loop.induct) (simp_all add: Let_def)

lemma gm_ok_UpdateConnectionState [simp]:
  "gm_ok (cm_connections cm) \<Longrightarrow> gm_ok (cm_connections (fst (UpdateConnectionState now p st cm)))"
  by (simp add: UpdateConnectionState_def put_connection_def Let_def split: option.split)

lemma gm_ok_UpdateHeartbeat [simp]:
  "gm_ok (cm_connections cm) \<Longrightarrow> gm_ok (cm_connections (fst (UpdateHeartbeat now p cm)))"
  by (simp add: UpdateHeartbeat_def put_connection_def split: option.split)

lemma gm_ok_check_loop [simp]:
  "gm_ok (cm_connections cm) \<Longrightarrow> gm_ok (cm_connections (check_loop now limit conns cm))"
  by (induction now limit conns cm rule: check_loop.induct) (simp_all add: Let_def)

text \<open>C26. The health check acts on each connection by itself, whatever the order in which the map is
  visited: a connection in state connected whose last heartbeat is older than twice the interval
  becomes disconnected and gets one task that reconnects it, every other connection is as before.
\<close>

theorem health_check_exact:
  assumes "cm_config cm = Some interval" "gm_ok (cm_connections cm)"
  shows "map_of (cm_connections (checkConnectionHealth now cm)) p =
      map_option (\<lambda>c. if silent now (heartbeat_timeout interval) c then c\<lparr>cn_state := StateDisconnected\<rparr> else c)
        (map_of (cm_connections cm) p) \<and>
    cm_reconnect (checkConnectionHealth now cm) =
      cm_reconnect cm @ map fst (filter (\<lambda>(p, c). silent now (heartbeat_timeout interval) c) (cm_connections cm))"
  using check_loop_conn [OF assms(2), of now "heartbeat_timeout interval" cm p]
  by (simp add: checkConnectionHealth_def assms(1) check_loop_reconnect split: option.split)

definition sample_manager :: conn_manager where
  "sample_manager = snd (AddConnection 0 ''a'' ''10.0.0.2'' 8080 (NewConnectionManagerWithConfig 30))"

lemma sample_manager_fields [simp]:
  "cm_config sample_manager = Some 30" "gm_ok (cm_connections sample_manager)"
  by (simp_all add: sample_manager_def AddConnection_def NewConnectionManagerWithConfig_def NewConnectionManager_def
      put_connection_def Let_def)

theorem health_check_exact_witness:
  "map_of (cm_connections (checkConnectionHealth 5 sample_manager)) ''a'' =
      map_option (\<lambda>c. if silent 5 (heartbeat_timeout 30) c then c\<lparr>cn_state := StateDisconnected\<rparr> else c)
        (map_of (cm_connections sample_manager) ''a'') \<and>
    cm_reconnect (checkConnectionHealth 5 sample_manager) =
      cm_reconnect sample_manager @ map fst (filter (\<lambda>(p, c). silent 5 (heartbeat_timeout 30) c) (cm_connections sample_manager))"
  by (rule health_check_exact) simp_all

text \<open>The delay before the next attempt doubles with every attempt, from one second up to five minutes, and
  the first attempt is not delayed.
\<close>

theorem backoff_doubles_up_to_maximum:
  "calculateBackoffDuration (int n) = (if n = 0 then 0 else min (10 ^ 9 * 2 ^ (n - 1)) (300 * 10 ^ 9))"
proof (cases n)
  case (Suc k)
  have c: "(300 :: rat) < 2 ^ k \<longleftrightarrow> (300 :: int) < 2 ^ k"
    using of_int_less_iff [of 300 "2 ^ k", where ?'a = rat] by (simp only: of_int_numeral of_int_power)
  have f: "float_to_int64 (1000000000 * 2 ^ k) = 1000000000 * 2 ^ k" if "\<not> (300 :: rat) < 2 ^ k"
  proof -
    have "(1000000000 * 2 ^ k :: rat) \<le> 1000000000 * 300" 
      by (rule mult_left_mono [OF that [unfolded not_less] zero_le_numeral])
    also have "(1000000000 * 300 :: rat) = 300000000000" by simp
    also have "(300000000000 :: rat) < 2 ^ 63" by simp
    finally have "(1000000000 * 2 ^ k :: rat) < 2 ^ 63" .
    then have "float_to_int64 (1000000000 * 2 ^ k) = \<lfloor>1000000000 * 2 ^ k :: rat\<rfloor>" unfolding float_to_int64_def by (rule if_P)
    also have "\<dots> = \<lfloor>of_int (1000000000 * 2 ^ k) :: rat\<rfloor>" by (simp only: of_int_mult of_int_numeral of_int_power)
    finally show ?thesis unfolding floor_of_int .
  qed
  have "calculateBackoffDuration (int n) = (if (300 :: rat) < 2 ^ k then 300000000000 else 1000000000 * 2 ^ k)"
    by (simp add: calculateBackoffDuration_def Suc Let_def pow2_nat f) (simp add: float_to_int64_def)
  then show ?thesis by (simp add: Suc c min_def)
qed (simp add: calculateBackoffDuration_def)


section \<open>The manager on its own\<close>

text \<open>What the two managers do when nothing arrives from the network: ticks and started tasks.\<close>

datatype manager_event = HealthCheck | HeartbeatTick | RunNotify nat | RunReconnect nat

definition own_step :: "(heartbeat \<Rightarrow> bool) \<Rightarrow> heartbeat_manager \<Rightarrow> time \<Rightarrow> manager_event \<Rightarrow> conn_manager \<Rightarrow> conn_manager" where
  "own_step ok hm now ev cm =
     (case ev of
        HealthCheck \<Rightarrow> monitor_tick now cm
      | HeartbeatTick \<Rightarrow> heartbeat_tick ok now hm cm
      | RunNotify i \<Rightarrow> run_notify i cm
      | RunReconnect i \<Rightarrow> run_reconnect now i cm)"

fun own_run :: "(heartbeat \<Rightarrow> bool) \<Rightarrow> heartbeat_manager \<Rightarrow> (time \<times> manager_event) list \<Rightarrow> conn_manager \<Rightarrow> conn_manager" where
  "own_run ok hm [] cm = cm"
| "own_run ok hm ((now, ev) # evs) cm = own_run ok hm evs (own_step ok hm now ev cm)"

lemma heartbeat_send_fields [simp]:
  "cm_reconnect (snd (sendHeartbeatToPeer ok now q hm cm)) = cm_reconnect cm"
  "cm_config (snd (sendHeartbeatToPeer ok now q hm cm)) = cm_config cm"
  "cm_stopped (snd (sendHeartbeatToPeer ok now q hm cm)) = cm_stopped cm"
  "gm_ok (cm_connections cm) \<Longrightarrow> gm_ok (cm_connections (snd (sendHeartbeatToPeer ok now q hm cm)))"
  by (simp_all add: sendHeartbeatToPeer_def Let_def split: sum.split)

lemma send_conn:
  "p \<noteq> q \<Longrightarrow> conn_of (snd (sendHeartbeatToPeer ok now q hm cm)) p = conn_of cm p"
  "(\<And>hb. hb_to hb = p \<Longrightarrow> ok hb) \<Longrightarrow> conn_of (snd (sendHeartbeatToPeer ok now p hm cm)) p =
     map_option (\<lambda>c. c\<lparr>cn_last_heartbeat := now, cn_last_seen := now\<rparr>) (conn_of cm p)"
  by (auto simp: sendHeartbeatToPeer_def GetConnection_def Let_def split: option.split)

lemma round_fields [simp]:
  "cm_reconnect (heartbeat_round ok now ps hm cm) = cm_reconnect cm"
  "cm_config (heartbeat_round ok now ps hm cm) = cm_config cm"
  "cm_stopped (heartbeat_round ok now ps hm cm) = cm_stopped cm"
  "gm_ok (cm_connections cm) \<Longrightarrow> gm_ok (cm_connections (heartbeat_round ok now ps hm cm))"
  by (induction ps arbitrary: cm) simp_all

lemma round_conn_other: "p \<notin> set ps \<Longrightarrow> conn_of (heartbeat_round ok now ps hm cm) p = conn_of cm p"
  by (induction ps arbitrary: cm) (simp_all add: send_conn(1))

lemma round_conn_ok:
  assumes "\<And>hb. hb_to hb = p \<Longrightarrow> ok hb" "p \<in> set ps"
  shows "conn_of (heartbeat_round ok now ps hm cm) p =
     map_option (\<lambda>c. c\<lparr>cn_last_heartbeat := now, cn_last_seen := now\<rparr>) (conn_of cm p)"
  using assms(2)
proof (induction ps arbitrary: cm)
  case (Cons q ps)
  show ?case
  proof (cases "p \<in> set ps")
    case True
    note IH = Cons.IH [OF True]
    show ?thesis
    proof (cases "q = p")
      case same: True
      show ?thesis unfolding same by (simp add: IH send_conn(2) [OF assms(1)] option.map_comp comp_def)
    next
      case False
      then show ?thesis by (simp add: IH send_conn(1))
    qed
  next
    case False
    then show ?thesis using Cons.prems by (simp add: round_conn_other send_conn(2) [OF assms(1)])
  qed
qed simp

lemma in_connected_peers:
  "gm_ok (cm_connections cm) \<Longrightarrow> conn_of cm p = Some c \<Longrightarrow> p \<in> set (GetConnectedPeers cm) \<longleftrightarrow> cn_state c = StateConnected"
  by (auto simp: GetConnectedPeers_def gm_ok_def image_iff dest: eq_key_imp_eq_value)

lemma AttemptReconnection_conn:
  "q \<noteq> p \<Longrightarrow> conn_of (fst (AttemptReconnection now q cm)) p = conn_of cm p"
  "conn_of cm p = Some c \<Longrightarrow> cn_state c = StateConnected \<Longrightarrow> fst (AttemptReconnection now p cm) = cm"
  by (simp_all add: AttemptReconnection_def split: option.split)

lemma AttemptReconnection_fields [simp]:
  "cm_reconnect (fst (AttemptReconnection now q cm)) = cm_reconnect cm"
  "cm_config (fst (AttemptReconnection now q cm)) = cm_config cm"
  "cm_stopped (fst (AttemptReconnection now q cm)) = cm_stopped cm"
  "gm_ok (cm_connections cm) \<Longrightarrow> gm_ok (cm_connections (fst (AttemptReconnection now q cm)))"
  by (simp_all add: AttemptReconnection_def put_connection_def start_notify_def split: option.split)

lemma run_notify_fields [simp]:
  "cm_connections (run_notify i cm) = cm_connections cm" "cm_reconnect (run_notify i cm) = cm_reconnect cm"
  "cm_config (run_notify i cm) = cm_config cm" "cm_stopped (run_notify i cm) = cm_stopped cm"
  by (simp_all add: run_notify_def split: prod.split)

lemma own_step_inv:
  assumes "gm_ok (cm_connections cm)"
  shows "gm_ok (cm_connections (own_step ok hm now ev cm))" "cm_config (own_step ok hm now ev cm) = cm_config cm"
  using assms by (simp_all add: own_step_def monitor_tick_def heartbeat_tick_def run_reconnect_def
      checkConnectionHealth_def sendHeartbeatToAllPeers_def split: manager_event.split option.split)

text \<open>A connection that is not connected and has no task is out of reach of everything the manager does itself.\<close>

lemma own_step_idle:
  assumes "gm_ok (cm_connections cm)" "conn_of cm p = Some c" "cn_state c \<noteq> StateConnected" "p \<notin> set (cm_reconnect cm)"
  shows "conn_of (own_step ok hm now ev cm) p = Some c \<and> p \<notin> set (cm_reconnect (own_step ok hm now ev cm))"
proof (cases ev)
  case HealthCheck
  have "p \<notin> fst ` {x \<in> set (cm_connections cm). case x of (p, c) \<Rightarrow> silent now limit c}" for limit
    using assms(1-3) by (auto simp: silent_def gm_ok_def dest: eq_key_imp_eq_value)
  then show ?thesis
    using assms by (auto simp: HealthCheck own_step_def monitor_tick_def checkConnectionHealth_def check_loop_conn
        check_loop_reconnect silent_def split: option.split)
next
  case HeartbeatTick
  then show ?thesis using assms in_connected_peers [OF assms(1,2)]
    by (simp add: own_step_def heartbeat_tick_def sendHeartbeatToAllPeers_def round_conn_other)
next
  case (RunNotify i)
  then show ?thesis using assms by (simp add: own_step_def)
next
  case (RunReconnect i)
  show ?thesis
  proof (cases "i < length (cm_reconnect cm)")
    case True
    then have "cm_reconnect cm ! i \<noteq> p" using assms(4) nth_mem by blast
    then show ?thesis using True assms(2,4)
      by (auto simp: RunReconnect own_step_def run_reconnect_def AttemptReconnection_conn(1) dest: in_set_takeD in_set_dropD)
  qed (use assms in \<open>simp add: RunReconnect own_step_def run_reconnect_def\<close>)
qed

text \<open>A reconnection is attempted at most once: the attempt leaves the connection in state connecting,
  and the health check starts attempts for connections in state connected only. From then on no tick of
  the manager and no task it started changes the connection, its retry count or the time of the last
  attempt, however long it runs; the growing delays are never used.
\<close>

theorem reconnection_attempted_once:
  assumes "gm_ok (cm_connections cm)" "map_of (cm_connections cm) p = Some c" "cn_state c \<noteq> StateConnected"
    and "p \<notin> set (cm_reconnect cm)"
  shows "map_of (cm_connections (own_run ok hm evs cm)) p = Some c"
  using assms
proof (induction ok hm evs cm rule: own_run.induct)
  case (2 ok hm now ev evs cm)
  show ?case using 2(1) own_step_inv(1) [OF 2(2)] own_step_idle [OF 2(2-5)] 2(4) by simp
qed simp

theorem reconnection_attempted_once_witness:
  "\<exists>c. map_of (cm_connections (own_run (\<lambda>_. True) (NewHeartbeatManager 30 ''me'')
         [(400, HealthCheck), (10 ^ 12, RunReconnect 0), (10 ^ 12, HeartbeatTick)]
         (run_reconnect 200 0 (checkConnectionHealth 100 sample_manager)))) ''a'' = Some c \<and>
       cn_state c = StateConnecting \<and> cn_retry_count c = 1"
proof -
  let ?cm = "run_reconnect 200 0 (checkConnectionHealth 100 sample_manager)"
  define c where "c = the (conn_of ?cm ''a'')"
  have c: "conn_of ?cm ''a'' = Some c" "cn_state c = StateConnecting" "cn_retry_count c = 1" "cm_reconnect ?cm = []"
    unfolding c_def by code_simp+
  have g: "gm_ok (cm_connections ?cm)" by (simp add: run_reconnect_def checkConnectionHealth_def)
  have "conn_of (own_run (\<lambda>_. True) (NewHeartbeatManager 30 ''me'')
         [(400, HealthCheck), (10 ^ 12, RunReconnect 0), (10 ^ 12, HeartbeatTick)] ?cm) ''a'' = Some c"
    by (rule reconnection_attempted_once [OF g c(1)]) (simp_all add: c)
  then show ?thesis using c(2,3) by blast
qed

fun beats_within :: "int64 \<Rightarrow> time \<Rightarrow> (time \<times> manager_event) list \<Rightarrow> bool" where
  "beats_within limit last_beat [] = True"
| "beats_within limit last_beat ((now, HeartbeatTick) # evs) = beats_within limit now evs"
| "beats_within limit last_beat ((now, HealthCheck) # evs) =
     (time_sub now last_beat \<le> limit \<and> beats_within limit last_beat evs)"
| "beats_within limit last_beat ((now, RunNotify i) # evs) = beats_within limit last_beat evs"
| "beats_within limit last_beat ((now, RunReconnect i) # evs) = beats_within limit last_beat evs"

text \<open>The heartbeats that this peer sends refresh its own record of the other's last heartbeat. So a
  peer that never sends anything is never found silent: as long as sending succeeds and no health check
  comes later than the limit after a tick, the connection stays in state connected.
\<close>

theorem heartbeats_mask_silence:
  assumes "gm_ok (cm_connections cm)" "cm_config cm = Some interval" "\<not> hm_stopped hm"
    and "map_of (cm_connections cm) p = Some c" "cn_state c = StateConnected"
    and "\<And>hb. hb_to hb = p \<Longrightarrow> ok hb" "beats_within (heartbeat_timeout interval) (cn_last_heartbeat c) evs"
  shows "\<exists>c'. map_of (cm_connections (own_run ok hm evs cm)) p = Some c' \<and> cn_state c' = StateConnected"
  using assms
proof (induction "heartbeat_timeout interval" "cn_last_heartbeat c" evs arbitrary: cm c rule: beats_within.induct)
  case 1
  then show ?case by simp
next
  case (2 now evs)
  let ?c = "c\<lparr>cn_last_heartbeat := now, cn_last_seen := now\<rparr>" and ?cm = "own_step ok hm now HeartbeatTick cm"
  have "conn_of ?cm p = Some ?c"
    using 2 in_connected_peers [OF 2(2,5)]
    by (simp add: own_step_def heartbeat_tick_def sendHeartbeatToAllPeers_def round_conn_ok)
  then show ?case using 2(1) [of ?c ?cm] 2(2-) own_step_inv [OF 2(2)] by simp
next
  case (3 now evs)
  let ?cm = "own_step ok hm now HealthCheck cm"
  have "conn_of ?cm p = Some c"
    using 3 by (simp add: own_step_def monitor_tick_def checkConnectionHealth_def check_loop_conn silent_def)
  then show ?case using 3(1) [of c ?cm] 3(2-) own_step_inv [OF 3(2)] by simp
next
  case (4 now i evs)
  let ?cm = "own_step ok hm now (RunNotify i) cm"
  have "conn_of ?cm p = Some c" using 4 by (simp add: own_step_def)
  then show ?case using 4(1) [of c ?cm] 4(2-) own_step_inv [OF 4(2)] by simp
next
  case (5 now i evs)
  let ?cm = "own_step ok hm now (RunReconnect i) cm"
  have "conn_of ?cm p = Some c"
    using 5(5,6) AttemptReconnection_conn [where p = p and now = now]
    by (cases "cm_reconnect cm ! i = p") (simp_all add: own_step_def run_reconnect_def)
  then show ?case using 5(1) [of c ?cm] 5(2-) own_step_inv [OF 5(2)] by simp
qed

theorem heartbeats_mask_silence_witness:
  "\<exists>c'. map_of (cm_connections (own_run (\<lambda>_. True) (NewHeartbeatManager 30 ''me'')
      [(30 * 10 ^ 9, HeartbeatTick), (31 * 10 ^ 9, HealthCheck), (60 * 10 ^ 9, HeartbeatTick), (61 * 10 ^ 9, HealthCheck)]
      sample_manager)) ''a'' = Some c' \<and> cn_state c' = StateConnected"
proof -
  define c where "c = the (conn_of sample_manager ''a'')"
  have c: "conn_of sample_manager ''a'' = Some c" "cn_state c = StateConnected" unfolding c_def by code_simp+
  have t: "heartbeat_timeout 30 = 60 * 10 ^ 9" by (simp add: heartbeat_timeout_def in_int64_def)
  show ?thesis
    by (rule heartbeats_mask_silence [where interval = 30 and c = c])
      (simp_all add: c t NewHeartbeatManager_def time_sub_def)
qed

lemma heartbeat_timeout_bound: "heartbeat_timeout interval < 2 ^ 63 - 1"
proof -
  let ?x = "wrap64 (interval * 2) * 10 ^ 9"
  define q where "q = (?x + 2 ^ 63) div 2 ^ 64"
  have "(?x + 2 ^ 63) mod 2 ^ 64 = ?x + 2 ^ 63 - 2 ^ 64 * q" unfolding q_def by (rule minus_mult_div_eq_mod [symmetric])
  then have "heartbeat_timeout interval = 2 * (wrap64 (interval * 2) * 500000000 - 9223372036854775808 * q)"
    unfolding heartbeat_timeout_def wrap64_def [of ?x] by simp
  moreover have "2 * y < 2 ^ 63 - 1" if "2 * y < (2 :: int) ^ 63" for y using that by simp
  moreover have "in_int64 (heartbeat_timeout interval)" by (simp add: heartbeat_timeout_def)
  ultimately show ?thesis unfolding in_int64_def by metis
qed

text \<open>
  \<open>AddConnection\<close> alone leaves the time of the last heartbeat at the zero time, and the first health check
  would drop the connection; the transports always call \<open>UpdateConnectionState\<close> right after it.
\<close>

lemma fresh_connection_times_out:
  assumes "cm_config cm = Some interval" "gm_ok (cm_connections cm)" "0 \<le> now" "\<not> cm_stopped cm"
  shows "\<exists>c. map_of (cm_connections (monitor_tick now (snd (AddConnection t p address port cm)))) p = Some c \<and>
    cn_state c = StateDisconnected \<and>
    p \<in> set (cm_reconnect (monitor_tick now (snd (AddConnection t p address port cm))))"
proof -
  let ?cm = "snd (AddConnection t p address port cm)" and ?c = "fst (AddConnection t p address port cm)"
  have cm: "conn_of ?cm p = Some ?c" "cm_config ?cm = Some interval" "gm_ok (cm_connections ?cm)" "\<not> cm_stopped ?cm"
    using assms by (simp_all add: AddConnection_def Let_def put_connection_def)
  have "time_sub now (cn_last_heartbeat ?c) = 2 ^ 63 - 1"
    using assms(3) by (simp add: AddConnection_def Let_def time_sub_def zero_time_def)
  then have s: "silent now (heartbeat_timeout interval) ?c"
    using heartbeat_timeout_bound [of interval] by (simp add: silent_def AddConnection_def Let_def)
  have "(p, ?c) \<in> set (cm_connections ?cm)" using cm(1) by (rule map_of_SomeD)
  then show ?thesis using s cm
    by (force simp: monitor_tick_def checkConnectionHealth_def check_loop_conn check_loop_reconnect)
qed

end
