(* ===== verification/Reconciliation.thy ===== *)
theory Reconciliation
  imports Engine "HOL-Library.Word" "HOL-Library.Multiset"
begin

unbundle bit_operations_syntax

text \<open>
  State reconciliation: the declarations of \<^verbatim>\<open>internal/state/declaration.go\<close>, their comparison and the
  assignment of files to peers in \<^verbatim>\<open>internal/state/reconciliation.go\<close>, and the choice of a peer by hash in
  \<^verbatim>\<open>internal/state/loadbalance.go\<close>. Files are listed in the order of the code. Go visits a map in an order
  that it does not fix, anew in every loop: where the result depends on it the order is an argument.
\<close>

section \<open>Declarations\<close>

record state_declaration =
  sd_peer :: string
  sd_clock :: vclock
  sd_manifest :: "manifest_entry list"
  sd_pending :: "log_payload list"

definition manifest_entry_of :: "file_metadata \<Rightarrow> manifest_entry" where
  "manifest_entry_of f =
     \<lparr>mf_file_id = fm_file_id f, mf_path = fm_path f, mf_hash = fm_checksum f, mf_size = fm_size f,
      mf_mtime = unix_sec (fm_mtime f), mf_last_modified_by = fm_peer_id f\<rparr>"

definition pending_payload :: "log_entry \<Rightarrow> log_payload" where
  "pending_payload le =
     \<lparr>pl_operation_id = le_operation_id le, pl_timestamp = unix_sec (le_timestamp le), pl_type = le_type le,
      pl_peer_id = le_peer_id le, pl_vector_clock = le_vector_clock le, pl_file_id = le_file_id le,
      pl_path = le_path le, pl_from_path = le_from_path le, pl_checksum = le_checksum le, pl_size = le_size le,
      pl_mtime = map_option unix_sec (le_mtime le), pl_mode = le_mode le, pl_data = le_data le,
      pl_compressed = Some (le_compressed le), pl_original_size = le_original_size le,
      pl_compression_algorithm = le_compression_algorithm le\<rparr>"

definition BuildStateDeclaration :: "database \<Rightarrow> string \<Rightarrow> state_declaration" where
  "BuildStateDeclaration db peerID =
     (let operations = GetUnacknowledgedOperations db
      in \<lparr>sd_peer = peerID,
          sd_clock = fold (\<lambda>le vc. vc_merge vc (vc_or_empty (le_vector_clock le))) operations NewVectorClock,
          sd_manifest = map manifest_entry_of (GetAllFiles db),
          sd_pending = map pending_payload operations\<rparr>)"

section \<open>Comparison\<close>

record reconciliation_result =
  rr_missing :: "manifest_entry list"
  rr_conflicting :: "manifest_entry list"
  rr_pending :: "log_payload list"

definition files_by_id :: "manifest_entry list \<Rightarrow> (string, manifest_entry) gomap" where
  "files_by_id files = fold (\<lambda>file m. gm_put (mf_file_id file) file m) files []"

fun compare_files :: "(string, manifest_entry) gomap \<Rightarrow> manifest_entry list \<Rightarrow> reconciliation_result \<Rightarrow> reconciliation_result" where
  "compare_files localFiles [] r = r"
| "compare_files localFiles (remoteFile # files) r =
     compare_files localFiles files
       (case map_of localFiles (mf_file_id remoteFile) of
          None \<Rightarrow> r\<lparr>rr_missing := rr_missing r @ [remoteFile]\<rparr>
        | Some localFile \<Rightarrow>
            if mf_hash localFile \<noteq> mf_hash remoteFile
            then r\<lparr>rr_conflicting := rr_conflicting r @ [remoteFile]\<rparr> else r)"

definition ReconcileStates :: "state_declaration \<Rightarrow> state_declaration \<Rightarrow> reconciliation_result" where
  "ReconcileStates local remote =
     (let result = compare_files (files_by_id (sd_manifest local)) (sd_manifest remote)
                     \<lparr>rr_missing = [], rr_conflicting = [], rr_pending = []\<rparr>;
          localOps = fold (\<lambda>op m. gm_put (pl_operation_id op) True m) (sd_pending local) []
      in fold (\<lambda>op r. if \<not> gm_get False localOps (pl_operation_id op) then r\<lparr>rr_pending := rr_pending r @ [op]\<rparr> else r)
           (sd_pending remote) result)"

section \<open>Assignment\<close>

text \<open>\<open>peerIDs\<close> are the keys of the map in the order in which the loop meets them.\<close>

fun assign_round_robin :: "string list \<Rightarrow> nat \<Rightarrow> string list \<Rightarrow> (string, string list) gomap \<Rightarrow> (string, string list) gomap" where
  "assign_round_robin peerIDs i [] result = result"
| "assign_round_robin peerIDs i (file # files) result =
     (let peerID = peerIDs ! (i mod length peerIDs)
      in assign_round_robin peerIDs (Suc i) files (gm_put peerID (gm_get [] result peerID @ [file]) result))"

definition AssignFilesToPeers :: "string list \<Rightarrow> string list \<Rightarrow> (string, string list) gomap" where
  "AssignFilesToPeers peerIDs files =
     (if length peerIDs = 0 then [] else assign_round_robin peerIDs 0 files [])"

record peer_capabilities =
  pc_compression :: bool
  pc_max_transfers :: int64
  pc_bandwidth :: int64

definition remaining_capacity :: "(string, peer_capabilities) gomap \<Rightarrow> (string, int64) gomap \<Rightarrow> (string, int64) gomap" where
  "remaining_capacity peerCapabilities currentLoad =
     map (\<lambda>(peerID, capabilities). (peerID, wrap64 (pc_max_transfers capabilities - gm_get 0 currentLoad peerID)))
       peerCapabilities"

text \<open>Every file comes with the order in which its loop visits the peers.\<close>

fun assign_capacity ::
  "(string \<times> string list) list \<Rightarrow> (string, string list) gomap \<times> (string, int64) gomap \<Rightarrow>
   (string, string list) gomap \<times> (string, int64) gomap" where
  "assign_capacity [] st = st"
| "assign_capacity ((file, order) # files) (result, remaining) =
     (case find (\<lambda>peerID. gm_get 0 remaining peerID > 0) order of
        None \<Rightarrow> assign_capacity files (result, remaining)
      | Some peerID \<Rightarrow>
          assign_capacity files
            (gm_put peerID (gm_get [] result peerID @ [file]) result,
             gm_put peerID (wrap64 (gm_get 0 remaining peerID - 1)) remaining))"

definition AssignFilesWithCapacity ::
  "(string, peer_capabilities) gomap \<Rightarrow> (string, int64) gomap \<Rightarrow> (string \<times> string list) list \<Rightarrow> (string, string list) gomap" where
  "AssignFilesWithCapacity peerCapabilities currentLoad filesToSync =
     fst (assign_capacity filesToSync
       (map (\<lambda>(peerID, _). (peerID, [])) peerCapabilities, remaining_capacity peerCapabilities currentLoad))"

section \<open>Choice by hash\<close>

text \<open>FNV-1a with 32 bits, \<open>hash/fnv\<close> of the standard library.\<close>

definition fnv32a :: "bytes \<Rightarrow> 32 word" where
  "fnv32a data = fold (\<lambda>b h. (h XOR of_char b) * 16777619) data 2166136261"

type_synonym load_balancer = "string list"

definition NewLoadBalancer :: "string list \<Rightarrow> load_balancer" where
  "NewLoadBalancer peers = sort peers"

definition selectPeer :: "load_balancer \<Rightarrow> string \<Rightarrow> string" where
  "selectPeer peers fileID =
     (if length peers = 0 then ''''
      else if length peers = 1 then peers ! 0
      else peers ! (unat (fnv32a fileID) mod length peers))"

definition DistributeFiles :: "load_balancer \<Rightarrow> manifest_entry list \<Rightarrow> (string, manifest_entry list) gomap" where
  "DistributeFiles peers files =
     (if length peers = 0 then []
      else fold (\<lambda>file d. gm_put (selectPeer peers (mf_file_id file)) (gm_get [] d (selectPeer peers (mf_file_id file)) @ [file]) d)
             files (fold (\<lambda>peer d. gm_put peer [] d) peers []))"

definition GetPeerForFile :: "load_balancer \<Rightarrow> string \<Rightarrow> string" where
  "GetPeerForFile peers fileID = selectPeer peers fileID"

section \<open>Lemmas\<close>

lemma map_of_files_by_id:
  "map_of (fold (\<lambda>file m. gm_put (mf_file_id file) file m) files m) i =
     (case find (\<lambda>f. mf_file_id f = i) (rev files) of Some f \<Rightarrow> Some f | None \<Rightarrow> map_of m i)"
  by (induction files rule: rev_induct) (simp_all split: option.split)

lemma map_of_ids:
  "gm_get False (fold (\<lambda>op m. gm_put (pl_operation_id op) True m) ops m) i \<longleftrightarrow>
     i \<in> pl_operation_id ` set ops \<or> gm_get False m i"
  by (induction ops rule: rev_induct) (auto simp: gm_get_put)

lemma compare_files_eq:
  "compare_files m files r =
     r\<lparr>rr_missing := rr_missing r @ filter (\<lambda>f. map_of m (mf_file_id f) = None) files,
       rr_conflicting := rr_conflicting r @
         filter (\<lambda>f. case map_of m (mf_file_id f) of None \<Rightarrow> False | Some g \<Rightarrow> mf_hash g \<noteq> mf_hash f) files\<rparr>"
  by (induction m files r rule: compare_files.induct) (simp_all split: option.split)

lemma fold_pending:
  "fold (\<lambda>op r. if P op then r\<lparr>rr_pending := rr_pending r @ [op]\<rparr> else r) ops r =
     r\<lparr>rr_pending := rr_pending r @ filter P ops\<rparr>"
  by (induction ops arbitrary: r) simp_all

lemma find_unique:
  assumes "distinct (map mf_file_id files)" "g \<in> set files"
  shows "find (\<lambda>f. mf_file_id f = mf_file_id g) (rev files) = Some g"
proof -
  obtain h where h: "find (\<lambda>f. mf_file_id f = mf_file_id g) (rev files) = Some h"
    using assms(2) by (cases "find (\<lambda>f. mf_file_id f = mf_file_id g) (rev files)") (auto simp: find_None_iff)
  then have "h \<in> set files" "mf_file_id h = mf_file_id g" unfolding find_Some_iff by (metis nth_mem set_rev, metis)
  then show ?thesis using assms h by (metis distinct_map inj_onD)
qed

lemma ReconcileStates_eq:
  "ReconcileStates l r =
     (let m = files_by_id (sd_manifest l)
      in \<lparr>rr_missing = filter (\<lambda>f. map_of m (mf_file_id f) = None) (sd_manifest r),
          rr_conflicting = filter (\<lambda>f. case map_of m (mf_file_id f) of None \<Rightarrow> False | Some g \<Rightarrow> mf_hash g \<noteq> mf_hash f)
            (sd_manifest r),
          rr_pending = filter (\<lambda>op. pl_operation_id op \<notin> pl_operation_id ` set (sd_pending l)) (sd_pending r)\<rparr>)"
  by (simp add: ReconcileStates_def compare_files_eq fold_pending map_of_ids Let_def) (simp add: gm_get_def)

lemma GetAllFiles_GetFile:
  assumes "gm_ok (db_files db)"
  shows "f \<in> set (GetAllFiles db) \<and> fm_file_id f = i \<longleftrightarrow> GetFile i db = Inr f"
proof -
  have a: "set (GetAllFiles db) = (\<lambda>(i, r). scan_file i r) ` set (db_files db)" by (simp add: GetAllFiles_def)
  have id: "fm_file_id (scan_file j r) = j" for j r by (simp add: scan_file_def Let_def)
  have "f \<in> set (GetAllFiles db) \<and> fm_file_id f = i \<longleftrightarrow> (\<exists>r. (i, r) \<in> set (db_files db) \<and> f = scan_file i r)"
    unfolding a using id by auto
  also have "\<dots> \<longleftrightarrow> (\<exists>r. map_of (db_files db) i = Some r \<and> f = scan_file i r)"
    using assms by (simp add: gm_ok_def)
  also have "\<dots> \<longleftrightarrow> GetFile i db = Inr f" by (auto simp: GetFile_def split: option.split)
  finally show ?thesis .
qed

lemma manifest_lookup:
  assumes "gm_ok (db_files db)"
  shows "map_of (files_by_id (map manifest_entry_of (GetAllFiles db))) i =
     (case GetFile i db of Inl _ \<Rightarrow> None | Inr f \<Rightarrow> Some (manifest_entry_of f))"
proof -
  have ids: "mset (map fm_file_id (GetAllFiles db)) = mset (map fst (db_files db))"
  proof -
    have "map fm_file_id (GetAllFiles db) = map fst (sort_key (\<lambda>(_, r). fc_path (fr_columns r)) (db_files db))"
      by (simp add: GetAllFiles_def scan_file_def Let_def comp_def case_prod_unfold)
    then show ?thesis by (metis mset_map mset_sort)
  qed
  then have d: "distinct (map mf_file_id (map manifest_entry_of (GetAllFiles db)))"
    using assms mset_eq_imp_distinct_iff [OF ids] by (simp add: gm_ok_def manifest_entry_of_def comp_def)
  show ?thesis
  proof (cases "GetFile i db")
    case (Inl e)
    have "fm_file_id f \<noteq> i" if "f \<in> set (GetAllFiles db)" for f
    proof
      assume "fm_file_id f = i"
      then have "GetFile i db = Inr f" using GetAllFiles_GetFile [OF assms, of f i] that by blast
      then show False using Inl by simp
    qed
    then have "find (\<lambda>f. mf_file_id f = i) (rev (map manifest_entry_of (GetAllFiles db))) = None"
      by (auto simp: find_None_iff manifest_entry_of_def)
    then show ?thesis using Inl by (simp add: files_by_id_def map_of_files_by_id)
  next
    case (Inr f)
    then have f: "f \<in> set (GetAllFiles db)" "fm_file_id f = i" using GetAllFiles_GetFile [OF assms] by auto
    have "mf_file_id (manifest_entry_of f) = i" by (simp add: manifest_entry_of_def f(2))
    moreover have "manifest_entry_of f \<in> set (map manifest_entry_of (GetAllFiles db))" using f(1) by simp
    ultimately have "find (\<lambda>f. mf_file_id f = i) (rev (map manifest_entry_of (GetAllFiles db))) = Some (manifest_entry_of f)"
      using find_unique [OF d] by metis
    then show ?thesis using Inr by (simp add: files_by_id_def map_of_files_by_id)
  qed
qed

text \<open>C27. Comparing the declarations of two peers lists exactly the rows of the other peer's index that this one
  has no row for, the rows that both have with different checksums, and the unacknowledged operations
  of the other that are not among its own.
\<close>

theorem reconcile_exact:
  assumes "gm_ok (db_files a)" "gm_ok (db_files b)"
  shows "let r = ReconcileStates (BuildStateDeclaration a p) (BuildStateDeclaration b q) in
    rr_missing r = map manifest_entry_of (filter (\<lambda>f. \<forall>g. GetFile (fm_file_id f) a \<noteq> Inr g) (GetAllFiles b)) \<and>
    rr_conflicting r = map manifest_entry_of
      (filter (\<lambda>f. \<exists>g. GetFile (fm_file_id f) a = Inr g \<and> fm_checksum g \<noteq> fm_checksum f) (GetAllFiles b)) \<and>
    rr_pending r = map pending_payload
      (filter (\<lambda>le. le_operation_id le \<notin> le_operation_id ` set (GetUnacknowledgedOperations a)) (GetUnacknowledgedOperations b))"
proof -
  have m: "mf_file_id (manifest_entry_of f) = fm_file_id f" "mf_hash (manifest_entry_of f) = fm_checksum f"
    "pl_operation_id (pending_payload le) = le_operation_id le" for f le
    by (simp_all add: manifest_entry_of_def pending_payload_def)
  have x: "(\<exists>g. GetFile i a = Inr g \<and> P g) \<longleftrightarrow> (case GetFile i a of Inl _ \<Rightarrow> False | Inr g \<Rightarrow> P g)"
    "(\<forall>g. GetFile i a \<noteq> Inr g) \<longleftrightarrow> (case GetFile i a of Inl _ \<Rightarrow> True | Inr g \<Rightarrow> False)" for i P
    by (simp_all split: sum.split)
  show ?thesis
    unfolding Let_def ReconcileStates_eq x
    by (auto simp: BuildStateDeclaration_def Let_def manifest_lookup [OF assms(1)] filter_map m comp_def image_image
        intro!: filter_cong arg_cong [where f = "map manifest_entry_of"] split: sum.splits)
qed


lemma gm_ok_empty_schema [simp]: "gm_ok (db_files initSchema)"
  by (simp add: initSchema_def)

lemma gm_ok_init_db [simp]: "gm_ok (db_files (InsertFile now f initSchema))"
  by (simp add: InsertFile_def upsert_file_def Let_def split: option.split)

theorem reconcile_exact_witness:
  "let a = initSchema; b = InsertFile 1 (local_metadata 1 ''f'' ''a'' ''c'' 1 (NewEngine [] [] ''p'' initSchema \<lparr>fs_files = [], fs_dirs = [], fs_xattr = True\<rparr>)) initSchema;
       r = ReconcileStates (BuildStateDeclaration a ''p'') (BuildStateDeclaration b ''q'') in
    rr_missing r = map manifest_entry_of (filter (\<lambda>f. \<forall>g. GetFile (fm_file_id f) a \<noteq> Inr g) (GetAllFiles b)) \<and>
    rr_conflicting r = map manifest_entry_of
      (filter (\<lambda>f. \<exists>g. GetFile (fm_file_id f) a = Inr g \<and> fm_checksum g \<noteq> fm_checksum f) (GetAllFiles b)) \<and>
    rr_pending r = map pending_payload
      (filter (\<lambda>le. le_operation_id le \<notin> le_operation_id ` set (GetUnacknowledgedOperations a)) (GetUnacknowledgedOperations b))"
  unfolding Let_def by (rule reconcile_exact [unfolded Let_def]) (simp_all add: gm_ok_empty_schema)

section \<open>Peers for files\<close>

lemma selectPeer_in: "ps \<noteq> [] \<Longrightarrow> selectPeer ps i \<in> set ps"
  by (auto simp: selectPeer_def intro!: nth_mem)

lemma map_of_fold_Nil: "map_of (fold (\<lambda>peer d. gm_put peer [] d) ps d) p = (if p \<in> set ps then Some [] else map_of d p)"
  by (induction ps arbitrary: d) auto

lemma fold_distribute:
  "map_of d p = Some xs \<Longrightarrow>
   map_of (fold (\<lambda>f d. gm_put (s f) (gm_get [] d (s f) @ [f]) d) fs d) p = Some (xs @ filter (\<lambda>f. s f = p) fs)"
  by (induction fs arbitrary: d xs) (auto simp: gm_get_def)

lemma fold_distribute_other:
  "p \<notin> s ` set fs \<Longrightarrow> map_of (fold (\<lambda>f d. gm_put (s f) (gm_get [] d (s f) @ [f]) d) fs d) p = map_of d p"
  by (induction fs arbitrary: d) auto

text \<open>All peers that know the same set of peers, in whatever order they learnt of it, compute the same
  distribution: every file goes to exactly one known peer, the one that \<open>GetPeerForFile\<close> names, in the
  order of the manifest.
\<close>

theorem distribution_agreed:
  assumes "ps \<noteq> []" "mset qs = mset ps"
  shows "DistributeFiles (NewLoadBalancer qs) files = DistributeFiles (NewLoadBalancer ps) files \<and>
    map_of (DistributeFiles (NewLoadBalancer ps) files) p =
      (if p \<in> set ps then Some (filter (\<lambda>f. GetPeerForFile (NewLoadBalancer ps) (mf_file_id f) = p) files) else None) \<and>
    GetPeerForFile (NewLoadBalancer qs) i \<in> set ps"
proof -
  have s: "sort qs = sort ps" by (rule properties_for_sort) (use assms(2) in simp_all)
  have ne: "sort ps \<noteq> []" using assms(1) by simp
  have "selectPeer (sort ps) j \<in> set ps" for j using selectPeer_in [OF ne, of j] by simp
  moreover have "map_of (DistributeFiles (sort ps) files) p =
      (if p \<in> set ps then Some (filter (\<lambda>f. selectPeer (sort ps) (mf_file_id f) = p) files) else None)"
  proof (cases "p \<in> set ps")
    case True
    then have "map_of (fold (\<lambda>peer d. gm_put peer [] d) (sort ps) []) p = Some []" by (simp add: map_of_fold_Nil)
    from fold_distribute [OF this, of "\<lambda>f. selectPeer (sort ps) (mf_file_id f)" files] show ?thesis
      using True ne by (simp add: DistributeFiles_def)
  next
    case False
    then have "p \<notin> (\<lambda>f. selectPeer (sort ps) (mf_file_id f)) ` set files" using calculation by auto
    from fold_distribute_other [OF this] show ?thesis
      using False ne by (simp add: DistributeFiles_def map_of_fold_Nil)
  qed
  ultimately show ?thesis by (simp add: NewLoadBalancer_def s GetPeerForFile_def)
qed

theorem distribution_agreed_witness:
  "DistributeFiles (NewLoadBalancer [''b'', ''a'']) [] = DistributeFiles (NewLoadBalancer [''a'', ''b'']) [] \<and>
    map_of (DistributeFiles (NewLoadBalancer [''a'', ''b'']) []) ''a'' =
      (if ''a'' \<in> set [''a'', ''b''] then Some (filter (\<lambda>f. GetPeerForFile (NewLoadBalancer [''a'', ''b'']) (mf_file_id f) = ''a'') []) else None) \<and>
    GetPeerForFile (NewLoadBalancer [''b'', ''a'']) ''f'' \<in> set [''a'', ''b'']"
  by (rule distribution_agreed) simp_all

text \<open>
  The choice is the hash modulo the number of peers, not consistent hashing: a third peer can move a file
  between the two others.
\<close>

lemma fnv_a: "fnv32a ''a'' = 3826002220"
  by (simp add: fnv32a_def)

lemma added_peer_moves_file:
  "GetPeerForFile (NewLoadBalancer [''a'', ''b'']) ''a'' = ''a''"
  "GetPeerForFile (NewLoadBalancer [''a'', ''b'', ''c'']) ''a'' = ''b''"
proof -
  have s: "sort [''a'', ''b''] = [''a'', ''b'']" "sort [''a'', ''b'', ''c''] = [''a'', ''b'', ''c'']" by code_simp+
  show "GetPeerForFile (NewLoadBalancer [''a'', ''b'']) ''a'' = ''a''"
    "GetPeerForFile (NewLoadBalancer [''a'', ''b'', ''c'']) ''a'' = ''b''"
    unfolding GetPeerForFile_def NewLoadBalancer_def s selectPeer_def fnv_a by (simp_all add: numeral_2_eq_2 [symmetric] numeral_3_eq_3 [symmetric])
qed

section \<open>Capacity\<close>

definition capacity :: "(string, peer_capabilities) gomap \<Rightarrow> (string, int64) gomap \<Rightarrow> string \<Rightarrow> nat" where
  "capacity caps load p = nat (gm_get 0 (remaining_capacity caps load) p)"

lemma sum_put:
  fixes h :: "'k \<Rightarrow> 'v \<Rightarrow> 'a :: comm_monoid_add"
  assumes "finite K" "q \<in> K"
  shows "(\<Sum>p\<in>K. h p (gm_get z (gm_put q v m) p)) = h q v + (\<Sum>p\<in>K - {q}. h p (gm_get z m p))"
  using assms by (simp add: sum.remove [of K q] gm_get_put)

lemma assign_capacity_spec:
  assumes "finite K" "\<forall>(f, order) \<in> set files. set order = K" "\<forall>p. in_int64 (gm_get 0 remaining p)"
  shows "(\<forall>p. length (gm_get [] (fst (assign_capacity files (result, remaining))) p) \<le>
        length (gm_get [] result p) + nat (gm_get 0 remaining p)) \<and>
    (\<Sum>p\<in>K. mset (gm_get [] (fst (assign_capacity files (result, remaining))) p)) =
      (\<Sum>p\<in>K. mset (gm_get [] result p)) + mset (take (\<Sum>p\<in>K. nat (gm_get 0 remaining p)) (map fst files))"
  using assms(2,3)
proof (induction files arbitrary: result remaining)
  case (Cons fo files)
  obtain f order where fo: "fo = (f, order)" by (cases fo)
  have order: "set order = K" using Cons.prems(1) fo by simp
  have files: "\<forall>(f, order) \<in> set files. set order = K" using Cons.prems(1) by simp
  show ?case
  proof (cases "find (\<lambda>p. gm_get 0 remaining p > 0) order")
    case None
    then have "\<forall>p \<in> K. nat (gm_get 0 remaining p) = 0" using order by (auto simp: find_None_iff not_less)
    then have z: "(\<Sum>p\<in>K. nat (gm_get 0 remaining p)) = 0" by simp
    show ?thesis using Cons.IH [OF files Cons.prems(2)] by (simp add: fo None z)
  next
    case (Some q)
    then have q: "q \<in> K" "0 < gm_get 0 remaining q"
      using order by (auto simp: find_Some_iff)
    let ?r = "gm_put q (gm_get [] result q @ [f]) result"
    have w: "wrap64 (gm_get 0 remaining q - 1) = gm_get 0 remaining q - 1"
      using Cons.prems(2) [rule_format, of q] q(2) by (intro wrap64_id) (simp add: in_int64_def)
    let ?m = "gm_put q (gm_get 0 remaining q - 1) remaining"
    have m: "\<forall>p. in_int64 (gm_get 0 ?m p)"
      using Cons.prems(2) in_int64_wrap64 [of "gm_get 0 remaining q - 1"] by (simp add: gm_get_put w)
    note IH = Cons.IH [OF files m, of ?r]
    have n: "(\<Sum>p\<in>K. nat (gm_get 0 remaining p)) = Suc (\<Sum>p\<in>K. nat (gm_get 0 ?m p))"
      using q sum_put [OF assms(1) q(1), of "\<lambda>_. nat" 0 "gm_get 0 remaining q - 1" remaining] assms(1)
      by (simp add: sum.remove [of K q] nat_diff_distrib)
    have s: "(\<Sum>p\<in>K. mset (gm_get [] ?r p)) = {#f#} + (\<Sum>p\<in>K. mset (gm_get [] result p))"
      using q sum_put [OF assms(1) q(1), of "\<lambda>_. mset" "[]" "gm_get [] result q @ [f]" result] assms(1)
      by (simp add: sum.remove [of K q])
    have "length (gm_get [] ?r p) + nat (gm_get 0 ?m p) = length (gm_get [] result p) + nat (gm_get 0 remaining p)" for p
      using q(2) by (cases "p = q") (simp_all add: gm_get_put Suc_nat_eq_nat_zadd1)
    then show ?thesis using IH by (simp add: fo Some w n s)
  qed
qed simp

text \<open>The assignment with capacities never gives a peer more files than its free transfers, whatever order
  the loops visit the peers in, and a file is left out only when no peer has a free transfer: the first
  files, as many as there are free transfers in all, are each assigned to exactly one peer.
\<close>

theorem capacity_respected:
  assumes "gm_ok caps" "\<forall>(f, order) \<in> set files. set order = fst ` set caps"
  shows "(\<forall>p. length (gm_get [] (AssignFilesWithCapacity caps load files) p) \<le> capacity caps load p) \<and>
    (\<Sum>p\<in>fst ` set caps. mset (gm_get [] (AssignFilesWithCapacity caps load files) p)) =
      mset (take (\<Sum>p\<in>fst ` set caps. capacity caps load p) (map fst files))"
proof -
  have e: "gm_get [] (map (\<lambda>(p, c). (p, [])) caps) p = []" for p :: string and caps :: "(string, peer_capabilities) gomap"
    by (induction caps) (auto simp: gm_get_def)
  have "in_int64 (gm_get 0 (remaining_capacity caps load) p)" for p
    by (induction caps) (auto simp: gm_get_def remaining_capacity_def in_int64_def [of 0])
  from assign_capacity_spec [OF _ assms(2), of "remaining_capacity caps load" "map (\<lambda>(p, c). (p, [])) caps"] this
  show ?thesis by (simp add: AssignFilesWithCapacity_def capacity_def e)
qed

theorem capacity_respected_witness:
  "let caps = [(''a'', \<lparr>pc_compression = True, pc_max_transfers = 1, pc_bandwidth = 0\<rparr>)];
       files = [(''f'', [''a'']), (''g'', [''a''])] in
   (\<forall>p. length (gm_get [] (AssignFilesWithCapacity caps [] files) p) \<le> capacity caps [] p) \<and>
    (\<Sum>p\<in>fst ` set caps. mset (gm_get [] (AssignFilesWithCapacity caps [] files) p)) =
      mset (take (\<Sum>p\<in>fst ` set caps. capacity caps [] p) (map fst files))"
  unfolding Let_def by (rule capacity_respected) simp_all

end
