(* ===== verification/Base64.thy ===== *)
theory Base64
  imports Prelude
begin

text \<open>
  The standard encoding of \<^verbatim>\<open>encoding/base64\<close>, which Go's JSON uses for byte slices and the keys of
  \<^verbatim>\<open>internal/crypto\<close> are stored in. \<open>DecodeString\<close> skips carriage returns and line feeds and
  accepts padding only at the end.
\<close>

section \<open>The alphabet\<close>

definition b64_alphabet :: string where
  "b64_alphabet = ''ABCDEFGHIJKLMNOPQRSTUVWXYZabcdefghijklmnopqrstuvwxyz0123456789+/''"

definition b64_char :: "nat \<Rightarrow> char" where
  "b64_char n = b64_alphabet ! n"

fun position :: "char \<Rightarrow> string \<Rightarrow> nat option" where
  "position c [] = None"
| "position c (d # ds) = (if c = d then Some 0 else map_option Suc (position c ds))"

definition b64_value :: "char \<Rightarrow> nat option" where
  "b64_value c = position c b64_alphabet"

section \<open>Encoding and decoding\<close>

definition b64_digits :: "nat \<Rightarrow> string" where
  "b64_digits n = [b64_char (n div 262144), b64_char (n div 4096 mod 64), b64_char (n div 64 mod 64), b64_char (n mod 64)]"

definition three_bytes :: "nat \<Rightarrow> bytes" where
  "three_bytes n = [char_of (n div 65536), char_of (n div 256 mod 256), char_of (n mod 256)]"

fun EncodeToString :: "bytes \<Rightarrow> string" where
  "EncodeToString [] = []"
| "EncodeToString [a] = take 2 (b64_digits (byte_val a * 65536)) @ ''==''"
| "EncodeToString [a, b] = take 3 (b64_digits (byte_val a * 65536 + byte_val b * 256)) @ ''=''"
| "EncodeToString (a # b # c # rest) =
     b64_digits (byte_val a * 65536 + byte_val b * 256 + byte_val c) @ EncodeToString rest"

fun decode_quads :: "string \<Rightarrow> bytes option" where
  "decode_quads [] = Some []"
| "decode_quads (w # x # y # z # rest) =
     (case (b64_value w, b64_value x, b64_value y, b64_value z) of
        (Some p, Some q, Some r, Some s) \<Rightarrow>
          map_option (\<lambda>bs. three_bytes (p * 262144 + q * 4096 + r * 64 + s) @ bs) (decode_quads rest)
      | (Some p, Some q, Some r, None) \<Rightarrow>
          if z = CHR ''='' \<and> rest = [] then Some (take 2 (three_bytes (p * 262144 + q * 4096 + r * 64))) else None
      | (Some p, Some q, None, _) \<Rightarrow>
          if y = CHR ''='' \<and> z = CHR ''='' \<and> rest = [] then Some (take 1 (three_bytes (p * 262144 + q * 4096))) else None
      | _ \<Rightarrow> None)"
| "decode_quads s = None"

definition DecodeString :: "string \<Rightarrow> bytes option" where
  "DecodeString s = decode_quads (filter (\<lambda>c. c \<noteq> char_of (10 :: nat) \<and> c \<noteq> char_of (13 :: nat)) s)"

section \<open>Lemmas\<close>

lemma b64_chars:
  "list_all (\<lambda>n. b64_value (b64_char n) = Some n \<and> b64_char n \<noteq> char_of (10 :: nat) \<and> b64_char n \<noteq> char_of (13 :: nat))
     [0..<64]"
  by code_simp

lemma b64_value_char [simp]: "n < 64 \<Longrightarrow> b64_value (b64_char n) = Some n"
  using b64_chars by (simp add: list_all_iff)

lemma b64_char_no_break: "n < 64 \<Longrightarrow> b64_char n \<noteq> char_of (10 :: nat) \<and> b64_char n \<noteq> char_of (13 :: nat)"
  using b64_chars by (simp add: list_all_iff)

lemma b64_value_pad [simp]: "b64_value (CHR ''='') = None"
  by code_simp

lemma digits_sum:
  fixes n :: nat
  shows "n div 262144 * 262144 + n div 4096 mod 64 * 4096 + n div 64 mod 64 * 64 + n mod 64 = n"
proof -
  have "n div 4096 = n div 64 div 64" "n div 262144 = n div 64 div 64 div 64" by (simp_all add: div_mult2_eq [symmetric])
  then have "n div 262144 * 262144 + n div 4096 mod 64 * 4096 + n div 64 mod 64 * 64 + n mod 64 =
      ((n div 64 div 64 div 64 * 64 + n div 64 div 64 mod 64) * 64 + n div 64 mod 64) * 64 + n mod 64"
    by (simp only: algebra_simps)
  also have "\<dots> = n" by (simp only: div_mult_mod_eq)
  finally show ?thesis .
qed

lemma bytes_parts:
  fixes x y z :: nat
  assumes "x < 256" "y < 256" "z < 256"
  shows "(x * 65536 + y * 256 + z) div 65536 = x" "(x * 65536 + y * 256 + z) div 256 mod 256 = y"
    "(x * 65536 + y * 256 + z) mod 256 = z" "x * 65536 + y * 256 + z < 16777216"
proof -
  have n: "x * 65536 + y * 256 + z = z + 256 * (y + 256 * x)" by simp
  have d: "(z + 256 * (y + 256 * x)) div 256 = y + 256 * x" using assms(3) by simp
  have "(z + 256 * (y + 256 * x)) div 65536 = (z + 256 * (y + 256 * x)) div 256 div 256" by (simp only: div_mult2_eq [symmetric]) simp
  then show "(x * 65536 + y * 256 + z) div 65536 = x" unfolding n d using assms(2) by simp
  show "(x * 65536 + y * 256 + z) div 256 mod 256 = y" unfolding n d using assms(2) by simp
  show "(x * 65536 + y * 256 + z) mod 256 = z" unfolding n mod_mult_self2 using assms(3) by simp
  show "x * 65536 + y * 256 + z < 16777216" using assms by simp
qed

lemmas byte_parts = bytes_parts [OF nat_of_char_less_256 nat_of_char_less_256 nat_of_char_less_256]

lemma three_bytes_sum: "three_bytes (byte_val a * 65536 + byte_val b * 256 + byte_val c) = [a, b, c]"
  unfolding three_bytes_def byte_parts(1-3) by simp

lemma byte_bound: "byte_val a * 65536 + byte_val b * 256 + byte_val c < 16777216"
  by (rule byte_parts(4))

lemma byte_zero: "byte_val (char_of (0 :: nat)) = 0"
  by simp

lemma low_digits:
  fixes x y :: nat
  shows "x * 65536 mod 64 = 0" "x * 65536 div 64 mod 64 = 0" "(x * 65536 + y * 256) mod 64 = 0"
proof -
  have n: "x * 65536 = 64 * (64 * (x * 16))" "x * 65536 + y * 256 = 64 * (x * 1024 + y * 4)" by simp_all
  show "x * 65536 mod 64 = 0" unfolding n(1) by (rule mod_mult_self1_is_0)
  show "(x * 65536 + y * 256) mod 64 = 0" unfolding n(2) by (rule mod_mult_self1_is_0)
  have "64 * (64 * (x * 16)) div 64 = 64 * (x * 16)" by (rule nonzero_mult_div_cancel_left) simp
  then show "x * 65536 div 64 mod 64 = 0" unfolding n(1) by simp
qed

lemma digit_bounds:
  fixes n :: nat
  assumes "n < 16777216"
  shows "n div 262144 < 64" "n div 4096 mod 64 < 64" "n div 64 mod 64 < 64" "n mod 64 < 64"
  using assms by (simp_all add: less_mult_imp_div_less)

lemma decode_digits:
  assumes "n < 16777216"
  shows "decode_quads (b64_digits n @ rest) = map_option (\<lambda>bs. three_bytes n @ bs) (decode_quads rest)"
  using digits_sum [of n] digit_bounds [OF assms] by (simp add: b64_digits_def)

lemma decode_quads_Encode: "decode_quads (EncodeToString d) = Some d"
proof (induction d rule: EncodeToString.induct)
  case (2 a)
  let ?n = "byte_val a * 65536"
  have s: "?n div 262144 * 262144 + ?n div 4096 mod 64 * 4096 = ?n" using digits_sum [of ?n] unfolding low_digits by simp
  have "?n < 16777216" using byte_bound [of a "char_of (0 :: nat)" "char_of (0 :: nat)"] unfolding byte_zero by simp
  then show ?case using s digit_bounds [of ?n] three_bytes_sum [of a "char_of (0 :: nat)" "char_of (0 :: nat)"]
    unfolding byte_zero by (simp add: b64_digits_def)
next
  case (3 a b)
  let ?n = "byte_val a * 65536 + byte_val b * 256"
  have s: "?n div 262144 * 262144 + ?n div 4096 mod 64 * 4096 + ?n div 64 mod 64 * 64 = ?n"
    using digits_sum [of ?n] unfolding low_digits by simp
  have "?n < 16777216" using byte_bound [of a b "char_of (0 :: nat)"] unfolding byte_zero by simp
  then show ?case using s digit_bounds [of ?n] three_bytes_sum [of a b "char_of (0 :: nat)"]
    unfolding byte_zero by (simp add: b64_digits_def)
next
  case (4 a b c rest)
  then show ?case by (simp add: decode_digits [OF byte_bound] three_bytes_sum)
qed simp

lemma digits_no_break:
  "n < 16777216 \<Longrightarrow> list_all (\<lambda>c. c \<noteq> char_of (10 :: nat) \<and> c \<noteq> char_of (13 :: nat)) (b64_digits n)"
  using b64_char_no_break digit_bounds [of n] by (simp add: b64_digits_def)

lemma Encode_no_break: "list_all (\<lambda>c. c \<noteq> char_of (10 :: nat) \<and> c \<noteq> char_of (13 :: nat)) (EncodeToString d)"
proof (induction d rule: EncodeToString.induct)
  case (2 a)
  have p: "CHR ''='' \<noteq> char_of (10 :: nat) \<and> CHR ''='' \<noteq> char_of (13 :: nat)" by code_simp
  show ?case using p digits_no_break [OF byte_bound [of a "char_of (0 :: nat)" "char_of (0 :: nat)"]] unfolding byte_zero by (simp add: list_all_iff b64_digits_def)
next
  case (3 a b)
  have p: "CHR ''='' \<noteq> char_of (10 :: nat) \<and> CHR ''='' \<noteq> char_of (13 :: nat)" by code_simp
  show ?case using p digits_no_break [OF byte_bound [of a b "char_of (0 :: nat)"]] unfolding byte_zero by (simp add: list_all_iff b64_digits_def)
next
  case (4 a b c rest)
  then show ?case using digits_no_break [OF byte_bound] by simp
qed simp

lemma filter_all_id: "list_all P xs \<Longrightarrow> filter P xs = xs"
  by (induction xs) simp_all

lemma DecodeString_Encode [simp]: "DecodeString (EncodeToString d) = Some d"
  unfolding DecodeString_def filter_all_id [OF Encode_no_break] by (rule decode_quads_Encode)

end
