(* ===== verification/Crypto.thy ===== *)
theory Crypto
  imports Base64
begin

unbundle bit_operations_syntax

text \<open>
  The cryptography of \<^verbatim>\<open>internal/crypto\<close>: message encryption (\<^verbatim>\<open>encryption.go\<close>), authentication with a shared key
  (\<^verbatim>\<open>auth.go\<close>), keys (\<^verbatim>\<open>keyexchange.go\<close>), the handshake (\<^verbatim>\<open>handshake.go\<close>) and the key table (\<^verbatim>\<open>keychain.go\<close>). The
  ciphers and hashes are the parameter \<open>P\<close>, a record of functions; the laws that are used of them are
  \<open>aead_laws\<close> and \<open>exchange_laws\<close>. Random bytes and the time are arguments. No theorem is about secrecy.
\<close>

section \<open>Primitives\<close>

record primitives =
  seal :: "bytes \<Rightarrow> bytes \<Rightarrow> bytes \<Rightarrow> bytes \<Rightarrow> bytes"
  open_sealed :: "bytes \<Rightarrow> bytes \<Rightarrow> bytes \<Rightarrow> bytes \<Rightarrow> bytes option"
  x25519 :: "bytes \<Rightarrow> bytes \<Rightarrow> bytes option"
  basepoint :: bytes
  sha256 :: "bytes \<Rightarrow> bytes"
  hmac_sha256 :: "bytes \<Rightarrow> bytes \<Rightarrow> bytes"
  hkdf_sha256 :: "bytes \<Rightarrow> bytes \<Rightarrow> bytes \<Rightarrow> nat \<Rightarrow> bytes"
  hkdf_sha3 :: "bytes \<Rightarrow> bytes \<Rightarrow> bytes \<Rightarrow> nat \<Rightarrow> bytes"

text \<open>AES-256-GCM: what was sealed opens under the same key, nonce and data, and a tag of 16 bytes is added.\<close>

definition aead_laws :: "primitives \<Rightarrow> bool" where
  "aead_laws P \<longleftrightarrow>
     (\<forall>k iv p ad. length k = 32 \<and> length iv = 12 \<longrightarrow>
        length (seal P k iv p ad) = length p + 16 \<and> open_sealed P k iv (seal P k iv p ad) ad = Some p)"

text \<open>X25519 with keys of 32 bytes: both sides of an exchange compute the same secret.\<close>

definition exchange_laws :: "primitives \<Rightarrow> bool" where
  "exchange_laws P \<longleftrightarrow>
     length (basepoint P) = 32 \<and>
     (\<forall>a p q. x25519 P a p = Some q \<longrightarrow> length q = 32) \<and>
     (\<forall>a b p q. length a = 32 \<and> length b = 32 \<and>
        x25519 P a (basepoint P) = Some p \<and> x25519 P b (basepoint P) = Some q \<longrightarrow> x25519 P a q = x25519 P b p)"

datatype crypto_error =
    InvalidKeySize nat
  | InvalidIVSize nat
  | InvalidTagSize nat
  | DecryptFailed
  | NotPSK
  | PSKNotSet
  | DecodeFailed
  | ExchangeFailed
  | AuthenticationFailed
  | NoSession string
  | SessionExpired string

section \<open>Encryption\<close>

definition IVSize :: nat where "IVSize = 12"
definition TagSize :: nat where "TagSize = 16"
definition KeySizeAES :: nat where "KeySizeAES = 32"

record encrypted_message =
  em_iv :: bytes
  em_ciphertext :: bytes
  em_tag :: bytes

definition Encrypt :: "primitives \<Rightarrow> bytes \<Rightarrow> bytes \<Rightarrow> bytes \<Rightarrow> crypto_error + encrypted_message" where
  "Encrypt P iv plaintext key =
     (if length key \<noteq> KeySizeAES then Inl (InvalidKeySize (length key))
      else (let ciphertext = seal P key iv plaintext []; n = length ciphertext - TagSize
            in Inr \<lparr>em_iv = iv, em_ciphertext = take n ciphertext, em_tag = drop n ciphertext\<rparr>))"

definition Decrypt :: "primitives \<Rightarrow> encrypted_message \<Rightarrow> bytes \<Rightarrow> crypto_error + bytes" where
  "Decrypt P msg key =
     (if length key \<noteq> KeySizeAES then Inl (InvalidKeySize (length key))
      else if length (em_iv msg) \<noteq> IVSize then Inl (InvalidIVSize (length (em_iv msg)))
      else if length (em_tag msg) \<noteq> TagSize then Inl (InvalidTagSize (length (em_tag msg)))
      else (case open_sealed P key (em_iv msg) (em_ciphertext msg @ em_tag msg) [] of
              None \<Rightarrow> Inl DecryptFailed
            | Some plaintext \<Rightarrow> Inr plaintext))"

definition EncryptAESGCM :: "primitives \<Rightarrow> bytes \<Rightarrow> bytes \<Rightarrow> bytes \<Rightarrow> bytes \<Rightarrow> crypto_error + (bytes \<times> bytes)" where
  "EncryptAESGCM P nonce key plaintext associatedData =
     (if length key \<noteq> KeySizeAES then Inl (InvalidKeySize (length key))
      else Inr (seal P key nonce plaintext associatedData, nonce))"

definition DecryptAESGCM :: "primitives \<Rightarrow> bytes \<Rightarrow> bytes \<Rightarrow> bytes \<Rightarrow> bytes \<Rightarrow> crypto_error + bytes" where
  "DecryptAESGCM P key ciphertext nonce associatedData =
     (if length key \<noteq> KeySizeAES then Inl (InvalidKeySize (length key))
      else if length nonce \<noteq> IVSize then Inl (InvalidIVSize (length nonce))
      else (case open_sealed P key nonce ciphertext associatedData of
              None \<Rightarrow> Inl DecryptFailed
            | Some plaintext \<Rightarrow> Inr plaintext))"

definition DeriveSessionKey :: "primitives \<Rightarrow> bytes \<Rightarrow> bytes \<Rightarrow> bytes \<Rightarrow> bytes" where
  "DeriveSessionKey P sharedSecret salt info = hkdf_sha3 P sharedSecret salt info KeySizeAES"

definition DeriveSessionKeyFromNonces :: "primitives \<Rightarrow> bytes \<Rightarrow> bytes \<Rightarrow> bytes \<Rightarrow> bytes" where
  "DeriveSessionKeyFromNonces P sharedSecret nonceA nonceB =
     DeriveSessionKey P sharedSecret (nonceA @ nonceB) (''p2p-sync-session'' @ nonceA @ nonceB)"

section \<open>Authentication\<close>

datatype auth_method = AuthMethodPSK | AuthMethodCert | AuthMethodTOFU

record authenticator =
  au_method :: auth_method
  au_psk :: bytes

definition NewAuthenticator :: "auth_method \<Rightarrow> bytes \<Rightarrow> authenticator" where
  "NewAuthenticator method psk = \<lparr>au_method = method, au_psk = psk\<rparr>"

definition GenerateResponse :: "primitives \<Rightarrow> authenticator \<Rightarrow> bytes \<Rightarrow> crypto_error + bytes" where
  "GenerateResponse P a challenge =
     (if au_method a \<noteq> AuthMethodPSK then Inl NotPSK
      else if length (au_psk a) = 0 then Inl PSKNotSet
      else Inr (hmac_sha256 P (au_psk a) challenge))"

definition VerifyResponse :: "primitives \<Rightarrow> authenticator \<Rightarrow> bytes \<Rightarrow> bytes \<Rightarrow> bool" where
  "VerifyResponse P a challenge response =
     (if au_method a \<noteq> AuthMethodPSK then False
      else if length (au_psk a) = 0 then False
      else (case GenerateResponse P a challenge of
              Inl _ \<Rightarrow> False
            | Inr expectedResponse \<Rightarrow> response = expectedResponse))"

definition EncodePSK :: "bytes \<Rightarrow> string" where
  "EncodePSK psk = EncodeToString psk"

definition DecodePSK :: "string \<Rightarrow> crypto_error + bytes" where
  "DecodePSK encoded = (case DecodeString encoded of None \<Rightarrow> Inl DecodeFailed | Some d \<Rightarrow> Inr d)"

section \<open>Keys\<close>

definition KeySize :: nat where "KeySize = 32"

record key_pair =
  kp_private :: bytes
  kp_public :: bytes

definition and_byte :: "byte \<Rightarrow> nat \<Rightarrow> byte" where
  "and_byte b n = char_of (byte_val b AND n)"

definition or_byte :: "byte \<Rightarrow> nat \<Rightarrow> byte" where
  "or_byte b n = char_of (byte_val b OR n)"

definition clamp :: "bytes \<Rightarrow> bytes" where
  "clamp k =
     (let k1 = k[0 := and_byte (k ! 0) 248]; k2 = k1[31 := and_byte (k1 ! 31) 127]
      in k2[31 := or_byte (k2 ! 31) 64])"

definition GenerateKeyPair :: "primitives \<Rightarrow> bytes \<Rightarrow> crypto_error + key_pair" where
  "GenerateKeyPair P random =
     (let privateKey = clamp random
      in case x25519 P privateKey (basepoint P) of
           None \<Rightarrow> Inl ExchangeFailed
         | Some publicKey \<Rightarrow> Inr \<lparr>kp_private = privateKey, kp_public = publicKey\<rparr>)"

definition ComputeSharedSecret :: "primitives \<Rightarrow> bytes \<Rightarrow> bytes \<Rightarrow> crypto_error + bytes" where
  "ComputeSharedSecret P privateKey peerPublicKey =
     (if length privateKey \<noteq> KeySize then Inl (InvalidKeySize (length privateKey))
      else if length peerPublicKey \<noteq> KeySize then Inl (InvalidKeySize (length peerPublicKey))
      else (case x25519 P privateKey peerPublicKey of None \<Rightarrow> Inl ExchangeFailed | Some s \<Rightarrow> Inr s))"

definition EncodePublicKey :: "bytes \<Rightarrow> string" where
  "EncodePublicKey publicKey = EncodeToString publicKey"

definition DecodePublicKey :: "string \<Rightarrow> crypto_error + bytes" where
  "DecodePublicKey encoded =
     (case DecodeString encoded of
        None \<Rightarrow> Inl DecodeFailed
      | Some decoded \<Rightarrow> if length decoded \<noteq> KeySize then Inl (InvalidKeySize (length decoded)) else Inr decoded)"

definition EncodePrivateKey :: "bytes \<Rightarrow> string" where
  "EncodePrivateKey privateKey = EncodeToString privateKey"

definition DecodePrivateKey :: "string \<Rightarrow> crypto_error + bytes" where
  "DecodePrivateKey encoded =
     (case DecodeString encoded of
        None \<Rightarrow> Inl DecodeFailed
      | Some decoded \<Rightarrow> if length decoded \<noteq> KeySize then Inl (InvalidKeySize (length decoded)) else Inr decoded)"

section \<open>The handshake\<close>

definition SessionKeyRotationInterval :: int64 where
  "SessionKeyRotationInterval = 24 * 3600 * 10 ^ 9"

record session_key =
  sk_key :: bytes
  sk_created_at :: time
  sk_expires_at :: time
  sk_peer :: string

record handshake_manager =
  hk_key_pair :: key_pair
  hk_psk :: "bytes option"
  hk_sessions :: "(string, session_key) gomap"
  hk_stopped :: bool

record handshake_state =
  hs_our_nonce :: bytes
  hs_our_challenge :: bytes
  hs_peer_nonce :: bytes
  hs_peer_public_key :: bytes
  hs_shared_secret :: bytes

definition NewHandshakeManager :: "primitives \<Rightarrow> bytes \<Rightarrow> bytes option \<Rightarrow> crypto_error + handshake_manager" where
  "NewHandshakeManager P random preSharedKey =
     map_sum id (\<lambda>kp. \<lparr>hk_key_pair = kp, hk_psk = preSharedKey, hk_sessions = [], hk_stopped = False\<rparr>)
       (GenerateKeyPair P random)"

definition InitiateHandshake :: "bytes \<Rightarrow> bytes \<Rightarrow> handshake_manager \<Rightarrow> string \<times> bytes \<times> bytes" where
  "InitiateHandshake nonce challenge hm = (EncodePublicKey (kp_public (hk_key_pair hm)), nonce, challenge)"

definition generateAuthResponse :: "primitives \<Rightarrow> handshake_manager \<Rightarrow> bytes \<Rightarrow> bytes \<Rightarrow> bytes" where
  "generateAuthResponse P hm sharedSecret challenge =
     (let key = (case hk_psk hm of None \<Rightarrow> sharedSecret | Some psk \<Rightarrow> sha256 P (sharedSecret @ psk))
      in hmac_sha256 P key challenge)"

definition deriveSessionKey :: "primitives \<Rightarrow> bytes \<Rightarrow> bytes \<Rightarrow> bytes \<Rightarrow> bytes" where
  "deriveSessionKey P sharedSecret nonceA nonceB = hkdf_sha256 P sharedSecret (nonceA @ nonceB) ''p2p-sync-session'' 32"

definition ProcessHandshake ::
  "primitives \<Rightarrow> string \<Rightarrow> bytes \<Rightarrow> bytes \<Rightarrow> bytes \<Rightarrow> bytes \<Rightarrow> handshake_manager \<Rightarrow>
   crypto_error + (bytes \<times> string \<times> bytes \<times> bytes \<times> handshake_state)" where
  "ProcessHandshake P peerPublicKey peerNonce peerChallenge ourNonce ourChallenge hm =
     (case DecodePublicKey peerPublicKey of
        Inl e \<Rightarrow> Inl e
      | Inr peerPubKey \<Rightarrow>
          (case ComputeSharedSecret P (kp_private (hk_key_pair hm)) peerPubKey of
             Inl e \<Rightarrow> Inl e
           | Inr sharedSecret \<Rightarrow>
               Inr (generateAuthResponse P hm sharedSecret peerChallenge,
                    EncodePublicKey (kp_public (hk_key_pair hm)), ourNonce, ourChallenge,
                    \<lparr>hs_our_nonce = ourNonce, hs_our_challenge = ourChallenge, hs_peer_nonce = peerNonce,
                     hs_peer_public_key = peerPubKey, hs_shared_secret = sharedSecret\<rparr>)))"

definition store_session :: "time \<Rightarrow> string \<Rightarrow> bytes \<Rightarrow> handshake_manager \<Rightarrow> handshake_manager \<times> session_key" where
  "store_session now peerID key hm =
     (let session = \<lparr>sk_key = key, sk_created_at = now, sk_expires_at = now + SessionKeyRotationInterval, sk_peer = peerID\<rparr>
      in (hm\<lparr>hk_sessions := gm_put peerID session (hk_sessions hm)\<rparr>, session))"

definition CompleteHandshake ::
  "primitives \<Rightarrow> time \<Rightarrow> handshake_state \<Rightarrow> bytes \<Rightarrow> string \<Rightarrow> handshake_manager \<Rightarrow>
   handshake_manager \<times> (crypto_error + session_key)" where
  "CompleteHandshake P now st peerAuthResponse peerID hm =
     (if generateAuthResponse P hm (hs_shared_secret st) (hs_our_challenge st) \<noteq> peerAuthResponse
      then (hm, Inl AuthenticationFailed)
      else (case store_session now peerID (deriveSessionKey P (hs_shared_secret st) (hs_peer_nonce st) (hs_our_nonce st)) hm of
              (hm1, session) \<Rightarrow> (hm1, Inr session)))"

text \<open>The response to the peer's challenge is computed here, but it is not part of the result.\<close>

definition VerifyAndComplete ::
  "primitives \<Rightarrow> time \<Rightarrow> bytes \<Rightarrow> bytes \<Rightarrow> string \<Rightarrow> bytes \<Rightarrow> bytes \<Rightarrow> bytes \<Rightarrow> string \<Rightarrow> handshake_manager \<Rightarrow>
   handshake_manager \<times> (crypto_error + session_key)" where
  "VerifyAndComplete P now ourNonce ourChallenge peerPublicKey peerNonce peerChallenge peerAuthResponse peerID hm =
     (case DecodePublicKey peerPublicKey of
        Inl e \<Rightarrow> (hm, Inl e)
      | Inr peerPubKey \<Rightarrow>
          (case ComputeSharedSecret P (kp_private (hk_key_pair hm)) peerPubKey of
             Inl e \<Rightarrow> (hm, Inl e)
           | Inr sharedSecret \<Rightarrow>
               if generateAuthResponse P hm sharedSecret ourChallenge \<noteq> peerAuthResponse
               then (hm, Inl AuthenticationFailed)
               else (case store_session now peerID (deriveSessionKey P sharedSecret ourNonce peerNonce) hm of
                       (hm1, session) \<Rightarrow> (hm1, Inr session))))"

definition GetHandshakeSession :: "time \<Rightarrow> string \<Rightarrow> handshake_manager \<Rightarrow> crypto_error + session_key" where
  "GetHandshakeSession now peerID hm =
     (case map_of (hk_sessions hm) peerID of
        None \<Rightarrow> Inl (NoSession peerID)
      | Some session \<Rightarrow> if now > sk_expires_at session then Inl (SessionExpired peerID) else Inr session)"

definition RemoveSession :: "string \<Rightarrow> handshake_manager \<Rightarrow> handshake_manager" where
  "RemoveSession peerID hm = hm\<lparr>hk_sessions := gm_del peerID (hk_sessions hm)\<rparr>"

definition cleanupExpiredSessions :: "time \<Rightarrow> handshake_manager \<Rightarrow> handshake_manager" where
  "cleanupExpiredSessions now hm = hm\<lparr>hk_sessions := gm_drop (\<lambda>session. now > sk_expires_at session) (hk_sessions hm)\<rparr>"

definition rotation_tick :: "time \<Rightarrow> handshake_manager \<Rightarrow> handshake_manager" where
  "rotation_tick now hm = (if hk_stopped hm then hm else cleanupExpiredSessions now hm)"

definition IsSessionValid :: "time \<Rightarrow> string \<Rightarrow> handshake_manager \<Rightarrow> bool" where
  "IsSessionValid now peerID hm = (case GetHandshakeSession now peerID hm of Inl _ \<Rightarrow> False | Inr _ \<Rightarrow> True)"

section \<open>The key table\<close>

text \<open>A row of the table; the expiry is a number of seconds. Times of creation and change are not read back.\<close>

record key_row =
  kr_public_key :: string
  kr_session_key :: "string option"
  kr_expires_at :: "int64 option"

type_synonym keychain = "(string, key_row) gomap"

datatype keychain_error = PeerKeyNotFound string | KeyDecodeFailed | SessionKeyNotFound string | ScanNull | SessionKeyNotSet string

definition StorePeerKey :: "string \<Rightarrow> bytes \<Rightarrow> keychain \<Rightarrow> keychain" where
  "StorePeerKey peerID publicKey k =
     (let encodedKey = EncodeToString publicKey
      in case map_of k peerID of
           None \<Rightarrow> gm_put peerID \<lparr>kr_public_key = encodedKey, kr_session_key = None, kr_expires_at = None\<rparr> k
         | Some r \<Rightarrow> gm_put peerID (r\<lparr>kr_public_key := encodedKey\<rparr>) k)"

definition GetPeerKey :: "string \<Rightarrow> keychain \<Rightarrow> keychain_error + bytes" where
  "GetPeerKey peerID k =
     (case map_of k peerID of
        None \<Rightarrow> Inl (PeerKeyNotFound peerID)
      | Some r \<Rightarrow> (case DecodeString (kr_public_key r) of None \<Rightarrow> Inl KeyDecodeFailed | Some d \<Rightarrow> Inr d))"

text \<open>An \<open>UPDATE\<close> that matches no row is not an error.\<close>

definition StoreSessionKey :: "string \<Rightarrow> bytes \<Rightarrow> time \<Rightarrow> keychain \<Rightarrow> keychain" where
  "StoreSessionKey peerID sessionKey expiresAt k =
     (case map_of k peerID of
        None \<Rightarrow> k
      | Some r \<Rightarrow> gm_put peerID (r\<lparr>kr_session_key := Some (EncodeToString sessionKey),
                                     kr_expires_at := Some (expiresAt div 10 ^ 9)\<rparr>) k)"

text \<open>Scanning \<open>NULL\<close> into a string is an error of its own.\<close>

definition GetStoredSessionKey :: "string \<Rightarrow> keychain \<Rightarrow> keychain_error + (bytes \<times> time option)" where
  "GetStoredSessionKey peerID k =
     (case map_of k peerID of
        None \<Rightarrow> Inl (SessionKeyNotFound peerID)
      | Some r \<Rightarrow>
          (case kr_session_key r of
             None \<Rightarrow> Inl ScanNull
           | Some encodedKey \<Rightarrow>
               if encodedKey = [] then Inl (SessionKeyNotSet peerID)
               else (case DecodeString encodedKey of
                       None \<Rightarrow> Inl KeyDecodeFailed
                     | Some d \<Rightarrow> Inr (d, map_option (\<lambda>t. t * 10 ^ 9) (kr_expires_at r)))))"

definition IsSessionKeyExpired :: "time \<Rightarrow> string \<Rightarrow> keychain \<Rightarrow> bool" where
  "IsSessionKeyExpired now peerID k =
     (case map_of k peerID of
        None \<Rightarrow> True
      | Some r \<Rightarrow> (case kr_expires_at r of None \<Rightarrow> True | Some t \<Rightarrow> now > t * 10 ^ 9))"

definition RotateSessionKey :: "string \<Rightarrow> keychain \<Rightarrow> keychain" where
  "RotateSessionKey peerID k =
     (case map_of k peerID of
        None \<Rightarrow> k
      | Some r \<Rightarrow> gm_put peerID (r\<lparr>kr_session_key := None, kr_expires_at := None\<rparr>) k)"

section \<open>Properties\<close>

lemma Decrypt_Encrypt:
  assumes "aead_laws P" "length key = 32" "length iv = 12"
  shows "\<exists>m. Encrypt P iv plaintext key = Inr m \<and> Decrypt P m key = Inr plaintext"
proof -
  have "length (seal P key iv plaintext []) = length plaintext + 16"
    "open_sealed P key iv (seal P key iv plaintext []) [] = Some plaintext"
    using assms by (auto simp: aead_laws_def)
  then show ?thesis using assms(2,3)
    by (simp add: Encrypt_def Decrypt_def KeySizeAES_def IVSize_def TagSize_def Let_def)
qed

lemma DecodePublicKey_Encode: "length k = 32 \<Longrightarrow> DecodePublicKey (EncodePublicKey k) = Inr k"
  by (simp add: DecodePublicKey_def EncodePublicKey_def KeySize_def)

lemma length_clamp [simp]: "length (clamp k) = length k"
  by (simp add: clamp_def Let_def)

lemma exchange_key_length: "exchange_laws P \<Longrightarrow> x25519 P a p = Some q \<Longrightarrow> length q = 32"
  unfolding exchange_laws_def by blast

lemma exchange_same_secret:
  "exchange_laws P \<Longrightarrow> length a = 32 \<Longrightarrow> length b = 32 \<Longrightarrow> x25519 P a (basepoint P) = Some p \<Longrightarrow>
   x25519 P b (basepoint P) = Some q \<Longrightarrow> x25519 P a q = x25519 P b p"
  unfolding exchange_laws_def by blast

lemma NewHandshakeManager_Inr:
  "NewHandshakeManager P r psk = Inr hm \<Longrightarrow> \<exists>p. x25519 P (clamp r) (basepoint P) = Some p \<and>
     hk_key_pair hm = \<lparr>kp_private = clamp r, kp_public = p\<rparr> \<and> hk_psk hm = psk"
  by (cases "x25519 P (clamp r) (basepoint P)") (auto simp: NewHandshakeManager_def GenerateKeyPair_def Let_def)

lemma generateAuthResponse_psk: "hk_psk a = hk_psk b \<Longrightarrow> generateAuthResponse P a = generateAuthResponse P b"
  by (rule ext)+ (simp add: generateAuthResponse_def)

text \<open>C28. Two peers with the same pre-shared key complete a handshake with the same session key, whatever
  nonces and challenges they draw: the responder answers the initiator's challenge, the initiator
  accepts the answer, and the responder accepts the answer to its own challenge that the initiator
  computes. Each side stores the key under the other's id.
\<close>

theorem handshake_agrees:
  assumes "exchange_laws P" "length ra = 32" "length rb = 32"
    and "NewHandshakeManager P ra psk = Inr a" "NewHandshakeManager P rb psk = Inr b"
    and "x25519 P (kp_private (hk_key_pair a)) (kp_public (hk_key_pair b)) = Some s"
  shows "\<exists>respB st a' b' ka kb.
    ProcessHandshake P (fst (InitiateHandshake nA cA a)) nA cA nB cB b =
      Inr (respB, EncodePublicKey (kp_public (hk_key_pair b)), nB, cB, st) \<and>
    VerifyAndComplete P ta nA cA (EncodePublicKey (kp_public (hk_key_pair b))) nB cB respB idB a = (a', Inr ka) \<and>
    CompleteHandshake P tb st (generateAuthResponse P a s cB) idA b = (b', Inr kb) \<and>
    sk_key ka = sk_key kb \<and> map_of (hk_sessions a') idB = Some ka \<and> map_of (hk_sessions b') idA = Some kb"
proof -
  from assms(4,5) obtain pa pb where k: "x25519 P (clamp ra) (basepoint P) = Some pa" "hk_key_pair a = \<lparr>kp_private = clamp ra, kp_public = pa\<rparr>"
    "x25519 P (clamp rb) (basepoint P) = Some pb" "hk_key_pair b = \<lparr>kp_private = clamp rb, kp_public = pb\<rparr>"
    and psk: "hk_psk a = psk" "hk_psk b = psk"
    by (auto dest!: NewHandshakeManager_Inr)
  have l: "length pa = 32" "length pb = 32"
    using exchange_key_length [OF assms(1) k(1)] exchange_key_length [OF assms(1) k(3)] by simp_all
  have "x25519 P (clamp ra) pb = x25519 P (clamp rb) pa"
    by (rule exchange_same_secret [OF assms(1) _ _ k(1,3)]) (simp_all add: assms(2,3))
  then have s: "ComputeSharedSecret P (clamp ra) pb = Inr s" "ComputeSharedSecret P (clamp rb) pa = Inr s"
    using assms(2,3,6) l k by (simp_all add: ComputeSharedSecret_def KeySize_def)
  have g: "generateAuthResponse P a = generateAuthResponse P b" by (rule generateAuthResponse_psk) (simp add: psk)
  show ?thesis
    by (simp add: ProcessHandshake_def InitiateHandshake_def VerifyAndComplete_def CompleteHandshake_def
        store_session_def Let_def k DecodePublicKey_Encode l s g)
qed

text \<open>A toy instance: addition of bytes as the exchange.\<close>

definition add_bytes :: "bytes \<Rightarrow> bytes \<Rightarrow> bytes" where
  "add_bytes a b = map2 (\<lambda>u v. char_of (byte_val u + byte_val v)) a b"

definition toy :: primitives where
  "toy = \<lparr>seal = (\<lambda>k iv p ad. p @ replicate 16 (char_of (0 :: nat))),
          open_sealed = (\<lambda>k iv c ad. Some (take (length c - 16) c)),
          x25519 = (\<lambda>a p. if length a = 32 \<and> length p = 32 then Some (add_bytes a p) else None),
          basepoint = replicate 32 (char_of (9 :: nat)), sha256 = (\<lambda>d. d),
          hmac_sha256 = (\<lambda>k m. k @ m), hkdf_sha256 = (\<lambda>s salt info n. s @ salt),
          hkdf_sha3 = (\<lambda>s salt info n. s @ salt)\<rparr>"

lemma add_byte_swap:
  "(char_of (byte_val x + byte_val (char_of (byte_val y + byte_val z) :: char)) :: char) =
   char_of (byte_val y + byte_val (char_of (byte_val x + byte_val z) :: char))"
proof -
  have "(byte_val x + (byte_val y + byte_val z) mod 256) mod 256 = (byte_val y + (byte_val x + byte_val z) mod 256) mod 256"
    by (simp only: mod_add_right_eq add.left_commute)
  then show ?thesis by (simp only: of_char_of char_of_quasi_inj)
qed

lemma add_bytes_swap:
  assumes "length a = length b" "length g = length b"
  shows "add_bytes a (add_bytes b g) = add_bytes b (add_bytes a g)"
  using assms by (intro nth_equalityI) (simp_all add: add_bytes_def add_byte_swap del: of_char_of)

lemma toy_laws: "aead_laws toy" "exchange_laws toy"
proof -
  show "aead_laws toy" by (simp add: aead_laws_def toy_def)
  have "length (add_bytes a b) = min (length a) (length b)" for a b by (simp add: add_bytes_def)
  then show "exchange_laws toy" by (auto simp: exchange_laws_def toy_def add_bytes_swap split: if_splits)
qed

lemma toy_manager:
  assumes "length r = 32"
  shows "NewHandshakeManager toy r None = Inr \<lparr>hk_key_pair = \<lparr>kp_private = clamp r, kp_public = add_bytes (clamp r) (basepoint toy)\<rparr>,
     hk_psk = None, hk_sessions = [], hk_stopped = False\<rparr>"
  using assms by (simp add: NewHandshakeManager_def GenerateKeyPair_def toy_def Let_def)

theorem handshake_agrees_witness:
  "\<exists>a b s respB st a' b' ka kb.
    NewHandshakeManager toy (replicate 32 (CHR ''a'')) None = Inr a \<and> NewHandshakeManager toy (replicate 32 (CHR ''b'')) None = Inr b \<and>
    ProcessHandshake toy (fst (InitiateHandshake ''n'' ''c'' a)) ''n'' ''c'' ''m'' ''d'' b =
      Inr (respB, EncodePublicKey (kp_public (hk_key_pair b)), ''m'', ''d'', st) \<and>
    VerifyAndComplete toy 1 ''n'' ''c'' (EncodePublicKey (kp_public (hk_key_pair b))) ''m'' ''d'' respB ''B'' a = (a', Inr ka) \<and>
    CompleteHandshake toy 2 st (generateAuthResponse toy a s ''d'') ''A'' b = (b', Inr kb) \<and>
    sk_key ka = sk_key kb"
proof -
  let ?ra = "replicate 32 (CHR ''a'')" and ?rb = "replicate 32 (CHR ''b'')"
  obtain a b where ab: "NewHandshakeManager toy ?ra None = Inr a" "NewHandshakeManager toy ?rb None = Inr b"
    using toy_manager [of ?ra] toy_manager [of ?rb] by simp
  obtain s where s: "x25519 toy (kp_private (hk_key_pair a)) (kp_public (hk_key_pair b)) = Some s"
    using ab toy_manager [of ?ra] toy_manager [of ?rb] by (auto simp: toy_def add_bytes_def)
  have l: "length ?ra = 32" "length ?rb = 32" by simp_all
  from handshake_agrees [OF toy_laws(2) l ab s, of "''n''" "''c''" "''m''" "''d''" 1 "''B''" 2 "''A''"] ab
  show ?thesis by metis
qed

text \<open>What was encrypted under a key of 32 bytes decrypts to the same bytes: the split of the tag from the
  ciphertext and its recombination agree, and all the length checks pass.
\<close>

theorem encryption_roundtrip:
  assumes "aead_laws P" "length key = 32" "length iv = 12"
  shows "\<exists>m. Encrypt P iv plaintext key = Inr m \<and> Decrypt P m key = Inr plaintext \<and> length (em_tag m) = 16"
proof -
  obtain m where m: "Encrypt P iv plaintext key = Inr m" "Decrypt P m key = Inr plaintext"
    using Decrypt_Encrypt [OF assms] by blast
  moreover have "length (em_tag m) = 16"
    using m(2) by (simp add: Decrypt_def TagSize_def split: if_splits)
  ultimately show ?thesis by blast
qed

theorem encryption_roundtrip_witness:
  "\<exists>m. Encrypt toy (replicate 12 (CHR ''i'')) ''hello'' (replicate 32 (CHR ''k'')) = Inr m \<and>
     Decrypt toy m (replicate 32 (CHR ''k'')) = Inr ''hello'' \<and> length (em_tag m) = 16"
  by (rule encryption_roundtrip [OF toy_laws(1)]) simp_all

end
