(* ===== verification/Messages.thy ===== *)
theory Messages
  imports Engine Crypto "HOL-Library.Monad_Syntax"
begin

text \<open>
  The messages of \<^verbatim>\<open>internal/network/messages/types.go\<close> and \<^verbatim>\<open>message.go\<close>, with Go's translation between
  structs and JSON values: the keys of the struct tags, \<open>omitempty\<close>, \<open>null\<close> for a nil map, byte slices in
  base64, integers within their range, unknown keys ignored, a value of the wrong type is an error. Keys are
  matched exactly (Go also accepts another case, which no encoder of the program produces); a nil slice
  is not told from an empty one. The
  text of a JSON value is the business of \<^verbatim>\<open>encoding/json\<close>; it is the parameter \<open>J\<close>.
\<close>

section \<open>JSON values\<close>

datatype json = JNull | JBool bool | JNum int | JStr string | JArr "json list" | JObj "(string \<times> json) list"

text \<open>An object from its fields; a field without a value is left out.\<close>

fun present :: "(string \<times> json option) list \<Rightarrow> (string \<times> json) list" where
  "present [] = []"
| "present ((k, None) # fs) = present fs"
| "present ((k, Some j) # fs) = (k, j) # present fs"

definition obj :: "(string \<times> json option) list \<Rightarrow> json" where
  "obj fs = JObj (present fs)"

text \<open>The last occurrence of a key counts; \<open>null\<close> leaves the zero value.\<close>

fun field :: "json \<Rightarrow> string \<Rightarrow> json option" where
  "field (JObj kvs) k = (case map_of (rev kvs) k of Some JNull \<Rightarrow> None | v \<Rightarrow> v)"
| "field _ _ = None"

text \<open>A struct is decoded from an object; \<open>null\<close> leaves it as it is.\<close>

definition is_object :: "json \<Rightarrow> bool" where
  "is_object j = (case j of JObj _ \<Rightarrow> True | JNull \<Rightarrow> True | _ \<Rightarrow> False)"

text \<open>An element that is \<open>null\<close> has the zero value.\<close>

definition or_zero :: "'a \<Rightarrow> (json \<Rightarrow> 'a option) \<Rightarrow> json \<Rightarrow> 'a option" where
  "or_zero zero f j = (if j = JNull then Some zero else f j)"

fun as_string :: "json \<Rightarrow> string option" where
  "as_string (JStr s) = Some s"
| "as_string _ = None"

fun as_bool :: "json \<Rightarrow> bool option" where
  "as_bool (JBool b) = Some b"
| "as_bool _ = None"

fun as_int64 :: "json \<Rightarrow> int64 option" where
  "as_int64 (JNum n) = (if in_int64 n then Some n else None)"
| "as_int64 _ = None"

fun as_uint32 :: "json \<Rightarrow> int option" where
  "as_uint32 (JNum n) = (if 0 \<le> n \<and> n < 2 ^ 32 then Some n else None)"
| "as_uint32 _ = None"

fun as_bytes :: "json \<Rightarrow> bytes option" where
  "as_bytes (JStr s) = DecodeString s"
| "as_bytes (JArr js) = 
     those (map (or_zero (char_of (0 :: nat))
       (\<lambda>j. case j of JNum n \<Rightarrow> if 0 \<le> n \<and> n < 256 then Some (char_of (nat n)) else None | _ \<Rightarrow> None)) js)"
| "as_bytes _ = None"

fun as_list :: "(json \<Rightarrow> 'a option) \<Rightarrow> json \<Rightarrow> 'a list option" where
  "as_list f (JArr js) = those (map f js)"
| "as_list f _ = None"

fun as_clock :: "json \<Rightarrow> vclock option" where
  "as_clock (JObj kvs) =
     map_option (\<lambda>xs. fold (\<lambda>(k, n) c. gm_put k n c) xs [])
       (those (map (\<lambda>(k, j). map_option (Pair k) (or_zero 0 as_int64 j)) kvs))"
| "as_clock _ = None"

text \<open>A field that is absent or \<open>null\<close>: the zero value, or a nil pointer.\<close>

definition get :: "(json \<Rightarrow> 'a option) \<Rightarrow> 'a \<Rightarrow> json \<Rightarrow> string \<Rightarrow> 'a option" where
  "get f zero j k = (case field j k of None \<Rightarrow> Some zero | Some v \<Rightarrow> f v)"

definition get_pointer :: "(json \<Rightarrow> 'a option) \<Rightarrow> json \<Rightarrow> string \<Rightarrow> 'a option option" where
  "get_pointer f j k = (case field j k of None \<Rightarrow> Some None | Some v \<Rightarrow> map_option Some (f v))"

definition nonempty :: "bytes \<Rightarrow> json option" where
  "nonempty d = (if d = [] then None else Some (JStr (EncodeToString d)))"

definition enc_clock :: "vclock option \<Rightarrow> json" where
  "enc_clock vc = (case vc of None \<Rightarrow> JNull | Some c \<Rightarrow> JObj (map (\<lambda>(k, n). (k, JNum n)) c))"

section \<open>The messages\<close>

record discovery_message =
  dm_peer_id :: string
  dm_port :: int64
  dm_sync_port :: int64
  dm_capabilities :: json
  dm_version :: string

record discovery_response =
  dr_peer_id :: string
  dr_port :: int64
  dr_sync_port :: int64
  dr_version :: string

record handshake_message =
  hm_public_key :: string
  hm_nonce :: bytes
  hm_auth_challenge :: bytes

record handshake_challenge =
  hc_auth_response :: bytes
  hc_public_key :: string
  hc_nonce :: bytes
  hc_auth_challenge :: bytes

record state_message =
  sm_peer_id :: string
  sm_vector_clock :: "vclock option"
  sm_manifest :: "manifest_entry list"
  sm_pending :: "log_payload list"

record file_request =
  fq_files :: "(string \<times> string) list"
  fq_compression :: bool
  fq_max_transfers :: int64

record chunk_message =
  cm_file_id :: string
  cm_file_hash :: string
  cm_chunk_id :: int64
  cm_total_chunks :: int64
  cm_offset :: int64
  cm_length :: int64
  cm_chunk_hash :: string
  cm_data :: bytes
  cm_is_last :: bool

record chunk_request =
  cq_file_id :: string
  cq_chunk_ids :: "int64 list"

record operation_ack =
  oa_operation_id :: string
  oa_success :: bool
  oa_error :: string

record chunk_ack =
  ca_file_id :: string
  ca_chunk_id :: int64
  ca_success :: bool
  ca_error :: string

text \<open>
  The dynamic types of a payload: a pointer to one of the structs, a state declaration that is not behind
  a pointer, an encrypted payload, the generic value
  that decoding a message leaves (for an object, a \<^verbatim>\<open>map[string]interface{}\<close>), a byte slice.
\<close>

datatype payload =
    DiscoveryMessage discovery_message
  | DiscoveryResponse discovery_response
  | HandshakeMessage handshake_message
  | HandshakeChallenge handshake_challenge
  | HandshakeComplete bytes
  | StateDeclaration state_message
  | StateValue state_message
  | FileRequest file_request
  | LogEntry log_payload
  | ChunkMessage chunk_message
  | ChunkRequest chunk_request
  | OperationAck operation_ack
  | ChunkAck chunk_ack
  | Heartbeat int64
  | Encrypted encrypted_message
  | Generic json
  | RawBytes bytes

section \<open>Encoding\<close>

abbreviation jnum :: "int64 \<Rightarrow> json option" where "jnum n \<equiv> Some (JNum n)"
abbreviation jstr :: "string \<Rightarrow> json option" where "jstr s \<equiv> Some (JStr s)"
abbreviation jbool :: "bool \<Rightarrow> json option" where "jbool b \<equiv> Some (JBool b)"
abbreviation jbytes :: "bytes \<Rightarrow> json option" where "jbytes d \<equiv> Some (JStr (EncodeToString d))"

definition omit_empty :: "string \<Rightarrow> json option" where
  "omit_empty s = (if s = [] then None else Some (JStr s))"

definition enc_log_payload :: "log_payload \<Rightarrow> json" where
  "enc_log_payload p = obj
     [(''operation_id'', jstr (pl_operation_id p)), (''timestamp'', jnum (pl_timestamp p)), (''type'', jstr (pl_type p)),
      (''peer_id'', jstr (pl_peer_id p)), (''vector_clock'', Some (enc_clock (pl_vector_clock p))),
      (''file_id'', map_option JStr (pl_file_id p)), (''path'', jstr (pl_path p)),
      (''from_path'', map_option JStr (pl_from_path p)), (''checksum'', map_option JStr (pl_checksum p)),
      (''size'', map_option JNum (pl_size p)), (''mtime'', map_option JNum (pl_mtime p)),
      (''mode'', map_option JNum (pl_mode p)), (''data'', nonempty (pl_data p)),
      (''compressed'', map_option JBool (pl_compressed p)), (''original_size'', map_option JNum (pl_original_size p)),
      (''compression_algorithm'', map_option JStr (pl_compression_algorithm p))]"

definition enc_manifest_entry :: "manifest_entry \<Rightarrow> json" where
  "enc_manifest_entry m = obj
     [(''file_id'', jstr (mf_file_id m)), (''path'', jstr (mf_path m)), (''hash'', jstr (mf_hash m)),
      (''size'', jnum (mf_size m)), (''mtime'', jnum (mf_mtime m)), (''last_modified_by'', jstr (mf_last_modified_by m))]"

definition enc_chunk :: "chunk_message \<Rightarrow> json" where
  "enc_chunk c = obj
     [(''file_id'', jstr (cm_file_id c)), (''file_hash'', jstr (cm_file_hash c)), (''chunk_id'', jnum (cm_chunk_id c)),
      (''total_chunks'', jnum (cm_total_chunks c)), (''offset'', jnum (cm_offset c)), (''length'', jnum (cm_length c)),
      (''chunk_hash'', jstr (cm_chunk_hash c)), (''data'', jbytes (cm_data c)), (''is_last'', jbool (cm_is_last c))]"

definition enc_state :: "state_message \<Rightarrow> json" where
  "enc_state s = obj
     [(''peer_id'', jstr (sm_peer_id s)), (''vector_clock'', Some (enc_clock (sm_vector_clock s))),
      (''file_manifest'', Some (JArr (map enc_manifest_entry (sm_manifest s)))),
      (''pending_operations'', Some (JArr (map enc_log_payload (sm_pending s))))]"

definition enc_file_request :: "file_request \<Rightarrow> json" where
  "enc_file_request q = obj
     [(''requested_files'', Some (JArr (map (\<lambda>(f, p). obj [(''file_id'', jstr f), (''priority'', jstr p)]) (fq_files q)))),
      (''peer_capabilities'', Some (obj [(''supports_compression'', jbool (fq_compression q)),
         (''max_concurrent_transfers'', jnum (fq_max_transfers q))]))]"

definition enc_encrypted :: "encrypted_message \<Rightarrow> json" where
  "enc_encrypted e = obj
     [(''iv'', jbytes (em_iv e)), (''ciphertext'', jbytes (em_ciphertext e)), (''tag'', jbytes (em_tag e))]"

fun enc_payload :: "payload \<Rightarrow> json" where
  "enc_payload (DiscoveryMessage d) = obj
     [(''peer_id'', jstr (dm_peer_id d)), (''port'', jnum (dm_port d)), (''sync_port'', jnum (dm_sync_port d)),
      (''capabilities'', Some (dm_capabilities d)), (''version'', jstr (dm_version d))]"
| "enc_payload (DiscoveryResponse d) = obj
     [(''peer_id'', jstr (dr_peer_id d)), (''port'', jnum (dr_port d)), (''sync_port'', jnum (dr_sync_port d)),
      (''version'', jstr (dr_version d))]"
| "enc_payload (HandshakeMessage h) = obj
     [(''public_key'', jstr (hm_public_key h)), (''nonce'', jbytes (hm_nonce h)), (''auth_challenge'', nonempty (hm_auth_challenge h))]"
| "enc_payload (HandshakeChallenge h) = obj
     [(''auth_response'', jbytes (hc_auth_response h)), (''public_key'', jstr (hc_public_key h)),
      (''nonce'', jbytes (hc_nonce h)), (''auth_challenge'', jbytes (hc_auth_challenge h))]"
| "enc_payload (HandshakeComplete r) = obj [(''auth_response'', jbytes r)]"
| "enc_payload (StateDeclaration s) = enc_state s"
| "enc_payload (StateValue s) = enc_state s"
| "enc_payload (FileRequest q) = enc_file_request q"
| "enc_payload (LogEntry p) = enc_log_payload p"
| "enc_payload (ChunkMessage c) = enc_chunk c"
| "enc_payload (ChunkRequest q) = obj
     [(''file_id'', jstr (cq_file_id q)), (''chunk_ids'', Some (JArr (map JNum (cq_chunk_ids q))))]"
| "enc_payload (OperationAck a) = obj
     [(''operation_id'', jstr (oa_operation_id a)), (''success'', jbool (oa_success a)), (''error'', omit_empty (oa_error a))]"
| "enc_payload (ChunkAck a) = obj
     [(''file_id'', jstr (ca_file_id a)), (''chunk_id'', jnum (ca_chunk_id a)), (''success'', jbool (ca_success a)),
      (''error'', omit_empty (ca_error a))]"
| "enc_payload (Heartbeat t) = obj [(''timestamp'', jnum t)]"
| "enc_payload (Encrypted e) = enc_encrypted e"
| "enc_payload (Generic j) = j"
| "enc_payload (RawBytes d) = JStr (EncodeToString d)"

section \<open>Decoding\<close>

definition dec_log_payload :: "json \<Rightarrow> log_payload option" where
  "dec_log_payload j =
     (if \<not> is_object j then None
      else do {
        operation_id \<leftarrow> get as_string [] j ''operation_id'';
        timestamp \<leftarrow> get as_int64 0 j ''timestamp'';
        type \<leftarrow> get as_string [] j ''type'';
        peer_id \<leftarrow> get as_string [] j ''peer_id'';
        vector_clock \<leftarrow> get_pointer as_clock j ''vector_clock'';
        file_id \<leftarrow> get_pointer as_string j ''file_id'';
        path \<leftarrow> get as_string [] j ''path'';
        from_path \<leftarrow> get_pointer as_string j ''from_path'';
        checksum \<leftarrow> get_pointer as_string j ''checksum'';
        size \<leftarrow> get_pointer as_int64 j ''size'';
        mtime \<leftarrow> get_pointer as_int64 j ''mtime'';
        mode \<leftarrow> get_pointer as_uint32 j ''mode'';
        data \<leftarrow> get as_bytes [] j ''data'';
        compressed \<leftarrow> get_pointer as_bool j ''compressed'';
        original_size \<leftarrow> get_pointer as_int64 j ''original_size'';
        algorithm \<leftarrow> get_pointer as_string j ''compression_algorithm'';
        Some \<lparr>pl_operation_id = operation_id, pl_timestamp = timestamp, pl_type = type, pl_peer_id = peer_id,
              pl_vector_clock = vector_clock, pl_file_id = file_id, pl_path = path, pl_from_path = from_path,
              pl_checksum = checksum, pl_size = size, pl_mtime = mtime, pl_mode = mode, pl_data = data,
              pl_compressed = compressed, pl_original_size = original_size, pl_compression_algorithm = algorithm\<rparr>
      })"

definition dec_manifest_entry :: "json \<Rightarrow> manifest_entry option" where
  "dec_manifest_entry j =
     (if \<not> is_object j then None
      else do {
        file_id \<leftarrow> get as_string [] j ''file_id'';
        path \<leftarrow> get as_string [] j ''path'';
        hash \<leftarrow> get as_string [] j ''hash'';
        size \<leftarrow> get as_int64 0 j ''size'';
        mtime \<leftarrow> get as_int64 0 j ''mtime'';
        last_modified_by \<leftarrow> get as_string [] j ''last_modified_by'';
        Some \<lparr>mf_file_id = file_id, mf_path = path, mf_hash = hash, mf_size = size, mf_mtime = mtime,
              mf_last_modified_by = last_modified_by\<rparr>
      })"

definition dec_chunk :: "json \<Rightarrow> chunk_message option" where
  "dec_chunk j =
     (if \<not> is_object j then None
      else do {
        file_id \<leftarrow> get as_string [] j ''file_id'';
        file_hash \<leftarrow> get as_string [] j ''file_hash'';
        chunk_id \<leftarrow> get as_int64 0 j ''chunk_id'';
        total_chunks \<leftarrow> get as_int64 0 j ''total_chunks'';
        offset \<leftarrow> get as_int64 0 j ''offset'';
        len \<leftarrow> get as_int64 0 j ''length'';
        chunk_hash \<leftarrow> get as_string [] j ''chunk_hash'';
        data \<leftarrow> get as_bytes [] j ''data'';
        is_last \<leftarrow> get as_bool False j ''is_last'';
        Some \<lparr>cm_file_id = file_id, cm_file_hash = file_hash, cm_chunk_id = chunk_id, cm_total_chunks = total_chunks,
              cm_offset = offset, cm_length = len, cm_chunk_hash = chunk_hash, cm_data = data, cm_is_last = is_last\<rparr>
      })"

definition dec_state :: "json \<Rightarrow> state_message option" where
  "dec_state j =
     (if \<not> is_object j then None
      else do {
        peer_id \<leftarrow> get as_string [] j ''peer_id'';
        vector_clock \<leftarrow> get_pointer as_clock j ''vector_clock'';
        manifest \<leftarrow> get (as_list dec_manifest_entry) [] j ''file_manifest'';
        pending \<leftarrow> get (as_list dec_log_payload) [] j ''pending_operations'';
        Some \<lparr>sm_peer_id = peer_id, sm_vector_clock = vector_clock, sm_manifest = manifest, sm_pending = pending\<rparr>
      })"

definition dec_requested_file :: "json \<Rightarrow> (string \<times> string) option" where
  "dec_requested_file j =
     (if \<not> is_object j then None
      else do {
        file_id \<leftarrow> get as_string [] j ''file_id'';
        priority \<leftarrow> get as_string [] j ''priority'';
        Some (file_id, priority)
      })"

definition dec_capabilities :: "json \<Rightarrow> (bool \<times> int64) option" where
  "dec_capabilities j =
     (if \<not> is_object j then None
      else do {
        compression \<leftarrow> get as_bool False j ''supports_compression'';
        transfers \<leftarrow> get as_int64 0 j ''max_concurrent_transfers'';
        Some (compression, transfers)
      })"

definition dec_file_request :: "json \<Rightarrow> file_request option" where
  "dec_file_request j =
     (if \<not> is_object j then None
      else do {
        files \<leftarrow> get (as_list dec_requested_file) [] j ''requested_files'';
        caps \<leftarrow> get dec_capabilities (False, 0) j ''peer_capabilities'';
        Some \<lparr>fq_files = files, fq_compression = fst caps, fq_max_transfers = snd caps\<rparr>
      })"

definition dec_operation_ack :: "json \<Rightarrow> operation_ack option" where
  "dec_operation_ack j =
     (if \<not> is_object j then None
      else do {
        operation_id \<leftarrow> get as_string [] j ''operation_id'';
        success \<leftarrow> get as_bool False j ''success'';
        err \<leftarrow> get as_string [] j ''error'';
        Some \<lparr>oa_operation_id = operation_id, oa_success = success, oa_error = err\<rparr>
      })"

definition dec_chunk_ack :: "json \<Rightarrow> chunk_ack option" where
  "dec_chunk_ack j =
     (if \<not> is_object j then None
      else do {
        file_id \<leftarrow> get as_string [] j ''file_id'';
        chunk_id \<leftarrow> get as_int64 0 j ''chunk_id'';
        success \<leftarrow> get as_bool False j ''success'';
        err \<leftarrow> get as_string [] j ''error'';
        Some \<lparr>ca_file_id = file_id, ca_chunk_id = chunk_id, ca_success = success, ca_error = err\<rparr>
      })"

definition dec_discovery :: "json \<Rightarrow> discovery_message option" where
  "dec_discovery j =
     (if \<not> is_object j then None
      else do {
        peer_id \<leftarrow> get as_string [] j ''peer_id'';
        port \<leftarrow> get as_int64 0 j ''port'';
        sync_port \<leftarrow> get as_int64 0 j ''sync_port'';
        capabilities \<leftarrow> get (\<lambda>c. if is_object c then Some c else None) JNull j ''capabilities'';
        version \<leftarrow> get as_string [] j ''version'';
        Some \<lparr>dm_peer_id = peer_id, dm_port = port, dm_sync_port = sync_port, dm_capabilities = capabilities,
              dm_version = version\<rparr>
      })"

definition dec_discovery_response :: "json \<Rightarrow> discovery_response option" where
  "dec_discovery_response j =
     (if \<not> is_object j then None
      else do {
        peer_id \<leftarrow> get as_string [] j ''peer_id'';
        port \<leftarrow> get as_int64 0 j ''port'';
        sync_port \<leftarrow> get as_int64 0 j ''sync_port'';
        version \<leftarrow> get as_string [] j ''version'';
        Some \<lparr>dr_peer_id = peer_id, dr_port = port, dr_sync_port = sync_port, dr_version = version\<rparr>
      })"

definition dec_handshake :: "json \<Rightarrow> handshake_message option" where
  "dec_handshake j =
     (if \<not> is_object j then None
      else do {
        public_key \<leftarrow> get as_string [] j ''public_key'';
        nonce \<leftarrow> get as_bytes [] j ''nonce'';
        challenge \<leftarrow> get as_bytes [] j ''auth_challenge'';
        Some \<lparr>hm_public_key = public_key, hm_nonce = nonce, hm_auth_challenge = challenge\<rparr>
      })"

definition dec_handshake_challenge :: "json \<Rightarrow> handshake_challenge option" where
  "dec_handshake_challenge j =
     (if \<not> is_object j then None
      else do {
        response \<leftarrow> get as_bytes [] j ''auth_response'';
        public_key \<leftarrow> get as_string [] j ''public_key'';
        nonce \<leftarrow> get as_bytes [] j ''nonce'';
        challenge \<leftarrow> get as_bytes [] j ''auth_challenge'';
        Some \<lparr>hc_auth_response = response, hc_public_key = public_key, hc_nonce = nonce, hc_auth_challenge = challenge\<rparr>
      })"

definition dec_chunk_request :: "json \<Rightarrow> chunk_request option" where
  "dec_chunk_request j =
     (if \<not> is_object j then None
      else do {
        file_id \<leftarrow> get as_string [] j ''file_id'';
        chunk_ids \<leftarrow> get (as_list (or_zero 0 as_int64)) [] j ''chunk_ids'';
        Some \<lparr>cq_file_id = file_id, cq_chunk_ids = chunk_ids\<rparr>
      })"

definition when_object :: "(json \<Rightarrow> 'a option) \<Rightarrow> json \<Rightarrow> 'a option" where
  "when_object f j = (if is_object j then f j else None)"

text \<open>The values of the type constants, and the struct that belongs to each.\<close>

definition decode_struct :: "string \<Rightarrow> json \<Rightarrow> payload option" where
  "decode_struct msgType j =
     (if msgType = ''discovery'' then map_option DiscoveryMessage (dec_discovery j)
      else if msgType = ''discovery_response'' then map_option DiscoveryResponse (dec_discovery_response j)
      else if msgType = ''handshake'' then map_option HandshakeMessage (dec_handshake j)
      else if msgType = ''handshake_ack'' then map_option HandshakeChallenge (dec_handshake_challenge j)
      else if msgType = ''handshake_complete'' then map_option HandshakeComplete (when_object (\<lambda>j. get as_bytes [] j ''auth_response'') j)
      else if msgType = ''state_declaration'' then map_option StateDeclaration (dec_state j)
      else if msgType = ''file_request'' then map_option FileRequest (dec_file_request j)
      else if msgType = ''sync_operation'' then map_option LogEntry (dec_log_payload j)
      else if msgType = ''chunk'' then map_option ChunkMessage (dec_chunk j)
      else if msgType = ''chunk_request'' then map_option ChunkRequest (dec_chunk_request j)
      else if msgType = ''operation_ack'' then map_option OperationAck (dec_operation_ack j)
      else if msgType = ''chunk_ack'' then map_option ChunkAck (dec_chunk_ack j)
      else if msgType = ''heartbeat'' then map_option Heartbeat (when_object (\<lambda>j. get as_int64 0 j ''timestamp'') j)
      else None)"

section \<open>Messages on the wire\<close>

record json_text =
  write_json :: "json \<Rightarrow> bytes"
  read_json :: "bytes \<Rightarrow> json option"

definition EncodePayload :: "json_text \<Rightarrow> payload \<Rightarrow> bytes" where
  "EncodePayload J p = write_json J (enc_payload p)"

definition DecodePayload :: "json_text \<Rightarrow> bytes \<Rightarrow> string \<Rightarrow> payload option" where
  "DecodePayload J data msgType = (case read_json J data of None \<Rightarrow> None | Some j \<Rightarrow> decode_struct msgType j)"

record message =
  ms_id :: string
  ms_type :: string
  ms_timestamp :: int64
  ms_sender :: string
  ms_payload :: payload
  ms_correlation :: "string option"

definition GenerateMessageID :: "time \<Rightarrow> string" where
  "GenerateMessageID now = ''msg-'' @ dec_int now"

definition NewMessage :: "time \<Rightarrow> string \<Rightarrow> string \<Rightarrow> payload \<Rightarrow> message" where
  "NewMessage now msgType senderID p =
     \<lparr>ms_id = GenerateMessageID now, ms_type = msgType, ms_timestamp = unix_milli now, ms_sender = senderID,
      ms_payload = p, ms_correlation = None\<rparr>"

definition WithCorrelationID :: "string \<Rightarrow> message \<Rightarrow> message" where
  "WithCorrelationID correlationID m = m\<lparr>ms_correlation := Some correlationID\<rparr>"

definition enc_message :: "message \<Rightarrow> json" where
  "enc_message m = obj
     [(''id'', jstr (ms_id m)), (''type'', jstr (ms_type m)), (''timestamp'', jnum (ms_timestamp m)),
      (''sender_id'', jstr (ms_sender m)), (''payload'', Some (enc_payload (ms_payload m))),
      (''correlation_id'', map_option JStr (ms_correlation m))]"

definition EncodeMessage :: "json_text \<Rightarrow> message \<Rightarrow> bytes" where
  "EncodeMessage J m = write_json J (enc_message m)"

definition dec_message :: "json \<Rightarrow> message option" where
  "dec_message j =
     (if \<not> is_object j then None
      else do {
        i \<leftarrow> get as_string [] j ''id'';
        type \<leftarrow> get as_string [] j ''type'';
        timestamp \<leftarrow> get as_int64 0 j ''timestamp'';
        sender \<leftarrow> get as_string [] j ''sender_id'';
        payload \<leftarrow> get Some JNull j ''payload'';
        correlation \<leftarrow> get_pointer as_string j ''correlation_id'';
        Some \<lparr>ms_id = i, ms_type = type, ms_timestamp = timestamp, ms_sender = sender, ms_payload = Generic payload,
              ms_correlation = correlation\<rparr>
      })"

definition DecodeMessage :: "json_text \<Rightarrow> bytes \<Rightarrow> message option" where
  "DecodeMessage J data = Option.bind (read_json J data) dec_message"

section \<open>Lemmas\<close>

lemma present_keys: "fst ` set (present fs) \<subseteq> fst ` set fs"
  by (induction fs rule: present.induct) auto

lemma present_distinct: "distinct (map fst fs) \<Longrightarrow> distinct (map fst (present fs))"
proof (induction fs rule: present.induct)
  case (3 k j fs)
  then show ?case using present_keys [of fs] by auto
qed simp_all

lemma map_of_present:
  "distinct (map fst fs) \<Longrightarrow> map_of (present fs) k = Option.bind (map_of fs k) id"
proof (induction fs rule: present.induct)
  case (2 k' fs)
  then have "map_of (present fs) k' = None" using present_keys [of fs] by (auto simp: map_of_eq_None_iff)
  then show ?case using 2 by auto
qed auto

lemma field_obj:
  assumes "distinct (map fst fs)"
  shows "field (obj fs) k = (case Option.bind (map_of fs k) id of Some JNull \<Rightarrow> None | v \<Rightarrow> v)"
proof -
  note d = present_distinct [OF assms]
  have "distinct (map fst (rev (present fs)))" using d unfolding rev_map [symmetric] by simp
  then have "map_of (rev (present fs)) = map_of (present fs)"
    using d by (simp add: map_of_inject_set)
  then show ?thesis using map_of_present [OF assms, of k] by (simp add: obj_def)
qed

lemma is_object_obj [simp]: "is_object (obj fs)"
  by (simp add: is_object_def obj_def)

text \<open>Reading a field of an object that was built from its fields.\<close>

definition field_value :: "(json \<Rightarrow> 'a option) \<Rightarrow> 'a \<Rightarrow> json option \<Rightarrow> 'a option" where
  "field_value f z v = (case v of None \<Rightarrow> Some z | Some j \<Rightarrow> if j = JNull then Some z else f j)"

definition pointer_value :: "(json \<Rightarrow> 'a option) \<Rightarrow> json option \<Rightarrow> 'a option option" where
  "pointer_value f v = (case v of None \<Rightarrow> Some None | Some j \<Rightarrow> if j = JNull then Some None else map_option Some (f j))"

lemma get_obj: "distinct (map fst fs) \<Longrightarrow> map_of fs k = Some v \<Longrightarrow> get f z (obj fs) k = field_value f z v"
  by (simp add: get_def field_obj field_value_def split: option.split json.split)

lemma get_pointer_obj: "distinct (map fst fs) \<Longrightarrow> map_of fs k = Some v \<Longrightarrow> get_pointer f (obj fs) k = pointer_value f v"
  by (simp add: get_pointer_def field_obj pointer_value_def split: option.split json.split)

lemma those_map: "(\<And>x. x \<in> set xs \<Longrightarrow> f (g x) = Some x) \<Longrightarrow> those (map (f \<circ> g) xs) = Some xs"
  by (induction xs) simp_all

lemma as_list_map: "(\<And>x. x \<in> set xs \<Longrightarrow> f (g x) = Some x) \<Longrightarrow> as_list f (JArr (map g xs)) = Some xs"
  using those_map [of xs f g] by simp

definition clock_ok :: "vclock option \<Rightarrow> bool" where
  "clock_ok vc = (case vc of None \<Rightarrow> True | Some c \<Rightarrow> gm_ok c \<and> (\<forall>(k, n) \<in> set c. in_int64 n))"

lemma fold_put_self:
  "distinct (map fst m @ map fst c) \<Longrightarrow> fold (\<lambda>(k, n) c. gm_put k n c) c m = m @ c"
proof (induction c arbitrary: m)
  case (Cons kn c)
  obtain k n where kn: "kn = (k, n)" by (cases kn)
  have "gm_put k n m = m @ [(k, n)]" using Cons.prems kn
    by (simp add: gm_put_def) (induction m; auto)
  then show ?case using Cons.IH [of "m @ [(k, n)]"] Cons.prems kn by simp
qed simp

lemma as_clock_enc:
  assumes "clock_ok (Some c)"
  shows "as_clock (JObj (map (\<lambda>(k, n). (k, JNum n)) c)) = Some c"
proof -
  have "those (map (\<lambda>(k, j). map_option (Pair k) (or_zero 0 as_int64 j)) (map (\<lambda>(k, n). (k, JNum n)) c)) = Some c"
    using assms by (induction c) (auto simp: clock_ok_def or_zero_def)
  then show ?thesis using fold_put_self [of "[]" c] assms by (simp add: clock_ok_def gm_ok_def)
qed

lemma clock_value: "clock_ok vc \<Longrightarrow> pointer_value as_clock (Some (enc_clock vc)) = Some vc"
  using as_clock_enc by (cases vc) (simp_all add: pointer_value_def enc_clock_def del: as_clock.simps)

text \<open>What the ranges of Go's types allow.\<close>

definition optional :: "('a \<Rightarrow> bool) \<Rightarrow> 'a option \<Rightarrow> bool" where
  "optional P v = (case v of None \<Rightarrow> True | Some x \<Rightarrow> P x)"

definition log_payload_ok :: "log_payload \<Rightarrow> bool" where
  "log_payload_ok p \<longleftrightarrow> in_int64 (pl_timestamp p) \<and> clock_ok (pl_vector_clock p) \<and> optional in_int64 (pl_size p) \<and>
     optional in_int64 (pl_mtime p) \<and> optional (\<lambda>m. 0 \<le> m \<and> m < 2 ^ 32) (pl_mode p) \<and> optional in_int64 (pl_original_size p)"

lemma pointer_values:
  "pointer_value as_string (map_option JStr u) = Some u" "pointer_value as_bool (map_option JBool b) = Some b"
  "optional in_int64 n \<Longrightarrow> pointer_value as_int64 (map_option JNum n) = Some n"
  "optional (\<lambda>m. 0 \<le> m \<and> m < 2 ^ 32) n \<Longrightarrow> pointer_value as_uint32 (map_option JNum n) = Some n"
  by (cases u; cases b; cases n; simp add: pointer_value_def optional_def)+

lemma field_values:
  "field_value as_string z (jstr s) = Some s" "field_value as_bool y (jbool b) = Some b"
  "in_int64 n \<Longrightarrow> field_value as_int64 x (jnum n) = Some n" "field_value as_bytes w (jbytes d) = Some d"
  "field_value as_bytes [] (nonempty d) = Some d" "field_value as_string [] (omit_empty s) = Some s"
  by (simp_all add: field_value_def nonempty_def omit_empty_def)

lemma list_value:
  "(\<And>x. x \<in> set xs \<Longrightarrow> f (g x) = Some x) \<Longrightarrow> field_value (as_list f) z (Some (JArr (map g xs))) = Some xs"
  using as_list_map [of xs f g] by (simp add: field_value_def)

lemmas decode_values = get_obj get_pointer_obj field_values pointer_values clock_value

lemma dec_enc_log_payload: "log_payload_ok p \<Longrightarrow> dec_log_payload (enc_log_payload p) = Some p"
  unfolding dec_log_payload_def enc_log_payload_def log_payload_ok_def by (simp add: decode_values)

lemma dec_enc_manifest_entry: "in_int64 (mf_size m) \<Longrightarrow> in_int64 (mf_mtime m) \<Longrightarrow> dec_manifest_entry (enc_manifest_entry m) = Some m"
  unfolding dec_manifest_entry_def enc_manifest_entry_def by (simp add: decode_values)

definition chunk_message_ok :: "chunk_message \<Rightarrow> bool" where
  "chunk_message_ok c \<longleftrightarrow> in_int64 (cm_chunk_id c) \<and> in_int64 (cm_total_chunks c) \<and> in_int64 (cm_offset c) \<and> in_int64 (cm_length c)"

lemma dec_enc_chunk: "chunk_message_ok c \<Longrightarrow> dec_chunk (enc_chunk c) = Some c"
  unfolding dec_chunk_def enc_chunk_def chunk_message_ok_def by (simp add: decode_values)

definition state_message_ok :: "state_message \<Rightarrow> bool" where
  "state_message_ok s \<longleftrightarrow> clock_ok (sm_vector_clock s) \<and> (\<forall>m \<in> set (sm_manifest s). in_int64 (mf_size m) \<and> in_int64 (mf_mtime m)) \<and>
     (\<forall>p \<in> set (sm_pending s). log_payload_ok p)"

lemma dec_enc_state: "state_message_ok s \<Longrightarrow> dec_state (enc_state s) = Some s"
  unfolding dec_state_def enc_state_def state_message_ok_def
  by (simp add: decode_values list_value dec_enc_manifest_entry dec_enc_log_payload)

lemma dec_enc_requested_file: "dec_requested_file (obj [(''file_id'', jstr f), (''priority'', jstr p)]) = Some (f, p)"
  unfolding dec_requested_file_def by (simp add: decode_values)

lemma dec_enc_capabilities:
  "in_int64 n \<Longrightarrow> dec_capabilities (obj [(''supports_compression'', jbool b), (''max_concurrent_transfers'', jnum n)]) = Some (b, n)"
  unfolding dec_capabilities_def by (simp add: decode_values)

lemma obj_not_null [simp]: "obj fs \<noteq> JNull"
  by (simp add: obj_def)

lemma dec_enc_file_request:
  assumes "in_int64 (fq_max_transfers q)"
  shows "dec_file_request (enc_file_request q) = Some q"
proof -
  have "field_value (as_list dec_requested_file) [] (Some (JArr (map (\<lambda>(f, p). obj [(''file_id'', jstr f), (''priority'', jstr p)]) (fq_files q)))) = Some (fq_files q)"
    by (rule list_value) (auto simp: dec_enc_requested_file)
  then show ?thesis unfolding dec_file_request_def enc_file_request_def using assms
    by (simp add: get_obj field_value_def [of dec_capabilities] dec_enc_capabilities)
qed

fun payload_type :: "payload \<Rightarrow> string" where
  "payload_type (DiscoveryMessage _) = ''discovery''"
| "payload_type (DiscoveryResponse _) = ''discovery_response''"
| "payload_type (HandshakeMessage _) = ''handshake''"
| "payload_type (HandshakeChallenge _) = ''handshake_ack''"
| "payload_type (HandshakeComplete _) = ''handshake_complete''"
| "payload_type (StateDeclaration _) = ''state_declaration''"
| "payload_type (FileRequest _) = ''file_request''"
| "payload_type (LogEntry _) = ''sync_operation''"
| "payload_type (ChunkMessage _) = ''chunk''"
| "payload_type (ChunkRequest _) = ''chunk_request''"
| "payload_type (OperationAck _) = ''operation_ack''"
| "payload_type (ChunkAck _) = ''chunk_ack''"
| "payload_type (Heartbeat _) = ''heartbeat''"
| "payload_type _ = []"

fun payload_ok :: "payload \<Rightarrow> bool" where
  "payload_ok (DiscoveryMessage d) = (in_int64 (dm_port d) \<and> in_int64 (dm_sync_port d) \<and> is_object (dm_capabilities d))"
| "payload_ok (DiscoveryResponse d) = (in_int64 (dr_port d) \<and> in_int64 (dr_sync_port d))"
| "payload_ok (HandshakeMessage _) = True"
| "payload_ok (HandshakeChallenge _) = True"
| "payload_ok (HandshakeComplete _) = True"
| "payload_ok (StateDeclaration s) = state_message_ok s"
| "payload_ok (FileRequest q) = in_int64 (fq_max_transfers q)"
| "payload_ok (LogEntry p) = log_payload_ok p"
| "payload_ok (ChunkMessage c) = chunk_message_ok c"
| "payload_ok (ChunkRequest q) = (\<forall>n \<in> set (cq_chunk_ids q). in_int64 n)"
| "payload_ok (OperationAck _) = True"
| "payload_ok (ChunkAck a) = in_int64 (ca_chunk_id a)"
| "payload_ok (Heartbeat t) = in_int64 t"
| "payload_ok _ = False"

lemma decode_enc_payload:
  assumes "payload_ok p"
  shows "decode_struct (payload_type p) (enc_payload p) = Some p"
proof (cases p)
  case (DiscoveryMessage d)
  have "field_value (\<lambda>c. if is_object c then Some c else None) JNull (Some (dm_capabilities d)) = Some (dm_capabilities d)"
    using assms DiscoveryMessage by (simp add: field_value_def)
  then show ?thesis using assms unfolding DiscoveryMessage by (simp add: decode_struct_def dec_discovery_def decode_values)
next
  case (ChunkRequest q)
  have "field_value (as_list (or_zero 0 as_int64)) [] (Some (JArr (map JNum (cq_chunk_ids q)))) = Some (cq_chunk_ids q)"
    using assms ChunkRequest by (intro list_value) (simp add: or_zero_def)
  then show ?thesis unfolding ChunkRequest by (simp add: decode_struct_def dec_chunk_request_def decode_values)
qed (use assms in \<open>simp_all add: decode_struct_def dec_enc_state dec_enc_file_request dec_enc_log_payload dec_enc_chunk
      dec_discovery_response_def dec_handshake_def dec_handshake_challenge_def dec_operation_ack_def dec_chunk_ack_def
      when_object_def decode_values\<close>)

text \<open>The text of a JSON value reads back as the value, as long as all strings are ASCII.\<close>

definition ascii :: "string \<Rightarrow> bool" where
  "ascii s = list_all (\<lambda>c. byte_val c < 128) s"

fun json_ascii :: "json \<Rightarrow> bool" where
  "json_ascii (JStr s) = ascii s"
| "json_ascii (JArr js) = list_all json_ascii js"
| "json_ascii (JObj kvs) = list_all (\<lambda>(k, j). ascii k \<and> json_ascii j) kvs"
| "json_ascii _ = True"

definition text_laws :: "json_text \<Rightarrow> bool" where
  "text_laws J \<longleftrightarrow> (\<forall>j. json_ascii j \<longrightarrow> read_json J (write_json J j) = Some j)"

text \<open>C29. Every kind of payload survives the wire: what \<open>EncodePayload\<close> writes, \<open>DecodePayload\<close> reads back under the
  type constant of its struct, with every optional field present or absent as it was. Integers are in
  the ranges of their Go types, and strings are ASCII (Go replaces bytes that are not UTF-8).
\<close>

theorem payload_roundtrip:
  assumes "text_laws J" "payload_ok p" "json_ascii (enc_payload p)"
  shows "DecodePayload J (EncodePayload J p) (payload_type p) = Some p"
  using assms by (simp add: DecodePayload_def EncodePayload_def text_laws_def decode_enc_payload)

subsection \<open>A text format\<close>

text \<open>A concrete format with the laws, for the examples: prefix notation with unary numbers.\<close>

fun text_of_string :: "string \<Rightarrow> bytes" where
  "text_of_string [] = ''.''"
| "text_of_string (c # s) = CHR ''c'' # c # text_of_string s"

fun string_of_text :: "bytes \<Rightarrow> (string \<times> bytes) option" where
  "string_of_text (t # c # r) =
     (if t = CHR ''.'' then Some ([], c # r)
      else map_option (\<lambda>(s, r'). (c # s, r')) (string_of_text r))"
| "string_of_text [t] = (if t = CHR ''.'' then Some ([], []) else None)"
| "string_of_text [] = None"

fun text_of :: "json \<Rightarrow> bytes" where
  "text_of JNull = ''n''"
| "text_of (JBool b) = (if b then ''t'' else ''f'')"
| "text_of (JNum n) = (if n < 0 then CHR ''-'' else CHR ''+'') # replicate (nat \<bar>n\<bar>) (CHR ''1'') @ ''.''"
| "text_of (JStr s) = CHR ''s'' # text_of_string s"
| "text_of (JArr js) = CHR ''['' # concat (map text_of js) @ '']''"
| "text_of (JObj kvs) = CHR ''{'' # concat (map (\<lambda>(k, j). CHR ''s'' # text_of_string k @ text_of j) kvs) @ '']''"

fun pair_up :: "json list \<Rightarrow> (string \<times> json) list option" where
  "pair_up [] = Some []"
| "pair_up (JStr k # j # js) = map_option ((#) (k, j)) (pair_up js)"
| "pair_up _ = None"

fun parse :: "nat \<Rightarrow> bytes \<Rightarrow> (json \<times> bytes) option" and parse_list :: "nat \<Rightarrow> bytes \<Rightarrow> (json list \<times> bytes) option" where
  "parse (Suc n) (c # r) =
     (if c = CHR ''n'' then Some (JNull, r)
      else if c = CHR ''t'' then Some (JBool True, r)
      else if c = CHR ''f'' then Some (JBool False, r)
      else if c = CHR ''-'' then Some (JNum (- int (length (takeWhile (\<lambda>d. d = CHR ''1'') r))), tl (dropWhile (\<lambda>d. d = CHR ''1'') r))
      else if c = CHR ''+'' then Some (JNum (int (length (takeWhile (\<lambda>d. d = CHR ''1'') r))), tl (dropWhile (\<lambda>d. d = CHR ''1'') r))
      else if c = CHR ''s'' then map_option (\<lambda>(s, r'). (JStr s, r')) (string_of_text r)
      else if c = CHR ''['' then map_option (\<lambda>(js, r'). (JArr js, r')) (parse_list n r)
      else Option.bind (parse_list n r) (\<lambda>(js, r'). map_option (\<lambda>kvs. (JObj kvs, r')) (pair_up js)))"
| "parse _ _ = None"
| "parse_list (Suc n) s =
     (case s of
        [] \<Rightarrow> None
      | c # r \<Rightarrow>
          if c = CHR '']'' then Some ([], r)
          else Option.bind (parse n s) (\<lambda>(j, r'). map_option (\<lambda>(js, r''). (j # js, r'')) (parse_list n r')))"
| "parse_list 0 s = None"

definition plain_text :: json_text where
  "plain_text = \<lparr>write_json = text_of, read_json = (\<lambda>s. map_option fst (parse (2 * length s) s))\<rparr>"

lemma string_text: "string_of_text (text_of_string s @ r) = Some (s, r)"
  by (induction s) (cases r; simp)+

lemma text_head: "\<exists>c r. text_of j = c # r \<and> c \<noteq> CHR '']''"
  by (cases j) auto

lemma parse_list_texts:
  assumes "\<And>j n r. j \<in> set js \<Longrightarrow> 2 * length (text_of j) \<le> n \<Longrightarrow> parse n (text_of j @ r) = Some (j, r)"
    and "2 * length (concat (map text_of js)) + 3 \<le> n"
  shows "parse_list n (concat (map text_of js) @ CHR '']'' # r) = Some (js, r)"
  using assms
proof (induction js arbitrary: n)
  case Nil
  then show ?case by (cases n) simp_all
next
  case (Cons j js)
  obtain m where n: "n = Suc m" using Cons.prems(2) by (cases n) simp_all
  obtain c t where c: "text_of j = c # t" "c \<noteq> CHR '']''" using text_head by blast
  have "parse m (text_of j @ concat (map text_of js) @ CHR '']'' # r) = Some (j, concat (map text_of js) @ CHR '']'' # r)"
    using Cons.prems n by (intro Cons.prems(1)) simp_all
  moreover have "parse_list m (concat (map text_of js) @ CHR '']'' # r) = Some (js, r)"
    using Cons.prems n c by (intro Cons.IH) simp_all
  ultimately show ?case using c by (simp add: n)
qed

lemma pair_up_flat: "pair_up (concat (map (\<lambda>(k, j). [JStr k, j]) kvs)) = Some kvs"
  by (induction kvs) auto

lemma flat_texts: "concat (map text_of (concat (map (\<lambda>(k, j). [JStr k, j]) kvs))) =
    concat (map (\<lambda>(k, j). CHR ''s'' # text_of_string k @ text_of j) kvs)"
  by (induction kvs) auto

lemma parse_text: "2 * length (text_of j) \<le> n \<Longrightarrow> parse n (text_of j @ r) = Some (j, r)"
proof (induction j arbitrary: n r)
  case (JNum i)
  then obtain m where n: "n = Suc m" by (cases n) simp_all
  have t: "takeWhile (\<lambda>d. d = CHR ''1'') (replicate k (CHR ''1'') @ CHR ''.'' # r) = replicate k (CHR ''1'')"
    "dropWhile (\<lambda>d. d = CHR ''1'') (replicate k (CHR ''1'') @ CHR ''.'' # r) = CHR ''.'' # r" for k
    by (induction k) simp_all
  show ?case by (simp add: n t)
next
  case (JArr js)
  then obtain m where n: "n = Suc m" by (cases n) simp_all
  have "parse_list m (concat (map text_of js) @ CHR '']'' # r) = Some (js, r)"
    by (rule parse_list_texts) (use JArr n in simp_all)
  then show ?case by (simp add: n)
next
  case (JObj kvs)
  then obtain m where n: "n = Suc m" by (cases n) simp_all
  let ?js = "concat (map (\<lambda>(k, j). [JStr k, j]) kvs)"
  have "parse k (text_of j @ r') = Some (j, r')" if "j \<in> set ?js" "2 * length (text_of j) \<le> k" for j k r'
  proof -
    consider s where "j = JStr s" | s where "(s, j) \<in> set kvs" using \<open>j \<in> set ?js\<close> by auto
    then show ?thesis
    proof cases
      case 1
      then show ?thesis using that(2) by (cases k) (simp_all add: string_text)
    next
      case 2
      then show ?thesis using JObj.IH [of "(s, j)" j k r'] that(2) by simp
    qed
  qed
  then have "parse_list m (concat (map text_of ?js) @ CHR '']'' # r) = Some (?js, r)"
    using JObj.prems n by (intro parse_list_texts) (simp_all add: flat_texts)
  then show ?case by (simp add: n flat_texts pair_up_flat)
next
  case JNull
  then obtain m where "n = Suc m" by (cases n) simp_all
  then show ?case by simp
next
  case (JBool b)
  then obtain m where "n = Suc m" by (cases n; cases b) simp_all
  then show ?case by simp
next
  case (JStr s)
  then obtain m where "n = Suc m" by (cases n) simp_all
  then show ?case by (simp add: string_text)
qed

lemma plain_text_laws: "text_laws plain_text"
  using parse_text [where r = "[]"] by (simp add: text_laws_def plain_text_def)

theorem payload_roundtrip_witness:
  "DecodePayload plain_text (EncodePayload plain_text
      (ChunkAck \<lparr>ca_file_id = ''f'', ca_chunk_id = 3, ca_success = False, ca_error = ''hash''\<rparr>)) ''chunk_ack'' =
    Some (ChunkAck \<lparr>ca_file_id = ''f'', ca_chunk_id = 3, ca_success = False, ca_error = ''hash''\<rparr>)"
  using payload_roundtrip [OF plain_text_laws, of "ChunkAck \<lparr>ca_file_id = ''f'', ca_chunk_id = 3, ca_success = False, ca_error = ''hash''\<rparr>"]
  by (simp add: in_int64_def obj_def ascii_def omit_empty_def)

subsection \<open>Messages on the wire\<close>

definition on_wire :: "json_text \<Rightarrow> message \<Rightarrow> message option" where
  "on_wire J m = DecodeMessage J (EncodeMessage J m)"

lemma generic_value: "field_value Some JNull (Some j) = Some j"
  by (simp add: field_value_def)

lemma dec_enc_message:
  "in_int64 (ms_timestamp m) \<Longrightarrow> dec_message (enc_message m) = Some (m\<lparr>ms_payload := Generic (enc_payload (ms_payload m))\<rparr>)"
  unfolding dec_message_def enc_message_def by (simp add: decode_values generic_value)

lemma json_ascii_obj:
  "json_ascii (obj fs) \<longleftrightarrow> (\<forall>(k, v) \<in> set fs. \<forall>j. v = Some j \<longrightarrow> ascii k \<and> json_ascii j)"
  unfolding obj_def by (induction fs rule: present.induct) auto

lemma json_ascii_obj_Nil [simp]: "json_ascii (obj [])"
  by (simp add: obj_def)

lemma json_ascii_obj_Cons [simp]:
  "json_ascii (obj ((k, v) # fs)) \<longleftrightarrow> (case v of None \<Rightarrow> True | Some j \<Rightarrow> ascii k \<and> json_ascii j) \<and> json_ascii (obj fs)"
  by (cases v) (simp_all add: obj_def)

lemma b64_char_ascii: "n < 64 \<Longrightarrow> byte_val (b64_char n) < 128"
proof -
  have "list_all (\<lambda>n. byte_val (b64_char n) < 128) [0..<64]" by code_simp
  then show "n < 64 \<Longrightarrow> ?thesis" by (simp add: list_all_iff)
qed

lemma ascii_simps [simp]: "ascii []" "ascii (c # s) \<longleftrightarrow> byte_val c < 128 \<and> ascii s" "ascii (s @ t) \<longleftrightarrow> ascii s \<and> ascii t"
  by (auto simp: ascii_def)

lemma ascii_digits: "n < 16777216 \<Longrightarrow> ascii (b64_digits n)"
  by (simp add: b64_digits_def b64_char_ascii)

lemma ascii_take: "ascii s \<Longrightarrow> ascii (take n s)"
  by (auto simp: ascii_def list_all_iff dest: in_set_takeD)

lemma ascii_EncodeToString [simp]: "ascii (EncodeToString d)"
proof (induction d rule: EncodeToString.induct)
  case (2 a)
  show ?case using byte_bound [of a "char_of (0 :: nat)" "char_of (0 :: nat)"] ascii_take [OF ascii_digits] by simp
next
  case (3 a b)
  show ?case using byte_bound [of a b "char_of (0 :: nat)"] ascii_take [OF ascii_digits] by simp
next
  case (4 a b c rest)
  then show ?case using ascii_digits [OF byte_bound] by simp
qed simp

text \<open>What a message is, for the wire: a time stamp in range and ASCII strings.\<close>

definition message_ok :: "message \<Rightarrow> bool" where
  "message_ok m \<longleftrightarrow> in_int64 (ms_timestamp m) \<and> ascii (ms_id m) \<and> ascii (ms_type m) \<and> ascii (ms_sender m) \<and>
     optional ascii (ms_correlation m)"

lemma on_wire_message:
  assumes "text_laws J" "message_ok m" "json_ascii (enc_payload (ms_payload m))"
  shows "on_wire J m = Some (m\<lparr>ms_payload := Generic (enc_payload (ms_payload m))\<rparr>)"
proof -
  have "json_ascii (enc_message m)" using assms(2,3)
    by (cases "ms_correlation m") (simp_all add: enc_message_def message_ok_def optional_def)
  then show ?thesis using assms dec_enc_message [of m]
    by (simp add: on_wire_def DecodeMessage_def EncodeMessage_def text_laws_def message_ok_def)
qed

lemma json_ascii_encrypted [simp]: "json_ascii (enc_encrypted e)"
  by (simp add: enc_encrypted_def)

end
