(* ===== verification/Compression.thy ===== *)
theory Compression
  imports Prelude
begin

text \<open>
  The compressors of \<^verbatim>\<open>internal/compression\<close>: the factory with its bounds on the level, and what each wrapper
  adds to its codec. The codecs (zstd, LZ4 blocks, gzip) are the parameter \<open>C\<close>, with \<open>codec_laws\<close> for what is used of them.
\<close>

section \<open>Codecs\<close>

record codecs =
  zstd_encode :: "int64 \<Rightarrow> bytes \<Rightarrow> bytes"
  zstd_decode :: "bytes \<Rightarrow> bytes option"
  gzip_encode :: "int64 \<Rightarrow> bytes \<Rightarrow> bytes"
  gzip_decode :: "bytes \<Rightarrow> bytes option"
  lz4_block :: "int64 \<Rightarrow> bytes \<Rightarrow> bytes option"
  lz4_unblock :: "bytes \<Rightarrow> nat \<Rightarrow> bytes option"

text \<open>
  Decoding inverts encoding; an LZ4 block does not know the size of its contents, the caller provides a
  buffer, and decoding fails when the buffer is too small. What is not empty is not encoded as nothing.
\<close>

definition codec_laws :: "codecs \<Rightarrow> bool" where
  "codec_laws C \<longleftrightarrow>
     (\<forall>l d. zstd_decode C (zstd_encode C l d) = Some d) \<and>
     (\<forall>l d. gzip_decode C (gzip_encode C l d) = Some d) \<and>
     (\<forall>l d. d \<noteq> [] \<longrightarrow> zstd_encode C l d \<noteq> [] \<and> gzip_encode C l d \<noteq> []) \<and>
     (\<forall>l d z n. lz4_block C l d = Some z \<longrightarrow> lz4_unblock C z n = (if length d \<le> n then Some d else None))"

section \<open>Compressors\<close>

datatype compressor = ZstdCompressor int64 | LZ4Compressor int64 | GzipCompressor int64 | NoOpCompressor

datatype compression_error = LevelOutOfRange string int64 | UnknownAlgorithm string

definition NewZstdCompressor :: "int64 \<Rightarrow> compression_error + compressor" where
  "NewZstdCompressor level =
     (if level < 1 \<or> level > 22 then Inl (LevelOutOfRange ''zstd'' level) else Inr (ZstdCompressor level))"

definition NewLZ4Compressor :: "int64 \<Rightarrow> compression_error + compressor" where
  "NewLZ4Compressor level =
     (if level < 1 \<or> level > 16 then Inl (LevelOutOfRange ''lz4'' level) else Inr (LZ4Compressor level))"

definition NewGzipCompressor :: "int64 \<Rightarrow> compression_error + compressor" where
  "NewGzipCompressor level =
     (if level < 1 \<or> level > 9 then Inl (LevelOutOfRange ''gzip'' level) else Inr (GzipCompressor level))"

definition NewCompressor :: "string \<Rightarrow> int64 \<Rightarrow> compression_error + compressor" where
  "NewCompressor alg level =
     (if alg = ''zstd'' then NewZstdCompressor level
      else if alg = ''lz4'' then NewLZ4Compressor level
      else if alg = ''gzip'' then NewGzipCompressor level
      else if alg = ''none'' then Inr NoOpCompressor
      else Inl (UnknownAlgorithm alg))"

definition ZstdCompress :: "codecs \<Rightarrow> int64 \<Rightarrow> bytes \<Rightarrow> bytes option" where
  [simp]: "ZstdCompress C level data = Some (zstd_encode C level data)"

definition ZstdDecompress :: "codecs \<Rightarrow> bytes \<Rightarrow> bytes option" where
  [simp]: "ZstdDecompress C data = zstd_decode C data"

text \<open>Writing to a buffer in memory does not fail, nor does the level, which was checked before.\<close>

definition GzipCompress :: "codecs \<Rightarrow> int64 \<Rightarrow> bytes \<Rightarrow> bytes option" where
  [simp]: "GzipCompress C level data = Some (gzip_encode C level data)"

definition GzipDecompress :: "codecs \<Rightarrow> bytes \<Rightarrow> bytes option" where
  [simp]: "GzipDecompress C data = gzip_decode C data"

definition LZ4Compress :: "codecs \<Rightarrow> int64 \<Rightarrow> bytes \<Rightarrow> bytes option" where
  [simp]: "LZ4Compress C level data = lz4_block C level data"

definition LZ4Decompress :: "codecs \<Rightarrow> bytes \<Rightarrow> bytes option" where
  [simp]: "LZ4Decompress C data = lz4_unblock C data (length data * 4)"

fun Compress :: "codecs \<Rightarrow> compressor \<Rightarrow> bytes \<Rightarrow> bytes option" where
  "Compress C (ZstdCompressor level) data = ZstdCompress C level data"
| "Compress C (LZ4Compressor level) data = LZ4Compress C level data"
| "Compress C (GzipCompressor level) data = GzipCompress C level data"
| "Compress C NoOpCompressor data = Some data"

fun Decompress :: "codecs \<Rightarrow> compressor \<Rightarrow> bytes \<Rightarrow> bytes option" where
  "Decompress C (ZstdCompressor level) data = ZstdDecompress C data"
| "Decompress C (LZ4Compressor level) data = LZ4Decompress C data"
| "Decompress C (GzipCompressor level) data = GzipDecompress C data"
| "Decompress C NoOpCompressor data = Some data"

definition DecompressWithSize :: "codecs \<Rightarrow> bytes \<Rightarrow> nat \<Rightarrow> bytes option" where
  "DecompressWithSize C data originalSize =
     (case lz4_unblock C data originalSize of
        None \<Rightarrow> None
      | Some d \<Rightarrow> if length d \<noteq> originalSize then None else Some d)"

fun Algorithm :: "compressor \<Rightarrow> string" where
  "Algorithm (ZstdCompressor _) = ''zstd''"
| "Algorithm (LZ4Compressor _) = ''lz4''"
| "Algorithm (GzipCompressor _) = ''gzip''"
| "Algorithm NoOpCompressor = ''none''"

section \<open>Properties\<close>

text \<open>What one peer compresses, another decompresses with the compressor it creates from the algorithm's
  name, whatever levels the two use; except that LZ4 gives up on data that it compressed to less than
  a quarter, because the buffer for the result is four times the compressed size.
\<close>

theorem compression_roundtrip:
  assumes "codec_laws C" "NewCompressor alg level = Inr c" "Compress C c d = Some z" "NewCompressor (Algorithm c) level' = Inr c'"
  shows "Decompress C c' z = (if alg = ''lz4'' \<and> 4 * length z < length d then None else Some d)"
proof -
  have laws: "zstd_decode C (zstd_encode C l d) = Some d" "gzip_decode C (gzip_encode C l d) = Some d"
    "lz4_block C l d = Some z \<Longrightarrow> lz4_unblock C z n = (if length d \<le> n then Some d else None)" for l n
    using assms(1) by (simp_all add: codec_laws_def)
  note new = NewCompressor_def NewZstdCompressor_def NewLZ4Compressor_def NewGzipCompressor_def
  show ?thesis
  proof (cases c)
    case (LZ4Compressor l)
    then show ?thesis using assms(2-4) laws(3) [of l "length z * 4"]
      by (auto simp: new split: if_splits)
  qed (use assms(2-4) laws in \<open>auto simp: new split: if_splits\<close>)
qed

lemma Decompress_Compress:
  assumes "codec_laws C" "NewCompressor alg level = Inr c" "Compress C c d = Some z" "alg \<noteq> ''lz4''"
  shows "\<exists>c'. NewCompressor alg 3 = Inr c' \<and> Decompress C c' z = Some d"
  using assms by (cases c)
    (auto simp: codec_laws_def NewCompressor_def NewZstdCompressor_def NewLZ4Compressor_def NewGzipCompressor_def split: if_splits)

lemma Compress_nonempty:
  "codec_laws C \<Longrightarrow> NewCompressor alg level = Inr c \<Longrightarrow> alg \<noteq> ''lz4'' \<Longrightarrow> Compress C c d = Some z \<Longrightarrow> d \<noteq> [] \<Longrightarrow> z \<noteq> []"
  by (cases c) (auto simp: codec_laws_def NewCompressor_def NewZstdCompressor_def NewLZ4Compressor_def NewGzipCompressor_def split: if_splits)

lemma NewCompressor_names: "NewCompressor alg level = Inr c \<Longrightarrow> alg \<in> {''zstd'', ''lz4'', ''gzip'', ''none''}"
  by (auto simp: NewCompressor_def split: if_splits)

text \<open>A toy instance: two byte strings change places, all others stay.\<close>

definition swap_bytes :: "bytes \<Rightarrow> bytes" where
  "swap_bytes d = (if d = ''a'' then ''aaaaaaaaaa'' else if d = ''aaaaaaaaaa'' then ''a'' else d)"

definition toy_codecs :: codecs where
  "toy_codecs =
     \<lparr>zstd_encode = (\<lambda>l. swap_bytes), zstd_decode = (\<lambda>z. Some (swap_bytes z)),
      gzip_encode = (\<lambda>l d. d), gzip_decode = Some, lz4_block = (\<lambda>l d. Some (swap_bytes d)),
      lz4_unblock = (\<lambda>z n. if length (swap_bytes z) \<le> n then Some (swap_bytes z) else None)\<rparr>"

lemma toy_codec_laws: "codec_laws toy_codecs"
  by (simp add: codec_laws_def toy_codecs_def swap_bytes_def)

theorem compression_roundtrip_witness:
  "Decompress toy_codecs (LZ4Compressor 9) ''a'' = None \<and> Decompress toy_codecs (ZstdCompressor 9) ''a'' = Some ''aaaaaaaaaa''"
proof
  show "Decompress toy_codecs (LZ4Compressor 9) ''a'' = None"
    using compression_roundtrip [OF toy_codec_laws, of "''lz4''" 3 "LZ4Compressor 3" "''aaaaaaaaaa''" "''a''" 9 "LZ4Compressor 9"]
    by (simp add: NewCompressor_def NewLZ4Compressor_def toy_codecs_def swap_bytes_def)
  show "Decompress toy_codecs (ZstdCompressor 9) ''a'' = Some ''aaaaaaaaaa''"
    using compression_roundtrip [OF toy_codec_laws, of "''zstd''" 3 "ZstdCompressor 3" "''aaaaaaaaaa''" "''a''" 9 "ZstdCompressor 9"]
    by (simp add: NewCompressor_def NewZstdCompressor_def toy_codecs_def swap_bytes_def)
qed

end
