(* ===== verification/Handler.thy ===== *)
theory Handler
  imports Messages Compression Connections ChunkManager
begin

text \<open>
  The handler of incoming messages, \<^verbatim>\<open>internal/network/handler.go\<close>. The record \<open>node\<close> holds the fields of the
  Go struct with the engine and the connection manager that they point to, and the messages handed to
  the transport (\<open>nd_out\<close>). The record \<open>environment\<close> holds what the handler calls: BLAKE3, the text of
  JSON, the codecs, the ciphers; \<open>ev_accepts\<close> says whether the transport takes a message, and
  \<open>ev_describe\<close> is the text of an error. A nil pointer and a failed type assertion panic: the outcome is \<open>Panicked\<close>.
\<close>

section \<open>State\<close>

datatype wait_error = ContextEnded | LimiterStopped

datatype failure =
    SyncEngineNotAvailable
  | StateDecodeFailed
  | NoPeerConnection string
  | SendRefused
  | FilesNotRequested failure
  | DecompressionFailed "compression_error option"
  | RenameHandlingFailed engine_error
  | ChunkHashWrong int string string
  | AssemblyFailed assemble_error
  | NoSenderConnection string
  | HandlingNotImplemented string
  | UnknownMessageType string
  | WrongPayload string
  | UnknownSender string
  | NoSessionKey string
  | CryptoFailed crypto_error
  | PayloadDecodeFailed
  | MissingCorrelationID
  | PeerNotConnected string
  | NotAcknowledged "failure option"
  | AckError string
  | AckTimeout
  | CompressionFailed
  | FlowControlFailed wait_error
  | FileNotRead fs_error
  | SyncOperationNotSent failure
  | ChunkNotSent int failure
  | ConnectFailed

record environment =
  ev_hash :: "bytes \<Rightarrow> bytes"
  ev_json :: json_text
  ev_codecs :: codecs
  ev_crypto :: primitives
  ev_accepts :: "string \<Rightarrow> string \<Rightarrow> int \<Rightarrow> message \<Rightarrow> bool"
  ev_describe :: "failure \<Rightarrow> string"

datatype outcome = Done | Failed failure | Panicked | Blocked

record node =
  nd_peer :: string
  nd_engine :: "engine option"
  nd_conns :: conn_manager
  nd_managed :: bool
  nd_transport :: bool
  nd_heartbeat :: bool
  nd_chunks :: "(string, chunk list) gomap"
  nd_metadata :: "(string, sync_op) gomap"
  nd_out :: "(string \<times> message) list"

definition NewNetworkMessageHandler :: "engine option \<Rightarrow> bool \<Rightarrow> conn_manager \<Rightarrow> string \<Rightarrow> node" where
  "NewNetworkMessageHandler syncEngine heartbeatManager conns peerID =
     \<lparr>nd_peer = peerID, nd_engine = syncEngine, nd_conns = conns, nd_managed = False, nd_transport = False,
      nd_heartbeat = heartbeatManager, nd_chunks = [], nd_metadata = [], nd_out = []\<rparr>"

definition SetTransport :: "node \<Rightarrow> node" where
  "SetTransport nd = nd\<lparr>nd_transport := True\<rparr>"

definition SetConnectionManager :: "conn_manager \<Rightarrow> node \<Rightarrow> node" where
  "SetConnectionManager cm nd = nd\<lparr>nd_conns := cm, nd_managed := True\<rparr>"

definition SetSyncEngine :: "engine option \<Rightarrow> node \<Rightarrow> node" where
  "SetSyncEngine e nd = nd\<lparr>nd_engine := e\<rparr>"

definition SetHeartbeatManager :: "bool \<Rightarrow> node \<Rightarrow> node" where
  "SetHeartbeatManager available nd = nd\<lparr>nd_heartbeat := available\<rparr>"

section \<open>Answers\<close>

definition transport_send :: "environment \<Rightarrow> string \<Rightarrow> connection \<Rightarrow> message \<Rightarrow> node \<Rightarrow> node \<times> bool" where
  "transport_send ev peerID conn m nd =
     (if ev_accepts ev peerID (cn_address conn) (cn_port conn) m
      then (nd\<lparr>nd_out := nd_out nd @ [(peerID, m)]\<rparr>, True) else (nd, False))"

definition ack_payload :: "environment \<Rightarrow> message \<Rightarrow> failure option \<Rightarrow> string \<times> payload" where
  "ack_payload ev msg err =
     (let text = (case err of None \<Rightarrow> [] | Some f \<Rightarrow> ev_describe ev f)
      in if ms_type msg = ''chunk''
         then (''chunk_ack'', ChunkAck \<lparr>ca_file_id = [], ca_chunk_id = 0, ca_success = (err = None), ca_error = text\<rparr>)
         else (''operation_ack'', OperationAck \<lparr>oa_operation_id = [], oa_success = (err = None), oa_error = text\<rparr>))"

definition sendAcknowledgment :: "environment \<Rightarrow> time \<Rightarrow> message \<Rightarrow> failure option \<Rightarrow> node \<Rightarrow> node \<times> outcome" where
  "sendAcknowledgment ev now msg err nd =
     (if \<not> nd_transport nd \<or> \<not> nd_managed nd then (nd, Done)
      else
        (case GetConnection (ms_sender msg) (nd_conns nd) of
           Inl _ \<Rightarrow> (nd, Failed (NoSenderConnection (ms_sender msg)))
         | Inr conn \<Rightarrow>
             (let (ackType, p) = ack_payload ev msg err;
                  ackMsg = WithCorrelationID (ms_id msg) (NewMessage now ackType (nd_peer nd) p);
                  (nd1, sent) = transport_send ev (ms_sender msg) conn ackMsg nd
              in (nd1, if sent then Done else Failed SendRefused))))"

section \<open>State declarations\<close>

definition getLocalFileManifest :: "engine \<Rightarrow> manifest_entry list" where
  "getLocalFileManifest e =
     map (\<lambda>f. \<lparr>mf_file_id = fm_file_id f, mf_path = fm_path f, mf_hash = fm_checksum f, mf_size = fm_size f,
               mf_mtime = unix_sec (fm_mtime f), mf_last_modified_by = fm_peer_id f\<rparr>) (GetAllFiles (en_db e))"

definition compareFileManifests :: "manifest_entry list \<Rightarrow> engine \<Rightarrow> manifest_entry list" where
  "compareFileManifests peerManifest e =
     (let localFileMap = fold (\<lambda>f. gm_put (fm_file_id f) f) (GetAllFiles (en_db e)) []
      in filter (\<lambda>peerFile. case map_of localFileMap (mf_file_id peerFile) of
                   None \<Rightarrow> True
                 | Some localFile \<Rightarrow> fm_checksum localFile \<noteq> mf_hash peerFile) peerManifest)"

text \<open>The connection manager must be there when a message is sent; a nil one panics.\<close>

definition requestMissingFiles :: "environment \<Rightarrow> time \<Rightarrow> string \<Rightarrow> manifest_entry list \<Rightarrow> node \<Rightarrow> node \<times> outcome" where
  "requestMissingFiles ev now peerID missingFiles nd =
     (if length missingFiles = 0 then (nd, Done)
      else if \<not> nd_managed nd then (nd, Panicked)
      else
        (let m = \<lparr>ms_id = GenerateMessageID now, ms_type = ''file_request'', ms_timestamp = 0, ms_sender = nd_peer nd,
                  ms_payload = FileRequest \<lparr>fq_files = map (\<lambda>f. (mf_file_id f, ''normal'')) missingFiles,
                                            fq_compression = True, fq_max_transfers = 5\<rparr>,
                  ms_correlation = None\<rparr>
         in case GetConnection peerID (nd_conns nd) of
              Inl _ \<Rightarrow> (nd, Failed (NoPeerConnection peerID))
            | Inr conn \<Rightarrow>
                if \<not> nd_transport nd then (nd, Panicked)
                else (let (nd1, sent) = transport_send ev peerID conn m nd
                      in (nd1, if sent then Done else Failed SendRefused))))"

text \<open>The part of \<open>handleStateDeclaration\<close> after the declaration is decoded.\<close>

definition answer_state :: "environment \<Rightarrow> time \<Rightarrow> message \<Rightarrow> state_message \<Rightarrow> engine \<Rightarrow> node \<Rightarrow> node \<times> outcome" where
  "answer_state ev now msg s e nd =
     (if length (sm_manifest s) = 0 then
        (let responseMsg = NewMessage now ''state_declaration'' (sm_peer_id s)
               (StateValue \<lparr>sm_peer_id = sm_peer_id s, sm_vector_clock = None, sm_manifest = getLocalFileManifest e,
                            sm_pending = []\<rparr>)
         in if \<not> nd_managed nd then (nd, Panicked)
            else (case GetConnection (sm_peer_id s) (nd_conns nd) of
                    Inl _ \<Rightarrow> sendAcknowledgment ev now msg (Some (NoPeerConnection (sm_peer_id s))) nd
                  | Inr conn \<Rightarrow>
                      if \<not> nd_transport nd then (nd, Panicked)
                      else (case transport_send ev (sm_peer_id s) conn responseMsg nd of
                              (nd1, True) \<Rightarrow> sendAcknowledgment ev now msg None nd1
                            | (nd1, False) \<Rightarrow> sendAcknowledgment ev now msg (Some SendRefused) nd1)))
      else
        (case requestMissingFiles ev now (sm_peer_id s) (compareFileManifests (sm_manifest s) e) nd of
           (nd1, Failed f) \<Rightarrow> sendAcknowledgment ev now msg (Some (FilesNotRequested f)) nd1
         | (nd1, Done) \<Rightarrow> sendAcknowledgment ev now msg None nd1
         | (nd1, r) \<Rightarrow> (nd1, r)))"

definition handleStateDeclaration :: "environment \<Rightarrow> time \<Rightarrow> message \<Rightarrow> node \<Rightarrow> node \<times> outcome" where
  "handleStateDeclaration ev now msg nd =
     (case nd_engine nd of
        None \<Rightarrow> sendAcknowledgment ev now msg (Some SyncEngineNotAvailable) nd
      | Some e \<Rightarrow>
          (case ms_payload msg of
             RawBytes d \<Rightarrow>
               (case DecodePayload (ev_json ev) d (ms_type msg) of
                  None \<Rightarrow> sendAcknowledgment ev now msg (Some StateDecodeFailed) nd
                | Some (StateValue s) \<Rightarrow> answer_state ev now msg s e nd
                | Some _ \<Rightarrow> (nd, Panicked))
           | _ \<Rightarrow> (nd, Panicked)))"

section \<open>Operations\<close>

definition decompressFileData :: "environment \<Rightarrow> bytes \<Rightarrow> string option \<Rightarrow> int option \<Rightarrow> failure + bytes" where
  "decompressFileData ev data alg level =
     (case alg of
        None \<Rightarrow> Inr data
      | Some a \<Rightarrow>
          (let compressionLevel = (case level of Some l \<Rightarrow> if l > 0 then l else 3 | None \<Rightarrow> 3)
           in case NewCompressor a compressionLevel of
                Inl e \<Rightarrow> Inl (DecompressionFailed (Some e))
              | Inr c \<Rightarrow> (case Decompress (ev_codecs ev) c data of
                            None \<Rightarrow> Inl (DecompressionFailed None)
                          | Some d \<Rightarrow> Inr d)))"

text \<open>The operation of a payload; without one of the four pointers, dereferencing it panics.\<close>

definition incoming_op :: "log_payload \<Rightarrow> sync_op option" where
  "incoming_op pl =
     (case (pl_file_id pl, pl_checksum pl, pl_size pl, pl_mtime pl) of
        (Some fileID, Some checksum, Some sz, Some mtime) \<Rightarrow>
          Some (zero_op\<lparr>so_id := pl_operation_id pl, so_type := pl_type pl, so_path := pl_path pl, so_file_id := fileID,
             so_checksum := checksum, so_size := sz, so_timestamp := pl_timestamp pl, so_peer_id := pl_peer_id pl,
             so_source := ''remote'', so_mtime := mtime, so_from_path := pl_from_path pl, so_mode := pl_mode pl,
             so_compressed := pl_compressed pl, so_original_size := pl_original_size pl,
             so_compression_algorithm := pl_compression_algorithm pl, so_vector_clock := pl_vector_clock pl\<rparr>)
      | _ \<Rightarrow> None)"

definition maybe_decompress :: "environment \<Rightarrow> bytes \<Rightarrow> sync_op \<Rightarrow> failure + bytes" where
  "maybe_decompress ev data op =
     (if so_compressed op = Some True
      then decompressFileData ev data (so_compression_algorithm op) (so_compression_level op) else Inr data)"

text \<open>A file with contents, and the announcement of one whose chunks follow.\<close>

definition expect_chunks :: "sync_op \<Rightarrow> node \<Rightarrow> node" where
  "expect_chunks op nd =
     nd\<lparr>nd_chunks := gm_del (so_file_id op) (nd_chunks nd), nd_metadata := gm_put (so_file_id op) op (nd_metadata nd)\<rparr>"

definition handle_contents :: "environment \<Rightarrow> time \<Rightarrow> message \<Rightarrow> bytes \<Rightarrow> sync_op \<Rightarrow> node \<Rightarrow> node \<times> outcome" where
  "handle_contents ev now msg data op nd =
     (if length data = 0 then sendAcknowledgment ev now msg None (expect_chunks op nd)
      else
        (case maybe_decompress ev data op of
           Inl f \<Rightarrow> sendAcknowledgment ev now msg (Some f) nd
         | Inr fileData \<Rightarrow>
             (case nd_engine nd of
                None \<Rightarrow> sendAcknowledgment ev now msg (Some SyncEngineNotAvailable) nd
              | Some e \<Rightarrow>
                  sendAcknowledgment ev now msg None (nd\<lparr>nd_engine := Some (HandleIncomingFile now fileData op e)\<rparr>))))"

text \<open>A rename without the old path is refused before the engine, which may be nil, is touched.\<close>

definition handleSyncOperation :: "environment \<Rightarrow> time \<Rightarrow> message \<Rightarrow> node \<Rightarrow> node \<times> outcome" where
  "handleSyncOperation ev now msg nd =
     (case ms_payload msg of
        LogEntry pl \<Rightarrow>
          (case incoming_op pl of
             None \<Rightarrow> (nd, Panicked)
           | Some op \<Rightarrow>
               if so_type op = OpCreate \<or> so_type op = OpUpdate then handle_contents ev now msg (pl_data pl) op nd
               else if so_type op = OpDelete then
                 (case nd_engine nd of
                    None \<Rightarrow> (nd, Panicked)
                  | Some e \<Rightarrow>
                      sendAcknowledgment ev now msg None (nd\<lparr>nd_engine := Some (HandleIncomingFile now [] op e)\<rparr>))
               else if so_type op = OpRename then
                 (case nd_engine nd of
                    None \<Rightarrow>
                      if so_from_path op = None
                      then sendAcknowledgment ev now msg (Some (RenameHandlingFailed MissingFromPath)) nd
                      else (nd, Panicked)
                  | Some e \<Rightarrow>
                      (case HandleIncomingRename now op e of
                         (e1, err) \<Rightarrow>
                           sendAcknowledgment ev now msg (map_option RenameHandlingFailed err) (nd\<lparr>nd_engine := Some e1\<rparr>)))
               else sendAcknowledgment ev now msg None nd)
      | _ \<Rightarrow> (nd, Failed (WrongPayload ''sync_operation'')))"

section \<open>Chunks\<close>

definition chunk_of :: "chunk_message \<Rightarrow> chunk" where
  "chunk_of c =
     \<lparr>ck_file_id = cm_file_id c, ck_id = cm_chunk_id c, ck_offset = cm_offset c, ck_length = cm_length c,
      ck_data = cm_data c, ck_hash = cm_chunk_hash c, ck_file_hash = [], ck_is_last = cm_is_last c,
      ck_total = cm_total_chunks c\<rparr>"

text \<open>The operation for an assembled file: the announced one with the size of the bytes that were sent.\<close>

definition assembled_op :: "message \<Rightarrow> chunk_message \<Rightarrow> bytes \<Rightarrow> node \<Rightarrow> sync_op" where
  "assembled_op msg c assembledData nd =
     (case map_of (nd_metadata nd) (cm_file_id c) of
        Some storedMetadata \<Rightarrow> storedMetadata\<lparr>so_size := int (length assembledData)\<rparr>
      | None \<Rightarrow> zero_op\<lparr>so_type := OpCreate, so_path := [], so_file_id := cm_file_id c, so_checksum := cm_file_hash c,
           so_size := int (length assembledData), so_peer_id := ms_sender msg, so_source := ''remote''\<rparr>)"

definition handle_assembled :: "environment \<Rightarrow> time \<Rightarrow> message \<Rightarrow> chunk_message \<Rightarrow> bytes \<Rightarrow> node \<Rightarrow> node \<times> outcome" where
  "handle_assembled ev now msg c assembledData nd =
     (let op = assembled_op msg c assembledData nd;
          nd1 = nd\<lparr>nd_chunks := gm_del (cm_file_id c) (nd_chunks nd), nd_metadata := gm_del (cm_file_id c) (nd_metadata nd)\<rparr>
      in case maybe_decompress ev assembledData op of
           Inl f \<Rightarrow> sendAcknowledgment ev now msg (Some f) nd1
         | Inr fileData \<Rightarrow>
             (case nd_engine nd1 of
                None \<Rightarrow> (nd1, Panicked)
              | Some e \<Rightarrow>
                  sendAcknowledgment ev now msg None (nd1\<lparr>nd_engine := Some (HandleIncomingFile now fileData op e)\<rparr>)))"

definition handleChunk :: "environment \<Rightarrow> time \<Rightarrow> message \<Rightarrow> node \<Rightarrow> node \<times> outcome" where
  "handleChunk ev now msg nd =
     (case ms_payload msg of
        ChunkMessage c \<Rightarrow>
          (case VerifyChunkHash (ev_hash ev) (chunk_of c) of
             Some (i, e, a) \<Rightarrow> sendAcknowledgment ev now msg (Some (ChunkHashWrong i e a)) nd
           | None \<Rightarrow>
               (let chunks = gm_get [] (nd_chunks nd) (cm_file_id c) @ [chunk_of c];
                    nd1 = nd\<lparr>nd_chunks := gm_put (cm_file_id c) chunks (nd_chunks nd)\<rparr>
                in if int (length chunks) = cm_total_chunks c then
                     (case AssembleChunks (ev_hash ev) chunks (cm_file_hash c) of
                        Inl AssemblePanic \<Rightarrow> (nd1, Panicked)
                      | Inl e \<Rightarrow> sendAcknowledgment ev now msg (Some (AssemblyFailed e)) nd1
                      | Inr assembledData \<Rightarrow> handle_assembled ev now msg c assembledData nd1)
                   else sendAcknowledgment ev now msg None nd1))
      | _ \<Rightarrow> (nd, Failed (WrongPayload ''chunk'')))"

section \<open>The other messages, and the dispatch\<close>

definition handleHeartbeat :: "time \<Rightarrow> message \<Rightarrow> node \<Rightarrow> node \<times> outcome" where
  "handleHeartbeat now msg nd =
     (if nd_heartbeat nd then (nd\<lparr>nd_conns := HandleHeartbeatResponse now (ms_sender msg) (nd_conns nd)\<rparr>, Done)
      else (nd, Done))"

definition handleFileRequest :: "environment \<Rightarrow> time \<Rightarrow> message \<Rightarrow> node \<Rightarrow> node \<times> outcome" where
  "handleFileRequest ev now msg nd = sendAcknowledgment ev now msg None nd"

definition handleChunkRequest :: "environment \<Rightarrow> time \<Rightarrow> message \<Rightarrow> node \<Rightarrow> node \<times> outcome" where
  "handleChunkRequest ev now msg nd = sendAcknowledgment ev now msg None nd"

text \<open>Discovery belongs to the transport, acknowledgments to the messenger; the handshake is not implemented here.\<close>

definition handleDiscovery :: "node \<Rightarrow> node \<times> outcome" where
  [simp]: "handleDiscovery nd = (nd, Done)"

definition handleDiscoveryResponse :: "node \<Rightarrow> node \<times> outcome" where
  [simp]: "handleDiscoveryResponse nd = (nd, Done)"

definition handleHandshake :: "node \<Rightarrow> node \<times> outcome" where
  [simp]: "handleHandshake nd = (nd, Failed (HandlingNotImplemented ''handshake''))"

definition handleHandshakeAck :: "node \<Rightarrow> node \<times> outcome" where
  [simp]: "handleHandshakeAck nd = (nd, Failed (HandlingNotImplemented ''handshake ack''))"

definition handleHandshakeComplete :: "node \<Rightarrow> node \<times> outcome" where
  [simp]: "handleHandshakeComplete nd = (nd, Failed (HandlingNotImplemented ''handshake complete''))"

definition handleOperationAck :: "node \<Rightarrow> node \<times> outcome" where
  [simp]: "handleOperationAck nd = (nd, Done)"

definition handleChunkAck :: "node \<Rightarrow> node \<times> outcome" where
  [simp]: "handleChunkAck nd = (nd, Done)"

definition RouteMessage :: "environment \<Rightarrow> time \<Rightarrow> message \<Rightarrow> node \<Rightarrow> node \<times> outcome" where
  "RouteMessage ev now msg nd =
     (let t = ms_type msg
      in if t = ''discovery'' then handleDiscovery nd
         else if t = ''discovery_response'' then handleDiscoveryResponse nd
         else if t = ''handshake'' then handleHandshake nd
         else if t = ''handshake_ack'' then handleHandshakeAck nd
         else if t = ''handshake_complete'' then handleHandshakeComplete nd
         else if t = ''state_declaration'' then handleStateDeclaration ev now msg nd
         else if t = ''file_request'' then handleFileRequest ev now msg nd
         else if t = ''sync_operation'' then handleSyncOperation ev now msg nd
         else if t = ''chunk'' then handleChunk ev now msg nd
         else if t = ''chunk_request'' then handleChunkRequest ev now msg nd
         else if t = ''operation_ack'' then handleOperationAck nd
         else if t = ''chunk_ack'' then handleChunkAck nd
         else if t = ''heartbeat'' then handleHeartbeat now msg nd
         else (nd, Failed (UnknownMessageType t)))"

section \<open>Lemmas\<close>

text \<open>An acknowledgment changes the outbox only, and never panics.\<close>

lemma out_self: "\<exists>out. nd = nd\<lparr>nd_out := out\<rparr>"
  by (rule exI [of _ "nd_out nd"]) simp

lemma send_frame: "\<exists>out. fst (transport_send ev peerID conn m nd) = nd\<lparr>nd_out := out\<rparr>"
  using out_self [of nd] by (auto simp: transport_send_def)

lemma ack_frame: "\<exists>out. fst (sendAcknowledgment ev now msg err nd) = nd\<lparr>nd_out := out\<rparr>"
proof (cases "\<not> nd_transport nd \<or> \<not> nd_managed nd")
  case True
  then show ?thesis using out_self by (auto simp: sendAcknowledgment_def)
next
  case False
  show ?thesis
  proof (cases "GetConnection (ms_sender msg) (nd_conns nd)")
    case (Inl e)
    then show ?thesis using False out_self by (auto simp: sendAcknowledgment_def)
  next
    case (Inr conn)
    obtain t p where p: "ack_payload ev msg err = (t, p)" by fastforce
    show ?thesis using False Inr p send_frame [of ev "ms_sender msg" conn "WithCorrelationID (ms_id msg) (NewMessage now t (nd_peer nd) p)" nd]
      by (simp add: sendAcknowledgment_def Let_def split_beta)
  qed
qed

lemma ack_fields [simp]:
  "nd_engine (fst (sendAcknowledgment ev now msg err nd)) = nd_engine nd"
  "nd_conns (fst (sendAcknowledgment ev now msg err nd)) = nd_conns nd"
  "nd_chunks (fst (sendAcknowledgment ev now msg err nd)) = nd_chunks nd"
  "nd_metadata (fst (sendAcknowledgment ev now msg err nd)) = nd_metadata nd"
  using ack_frame [of ev now msg err nd] by auto

lemma ack_outcome [simp]: "snd (sendAcknowledgment ev now msg err nd) \<noteq> Panicked" "snd (sendAcknowledgment ev now msg err nd) \<noteq> Blocked"
  by (auto simp: sendAcknowledgment_def Let_def split: sum.splits prod.splits if_splits)

text \<open>What a message does to the node besides its answer.\<close>

definition handled :: "environment \<Rightarrow> time \<Rightarrow> message \<Rightarrow> node \<Rightarrow> node \<Rightarrow> bool" where
  "handled ev now msg nd nd' \<longleftrightarrow>
     (\<exists>out. fst (RouteMessage ev now msg nd) = nd'\<lparr>nd_out := out\<rparr>) \<and> snd (RouteMessage ev now msg nd) \<noteq> Panicked"

lemma handled_ack: "RouteMessage ev now msg nd = sendAcknowledgment ev now msg err nd' \<Longrightarrow> handled ev now msg nd nd'"
  unfolding handled_def using ack_frame by simp

text \<open>The announcement of chunks, and a file with its contents.\<close>

lemma handled_announcement:
  assumes "ms_type msg = ''sync_operation''" "ms_payload msg = LogEntry pl" "incoming_op pl = Some op"
    and "so_type op = OpCreate \<or> so_type op = OpUpdate" "pl_data pl = []"
  shows "handled ev now msg nd (expect_chunks op nd)"
  by (rule handled_ack [where err = None]) (use assms in \<open>simp add: RouteMessage_def handleSyncOperation_def handle_contents_def\<close>)

lemma handled_contents:
  assumes "ms_type msg = ''sync_operation''" "ms_payload msg = LogEntry pl" "incoming_op pl = Some op"
    and "so_type op = OpCreate \<or> so_type op = OpUpdate" "pl_data pl \<noteq> []"
    and "maybe_decompress ev (pl_data pl) op = Inr d" "nd_engine nd = Some e"
  shows "handled ev now msg nd (nd\<lparr>nd_engine := Some (HandleIncomingFile now d op e)\<rparr>)"
  by (rule handled_ack [where err = None]) (use assms in \<open>simp add: RouteMessage_def handleSyncOperation_def handle_contents_def\<close>)

text \<open>A chunk that does not complete its file is stored; the one that completes it hands the file over.\<close>

lemma handled_chunk:
  assumes "ms_type msg = ''chunk''" "ms_payload msg = ChunkMessage c" "VerifyChunkHash (ev_hash ev) (chunk_of c) = None"
    and "chunks = gm_get [] (nd_chunks nd) (cm_file_id c) @ [chunk_of c]" "int (length chunks) \<noteq> cm_total_chunks c"
  shows "handled ev now msg nd (nd\<lparr>nd_chunks := gm_put (cm_file_id c) chunks (nd_chunks nd)\<rparr>)"
  by (rule handled_ack [where err = None]) (use assms in \<open>simp add: RouteMessage_def handleChunk_def Let_def\<close>)

lemma handled_last_chunk:
  assumes "ms_type msg = ''chunk''" "ms_payload msg = ChunkMessage c" "VerifyChunkHash (ev_hash ev) (chunk_of c) = None"
    and "chunks = gm_get [] (nd_chunks nd) (cm_file_id c) @ [chunk_of c]" "int (length chunks) = cm_total_chunks c"
    and "AssembleChunks (ev_hash ev) chunks (cm_file_hash c) = Inr z" "map_of (nd_metadata nd) (cm_file_id c) = Some op"
    and "maybe_decompress ev z (op\<lparr>so_size := int (length z)\<rparr>) = Inr d" "nd_engine nd = Some e"
  shows "handled ev now msg nd (nd\<lparr>nd_chunks := gm_del (cm_file_id c) (gm_put (cm_file_id c) chunks (nd_chunks nd)),
    nd_metadata := gm_del (cm_file_id c) (nd_metadata nd),
    nd_engine := Some (HandleIncomingFile now d (op\<lparr>so_size := int (length z)\<rparr>) e)\<rparr>)"
proof (rule handled_ack [where err = None])
  have "RouteMessage ev now msg nd = handleChunk ev now msg nd" using assms(1) by (simp add: RouteMessage_def)
  also have "\<dots> = handle_assembled ev now msg c z (nd\<lparr>nd_chunks := gm_put (cm_file_id c) chunks (nd_chunks nd)\<rparr>)"
    using assms(2,3,5,6) by (simp add: handleChunk_def Let_def assms(4) [symmetric])
  also have "\<dots> = sendAcknowledgment ev now msg None
     (nd\<lparr>nd_chunks := gm_del (cm_file_id c) (gm_put (cm_file_id c) chunks (nd_chunks nd)),
       nd_metadata := gm_del (cm_file_id c) (nd_metadata nd),
       nd_engine := Some (HandleIncomingFile now d (op\<lparr>so_size := int (length z)\<rparr>) e)\<rparr>)"
    using assms(7-9) by (simp add: handle_assembled_def assembled_op_def Let_def)
  finally show "RouteMessage ev now msg nd = \<dots>" .
qed

lemma handled_bad_assembly:
  assumes "ms_type msg = ''chunk''" "ms_payload msg = ChunkMessage c" "VerifyChunkHash (ev_hash ev) (chunk_of c) = None"
    and "chunks = gm_get [] (nd_chunks nd) (cm_file_id c) @ [chunk_of c]" "int (length chunks) = cm_total_chunks c"
    and "AssembleChunks (ev_hash ev) chunks (cm_file_hash c) = Inl err" "err \<noteq> AssemblePanic"
  shows "handled ev now msg nd (nd\<lparr>nd_chunks := gm_put (cm_file_id c) chunks (nd_chunks nd)\<rparr>)"
proof (rule handled_ack [where err = "Some (AssemblyFailed err)"])
  have "RouteMessage ev now msg nd = handleChunk ev now msg nd" using assms(1) by (simp add: RouteMessage_def)
  then show "RouteMessage ev now msg nd = sendAcknowledgment ev now msg (Some (AssemblyFailed err))
      (nd\<lparr>nd_chunks := gm_put (cm_file_id c) chunks (nd_chunks nd)\<rparr>)"
    using assms(2,3,5-7) by (cases err) (simp_all add: handleChunk_def Let_def assms(4) [symmetric])
qed

end
