(* ===== verification/Messenger.thy ===== *)
theory Messenger
  imports Handler FlowControl
begin

text \<open>
  The network messenger, \<^verbatim>\<open>internal/network/messenger.go\<close>: it encrypts and sends operations and files, waits
  for acknowledgments, and decrypts what arrives before the application handler of \<open>Handler\<close> gets it. The
  record \<open>messenger\<close> contains the \<open>node\<close> it shares with that handler. A \<open>send_step\<close> says what happens around
  one message that is sent: the time, the random nonce, the schedule of the flow control, and
  the messages that arrive while the sender waits for an answer or sleeps before the next attempt. Channels
  of acknowledgments have a capacity of one. A call that waits for ever has the outcome \<open>Blocked\<close>.
\<close>

section \<open>State\<close>

record net_config =
  nc_folder :: string
  nc_chunk_size :: int64
  nc_compression :: bool
  nc_threshold :: int64
  nc_algorithm :: string
  nc_level :: int64

record messenger =
  nm_config :: net_config
  nm_node :: node
  nm_compressor :: compressor
  nm_chunker :: chunker
  nm_flow :: flow_controller
  nm_has_handler :: bool
  nm_acks :: "(string, string option option) gomap"
  nm_ack_timeout :: int64
  nm_retry_count :: nat
  nm_retry_delay :: int64
  nm_peer :: string

definition NewNetworkMessenger :: "time \<Rightarrow> net_config \<Rightarrow> node \<Rightarrow> string \<Rightarrow> compression_error + messenger" where
  "NewNetworkMessenger now cfg nd peerID =
     (case NewCompressor (nc_algorithm cfg) (nc_level cfg) of
        Inl e \<Rightarrow> Inl e
      | Inr c \<Rightarrow>
          Inr \<lparr>nm_config = cfg, nm_node = nd, nm_compressor = c, nm_chunker = NewChunker (nc_chunk_size cfg),
               nm_flow = the (NewFlowController now (10 * 1024 * 1024) 5), nm_has_handler = False, nm_acks = [],
               nm_ack_timeout = 30 * 10 ^ 9, nm_retry_count = 3, nm_retry_delay = 10 ^ 9, nm_peer = peerID\<rparr>)"

definition SetMessageHandler :: "messenger \<Rightarrow> messenger" where
  "SetMessageHandler nm = nm\<lparr>nm_has_handler := True\<rparr>"

section \<open>Acknowledgments\<close>

definition trackAcknowledgment :: "string \<Rightarrow> messenger \<Rightarrow> messenger" where
  "trackAcknowledgment messageID nm = nm\<lparr>nm_acks := gm_put messageID None (nm_acks nm)\<rparr>"

definition untrackAcknowledgment :: "string \<Rightarrow> messenger \<Rightarrow> messenger" where
  "untrackAcknowledgment messageID nm = nm\<lparr>nm_acks := gm_del messageID (nm_acks nm)\<rparr>"

text \<open>Only the two typed payloads carry a failure; every other payload counts as a success.\<close>

definition ack_error :: "payload \<Rightarrow> string option" where
  "ack_error p =
     (case p of
        OperationAck a \<Rightarrow> if oa_success a then None else Some (''operation failed: '' @ oa_error a)
      | ChunkAck a \<Rightarrow> if ca_success a then None else Some (''chunk operation failed: '' @ ca_error a)
      | _ \<Rightarrow> None)"

definition handleAcknowledgment :: "message \<Rightarrow> messenger \<Rightarrow> messenger \<times> outcome" where
  "handleAcknowledgment msg nm =
     (if ms_correlation msg = None \<or> ms_correlation msg = Some [] then (nm, Failed MissingCorrelationID)
      else
        (let originalMessageID = the (ms_correlation msg)
         in case map_of (nm_acks nm) originalMessageID of
              None \<Rightarrow> (nm, Done)
            | Some None \<Rightarrow>
                (nm\<lparr>nm_acks := gm_put originalMessageID (Some (ack_error (ms_payload msg))) (nm_acks nm)\<rparr>, Done)
            | Some (Some _) \<Rightarrow> (nm, Done)))"

section \<open>Receiving\<close>

text \<open>A number of a JSON array is converted to a byte, of a number out of range the low eight bits.\<close>

fun byte_of_number :: "json \<Rightarrow> byte option" where
  "byte_of_number (JNum n) = Some (char_of (nat (n mod 256)))"
| "byte_of_number _ = None"

fun toByteSlice :: "json \<Rightarrow> bytes option" where
  "toByteSlice (JArr js) = those (map byte_of_number js)"
| "toByteSlice (JStr s) = DecodeString s"
| "toByteSlice _ = None"

definition encrypted_payload :: "payload \<Rightarrow> encrypted_message option" where
  "encrypted_payload p =
     (case p of
        Encrypted e \<Rightarrow> Some e
      | Generic (JObj kvs) \<Rightarrow>
          do {
            iv \<leftarrow> map_of (rev kvs) ''iv'';
            ct \<leftarrow> map_of (rev kvs) ''ciphertext'';
            tag \<leftarrow> map_of (rev kvs) ''tag'';
            ivBytes \<leftarrow> toByteSlice iv;
            ctBytes \<leftarrow> toByteSlice ct;
            tagBytes \<leftarrow> toByteSlice tag;
            Some \<lparr>em_iv = ivBytes, em_ciphertext = ctBytes, em_tag = tagBytes\<rparr>
          }
      | _ \<Rightarrow> None)"

text \<open>Acknowledgments stay here, all other messages go to the application handler.\<close>

definition dispatch :: "environment \<Rightarrow> time \<Rightarrow> message \<Rightarrow> messenger \<Rightarrow> messenger \<times> outcome" where
  "dispatch ev now msg nm =
     (if ms_type msg = ''operation_ack'' \<or> ms_type msg = ''chunk_ack'' then handleAcknowledgment msg nm
      else if nm_has_handler nm then
        (case RouteMessage ev now msg (nm_node nm) of (nd, r) \<Rightarrow> (nm\<lparr>nm_node := nd\<rparr>, r))
      else (nm, Done))"

definition ReceiveMessage :: "environment \<Rightarrow> time \<Rightarrow> message \<Rightarrow> messenger \<Rightarrow> messenger \<times> outcome" where
  "ReceiveMessage ev now msg nm =
     (case GetConnection (ms_sender msg) (nd_conns (nm_node nm)) of
        Inl _ \<Rightarrow> (nm, Failed (UnknownSender (ms_sender msg)))
      | Inr conn \<Rightarrow>
          (case encrypted_payload (ms_payload msg) of
             None \<Rightarrow> dispatch ev now msg nm
           | Some e \<Rightarrow>
               if length (cn_session_key conn) = 0 then (nm, Failed (NoSessionKey (ms_sender msg)))
               else
                 (case Decrypt (ev_crypto ev) e (cn_session_key conn) of
                    Inl err \<Rightarrow> (nm, Failed (CryptoFailed err))
                  | Inr decryptedData \<Rightarrow>
                      (case DecodePayload (ev_json ev) decryptedData (ms_type msg) of
                         None \<Rightarrow> (nm, Failed PayloadDecodeFailed)
                       | Some p \<Rightarrow> dispatch ev now (msg\<lparr>ms_payload := p\<rparr>) nm))))"

text \<open>The messages that arrive during a wait; \<open>False\<close> after a panic, which ends the program.\<close>

fun receive_messages :: "environment \<Rightarrow> (time \<times> message) list \<Rightarrow> messenger \<Rightarrow> messenger \<times> bool" where
  "receive_messages ev [] nm = (nm, True)"
| "receive_messages ev ((t, m) # ms) nm =
     (case ReceiveMessage ev t m nm of
        (nm1, r) \<Rightarrow> if r = Panicked then (nm1, False) else receive_messages ev ms nm1)"

section \<open>Sending\<close>

record send_step =
  st_now :: time
  st_iv :: bytes
  st_answers :: "nat \<Rightarrow> (time \<times> message) list"
  st_asleep :: "nat \<Rightarrow> (time \<times> message) list"
  st_global :: "limiter_action list"
  st_file :: "limiter_action list"

definition encryptMessagePayload :: "environment \<Rightarrow> bytes \<Rightarrow> message \<Rightarrow> bytes \<Rightarrow> failure + encrypted_message" where
  "encryptMessagePayload ev iv msg sessionKey =
     (if length sessionKey = 0 then Inl (NoSessionKey [])
      else (case Encrypt (ev_crypto ev) iv (EncodePayload (ev_json ev) (ms_payload msg)) sessionKey of
              Inl e \<Rightarrow> Inl (CryptoFailed e)
            | Inr m \<Rightarrow> Inr m))"

text \<open>One attempt: a refused transport, a negative answer and no answer lead to the next one.\<close>

definition attempt_send :: "environment \<Rightarrow> string \<Rightarrow> message \<Rightarrow> (time \<times> message) list \<Rightarrow> messenger \<Rightarrow> messenger \<times> (outcome + failure)" where
  "attempt_send ev peerID msg answers nm =
     (let nm1 = trackAcknowledgment (ms_id msg) nm
      in case GetConnection peerID (nd_conns (nm_node nm1)) of
           Inl _ \<Rightarrow> (nm1, Inl (Failed (PeerNotConnected peerID)))
         | Inr conn \<Rightarrow>
             (case transport_send ev peerID conn msg (nm_node nm1) of
                (nd, False) \<Rightarrow> (nm1\<lparr>nm_node := nd\<rparr>, Inr SendRefused)
              | (nd, True) \<Rightarrow>
                  (case receive_messages ev answers (nm1\<lparr>nm_node := nd\<rparr>) of
                     (nm2, False) \<Rightarrow> (nm2, Inl Panicked)
                   | (nm2, True) \<Rightarrow>
                       (case map_of (nm_acks nm2) (ms_id msg) of
                          Some (Some None) \<Rightarrow> (untrackAcknowledgment (ms_id msg) nm2, Inl Done)
                        | Some (Some (Some err)) \<Rightarrow> (nm2, Inr (AckError err))
                        | _ \<Rightarrow> (nm2, Inr AckTimeout)))))"

fun send_loop ::
  "environment \<Rightarrow> string \<Rightarrow> message \<Rightarrow> send_step \<Rightarrow> nat \<Rightarrow> nat \<Rightarrow> failure option \<Rightarrow> messenger \<Rightarrow> messenger \<times> outcome" where
  "send_loop ev peerID msg st attempt 0 lastErr nm =
     (untrackAcknowledgment (ms_id msg) nm, Failed (NotAcknowledged lastErr))"
| "send_loop ev peerID msg st attempt (Suc left) lastErr nm =
     (case (if attempt > 0 then receive_messages ev (st_asleep st attempt) nm else (nm, True)) of
        (nm1, False) \<Rightarrow> (nm1, Panicked)
      | (nm1, True) \<Rightarrow>
          (case attempt_send ev peerID msg (st_answers st attempt) nm1 of
             (nm2, Inl r) \<Rightarrow> (nm2, r)
           | (nm2, Inr err) \<Rightarrow> send_loop ev peerID msg st (Suc attempt) left (Some err) nm2))"

definition sendMessage :: "environment \<Rightarrow> string \<Rightarrow> message \<Rightarrow> send_step \<Rightarrow> messenger \<Rightarrow> messenger \<times> outcome" where
  "sendMessage ev peerID msg st nm =
     (case GetConnection peerID (nd_conns (nm_node nm)) of
        Inl _ \<Rightarrow> (nm, Failed (PeerNotConnected peerID))
      | Inr conn \<Rightarrow>
          (case encryptMessagePayload ev (st_iv st) msg (cn_session_key conn) of
             Inl f \<Rightarrow> (nm, Failed f)
           | Inr encrypted \<Rightarrow>
               send_loop ev peerID (msg\<lparr>ms_payload := Encrypted encrypted\<rparr>) st 0 (nm_retry_count nm) None nm))"

text \<open>The payload of an operation: the old path of a rename and the mode are not among its fields.\<close>

definition operation_payload :: "bytes \<Rightarrow> sync_op \<Rightarrow> log_payload" where
  "operation_payload fileData op =
     \<lparr>pl_operation_id = so_id op, pl_timestamp = so_timestamp op, pl_type = so_type op, pl_peer_id = so_peer_id op,
      pl_vector_clock = so_vector_clock op, pl_file_id = Some (so_file_id op), pl_path = so_path op,
      pl_from_path = None, pl_checksum = Some (so_checksum op), pl_size = Some (so_size op),
      pl_mtime = Some (so_mtime op), pl_mode = None, pl_data = fileData, pl_compressed = so_compressed op,
      pl_original_size = so_original_size op, pl_compression_algorithm = so_compression_algorithm op\<rparr>"

definition wait_bandwidth :: "string \<Rightarrow> int64 \<Rightarrow> send_step \<Rightarrow> messenger \<Rightarrow> messenger \<times> outcome" where
  "wait_bandwidth fileID n st nm =
     (case WaitFlow fileID n (st_global st) (st_file st) (nm_flow nm) of
        (r, fc) \<Rightarrow> (nm\<lparr>nm_flow := fc\<rparr>,
          case r of
            None \<Rightarrow> Blocked
          | Some Granted \<Rightarrow> Done
          | Some ContextError \<Rightarrow> Failed (FlowControlFailed ContextEnded)
          | Some LimiterError \<Rightarrow> Failed (FlowControlFailed LimiterStopped)))"

definition sendSyncOperation :: "environment \<Rightarrow> string \<Rightarrow> bytes \<Rightarrow> sync_op \<Rightarrow> send_step \<Rightarrow> messenger \<Rightarrow> messenger \<times> outcome" where
  "sendSyncOperation ev peerID fileData op st nm =
     (let msg = NewMessage (st_now st) ''sync_operation'' (so_peer_id op) (LogEntry (operation_payload fileData op))
      in if length fileData > 0 then
           (case wait_bandwidth (so_file_id op) (int (length fileData)) st nm of
              (nm1, Done) \<Rightarrow> sendMessage ev peerID msg st nm1
            | (nm1, r) \<Rightarrow> (nm1, r))
         else sendMessage ev peerID msg st nm)"

definition chunk_message_of :: "string \<Rightarrow> chunk \<Rightarrow> chunk_message" where
  "chunk_message_of chunkDataHash ck =
     \<lparr>cm_file_id = ck_file_id ck, cm_file_hash = chunkDataHash, cm_chunk_id = ck_id ck, cm_total_chunks = ck_total ck,
      cm_offset = ck_offset ck, cm_length = ck_length ck, cm_chunk_hash = ck_hash ck, cm_data = ck_data ck,
      cm_is_last = ck_is_last ck\<rparr>"

text \<open>The chunks one after the other, each with its own step.\<close>

fun send_chunks ::
  "environment \<Rightarrow> string \<Rightarrow> string \<Rightarrow> sync_op \<Rightarrow> chunk list \<Rightarrow> (nat \<Rightarrow> send_step) \<Rightarrow> nat \<Rightarrow> messenger \<Rightarrow> messenger \<times> outcome" where
  "send_chunks ev peerID chunkDataHash op [] steps i nm = (nm, Done)"
| "send_chunks ev peerID chunkDataHash op (ck # cks) steps i nm =
     (case wait_bandwidth (so_file_id op) (ck_length ck) (steps i) nm of
        (nm1, Done) \<Rightarrow>
          (case sendMessage ev peerID
                  (NewMessage (st_now (steps i)) ''chunk'' (so_peer_id op) (ChunkMessage (chunk_message_of chunkDataHash ck)))
                  (steps i) nm1 of
             (nm2, Done) \<Rightarrow> send_chunks ev peerID chunkDataHash op cks steps (Suc i) nm2
           | (nm2, Failed f) \<Rightarrow> (nm2, Failed (ChunkNotSent (ck_id ck) f))
           | (nm2, r) \<Rightarrow> (nm2, r))
      | (nm1, r) \<Rightarrow> (nm1, r))"

definition sendChunkedFile :: "environment \<Rightarrow> string \<Rightarrow> bytes \<Rightarrow> sync_op \<Rightarrow> (nat \<Rightarrow> send_step) \<Rightarrow> messenger \<Rightarrow> messenger \<times> outcome" where
  "sendChunkedFile ev peerID fileData op steps nm =
     (case ChunkFile (ev_hash ev) (nm_chunker nm) (so_file_id op) fileData of
        None \<Rightarrow> (nm, Panicked)
      | Some chunks \<Rightarrow>
          (case sendSyncOperation ev peerID [] op (steps 0) nm of
             (nm1, Done) \<Rightarrow> send_chunks ev peerID (HashString (ev_hash ev) fileData) op chunks steps 1 nm1
           | (nm1, Failed f) \<Rightarrow> (nm1, Failed (SyncOperationNotSent f))
           | (nm1, r) \<Rightarrow> (nm1, r)))"

text \<open>Compression sets the fields of the operation, which is the caller's.\<close>

definition compress_for_sending :: "environment \<Rightarrow> bytes \<Rightarrow> sync_op \<Rightarrow> messenger \<Rightarrow> (bytes \<times> sync_op) option" where
  "compress_for_sending ev fileData op nm =
     (if nc_compression (nm_config nm) \<and> int (length fileData) > nc_threshold (nm_config nm) then
        (case Compress (ev_codecs ev) (nm_compressor nm) fileData of
           None \<Rightarrow> None
         | Some z \<Rightarrow>
             Some (z, op\<lparr>so_compressed := Some True, so_original_size := Some (int (length fileData)),
                         so_compression_algorithm := Some (nc_algorithm (nm_config nm)),
                         so_compression_level := Some (nc_level (nm_config nm))\<rparr>))
      else Some (fileData, op\<lparr>so_compressed := Some False\<rparr>))"

definition send_file_to :: "environment \<Rightarrow> string \<Rightarrow> bytes \<Rightarrow> sync_op \<Rightarrow> (nat \<Rightarrow> send_step) \<Rightarrow> messenger \<Rightarrow> messenger \<times> sync_op \<times> outcome" where
  "send_file_to ev peerID fileData op steps nm =
     (case GetConnection peerID (nd_conns (nm_node nm)) of
        Inl _ \<Rightarrow> (nm, op, Failed (PeerNotConnected peerID))
      | Inr conn \<Rightarrow>
          if length (cn_session_key conn) = 0 then (nm, op, Failed (NoSessionKey peerID))
          else
            (let needsChunking = int (length fileData) > nc_chunk_size (nm_config nm)
             in case compress_for_sending ev fileData op nm of
                  None \<Rightarrow> (nm, op, Failed CompressionFailed)
                | Some (compressedData, op1) \<Rightarrow>
                    (case (if needsChunking then sendChunkedFile ev peerID compressedData op1 steps nm
                           else sendSyncOperation ev peerID compressedData op1 (steps 0) nm) of
                       (nm1, r) \<Rightarrow> (nm1, op1, r))))"

text \<open>A slot of the flow control is held during the transfer.\<close>

definition SendFileToPeer :: "environment \<Rightarrow> string \<Rightarrow> bytes \<Rightarrow> sync_op \<Rightarrow> (nat \<Rightarrow> send_step) \<Rightarrow> messenger \<Rightarrow> messenger \<times> sync_op \<times> outcome" where
  "SendFileToPeer ev peerID fileData op steps nm =
     (case AcquireTransferSlot (so_file_id op) (nm_flow nm) of
        None \<Rightarrow> (nm, op, Blocked)
      | Some fc \<Rightarrow>
          (case send_file_to ev peerID fileData op steps (nm\<lparr>nm_flow := fc\<rparr>) of
             (nm1, op1, Blocked) \<Rightarrow> (nm1, op1, Blocked)
           | (nm1, op1, r) \<Rightarrow>
               (case ReleaseTransferSlot (so_file_id op) (nm_flow nm1) of
                  None \<Rightarrow> (nm1, op1, Blocked)
                | Some fc1 \<Rightarrow> (nm1\<lparr>nm_flow := fc1\<rparr>, op1, r))))"

section \<open>Broadcasting\<close>

text \<open>
  The goroutine for one peer. A broadcast runs one for each connected peer except the operation's own; they are
  run here one after the other, in the order of the connections, with their own steps, on the disk \<open>s\<close>.
\<close>

definition broadcast_to :: "environment \<Rightarrow> fs \<Rightarrow> string \<Rightarrow> sync_op \<Rightarrow> (nat \<Rightarrow> send_step) \<Rightarrow> messenger \<Rightarrow> messenger \<times> sync_op \<times> outcome" where
  "broadcast_to ev s pid op steps nm =
     (if so_type op = OpCreate \<or> so_type op = OpUpdate then
        (case ReadFile (Join (nc_folder (nm_config nm)) (so_path op)) s of
           Inl err \<Rightarrow> (nm, op, Failed (FileNotRead err))
         | Inr fileData \<Rightarrow> SendFileToPeer ev pid fileData op steps nm)
      else (case sendSyncOperation ev pid [] op (steps 0) nm of (nm1, r) \<Rightarrow> (nm1, op, r)))"

fun broadcast_loop ::
  "environment \<Rightarrow> fs \<Rightarrow> string list \<Rightarrow> sync_op \<Rightarrow> (string \<Rightarrow> nat \<Rightarrow> send_step) \<Rightarrow> outcome \<Rightarrow> messenger \<Rightarrow> messenger \<times> sync_op \<times> outcome" where
  "broadcast_loop ev s [] op steps result nm = (nm, op, result)"
| "broadcast_loop ev s (pid # pids) op steps result nm =
     (if pid = so_peer_id op then broadcast_loop ev s pids op steps result nm
      else
        (case broadcast_to ev s pid op (steps pid) nm of
           (nm1, op1, Panicked) \<Rightarrow> (nm1, op1, Panicked)
         | (nm1, op1, Done) \<Rightarrow> broadcast_loop ev s pids op1 steps result nm1
         | (nm1, op1, r) \<Rightarrow> broadcast_loop ev s pids op1 steps (if result = Blocked then Blocked else r) nm1))"

definition BroadcastToPeers :: "environment \<Rightarrow> fs \<Rightarrow> sync_op \<Rightarrow> (string \<Rightarrow> nat \<Rightarrow> send_step) \<Rightarrow> messenger \<Rightarrow> messenger \<times> sync_op \<times> outcome" where
  "BroadcastToPeers ev s op steps nm =
     (let connectedPeers = GetConnectedPeers (nd_conns (nm_node nm))
      in if length connectedPeers = 0 then (nm, op, Done) else broadcast_loop ev s connectedPeers op steps Done nm)"

section \<open>Requests\<close>

definition RequestStateSync :: "environment \<Rightarrow> time \<Rightarrow> string \<Rightarrow> messenger \<Rightarrow> messenger \<times> outcome" where
  "RequestStateSync ev now peerID nm =
     (let msg = \<lparr>ms_id = GenerateMessageID now, ms_type = ''state_declaration'', ms_timestamp = 0, ms_sender = nm_peer nm,
                 ms_payload = StateValue \<lparr>sm_peer_id = peerID, sm_vector_clock = None, sm_manifest = [], sm_pending = []\<rparr>,
                 ms_correlation = None\<rparr>
      in case GetConnection peerID (nd_conns (nm_node nm)) of
           Inl _ \<Rightarrow> (nm, Failed (NoPeerConnection peerID))
         | Inr conn \<Rightarrow>
             (case transport_send ev peerID conn msg (nm_node nm) of
                (nd, sent) \<Rightarrow> (nm\<lparr>nm_node := nd\<rparr>, if sent then Done else Failed SendRefused)))"

text \<open>Dialling is the transport's work: it may add connections, and reports whether it succeeded.\<close>

definition ConnectToPeer :: "(conn_manager \<Rightarrow> conn_manager \<times> bool) \<Rightarrow> string \<Rightarrow> messenger \<Rightarrow> messenger \<times> outcome" where
  "ConnectToPeer dial peerID nm =
     (case dial (nd_conns (nm_node nm)) of
        (cm, ok) \<Rightarrow>
          (let nm1 = nm\<lparr>nm_node := (nm_node nm)\<lparr>nd_conns := cm\<rparr>\<rparr>
           in if \<not> ok then (nm1, Failed ConnectFailed)
              else (case GetSessionKey peerID cm of
                      Inl _ \<Rightarrow> (nm1, Failed (NoSessionKey peerID))
                    | Inr _ \<Rightarrow> (nm1, Done))))"

section \<open>Receiving from a peer\<close>

text \<open>
  \<open>carries\<close>: a message \<open>m\<close> from a peer with connection \<open>conn\<close> reaches the dispatch as the plain message \<open>p\<close>.
\<close>

definition carries :: "environment \<Rightarrow> connection \<Rightarrow> message \<Rightarrow> message \<Rightarrow> bool" where
  "carries ev conn m p \<longleftrightarrow>
     (\<forall>nm t. GetConnection (ms_sender m) (nd_conns (nm_node nm)) = Inr conn \<longrightarrow> ReceiveMessage ev t m nm = dispatch ev t p nm)"

lemma toByteSlice_bytes [simp]: "toByteSlice (JStr (EncodeToString d)) = Some d"
  by simp

lemma encrypted_payload_enc [simp]: "encrypted_payload (Generic (enc_encrypted e)) = Some e"
  by (simp add: encrypted_payload_def enc_encrypted_def obj_def)

lemma length_encrypted: "length (em_iv (\<lparr>em_iv = iv, em_ciphertext = c, em_tag = t\<rparr>)) = length iv"
  by simp

theorem encrypted_message_carries:
  assumes "aead_laws (ev_crypto ev)" "text_laws (ev_json ev)" "length (cn_session_key conn) = 32" "length iv = 12"
    and "message_ok p" "payload_ok (ms_payload p)" "json_ascii (enc_payload (ms_payload p))"
    and "payload_type (ms_payload p) = ms_type p"
    and "encryptMessagePayload ev iv p (cn_session_key conn) = Inr e"
  shows "\<exists>m. on_wire (ev_json ev) (p\<lparr>ms_payload := Encrypted e\<rparr>) = Some m \<and> ms_sender m = ms_sender p \<and> carries ev conn m p"
proof -
  let ?m = "p\<lparr>ms_payload := Generic (enc_encrypted e)\<rparr>"
  have w: "on_wire (ev_json ev) (p\<lparr>ms_payload := Encrypted e\<rparr>) = Some ?m"
    using on_wire_message [OF assms(2), of "p\<lparr>ms_payload := Encrypted e\<rparr>"] assms(5) by (simp add: message_ok_def)
  have "Encrypt (ev_crypto ev) iv (EncodePayload (ev_json ev) (ms_payload p)) (cn_session_key conn) = Inr e"
    using assms(3,9) by (auto simp: encryptMessagePayload_def split: if_splits sum.splits)
  then have d: "Decrypt (ev_crypto ev) e (cn_session_key conn) = Inr (EncodePayload (ev_json ev) (ms_payload p))"
    using Decrypt_Encrypt [OF assms(1,3,4), of "EncodePayload (ev_json ev) (ms_payload p)"] by auto
  have "DecodePayload (ev_json ev) (EncodePayload (ev_json ev) (ms_payload p)) (ms_type p) = Some (ms_payload p)"
    using assms(2,6-8) decode_enc_payload [OF assms(6)] by (simp add: DecodePayload_def EncodePayload_def text_laws_def)
  then have "carries ev conn ?m p" using d assms(3) by (auto simp: carries_def ReceiveMessage_def)
  then show ?thesis using w by auto
qed

lemma receive_step:
  assumes "carries ev conn m p" "GetConnection (ms_sender m) (nd_conns (nm_node nm)) = Inr conn" "nm_has_handler nm"
    and "ms_type p \<noteq> ''operation_ack''" "ms_type p \<noteq> ''chunk_ack''" "handled ev t p (nm_node nm) nd'"
  obtains out where "receive_messages ev ((t, m) # ms) nm = receive_messages ev ms (nm\<lparr>nm_node := nd'\<lparr>nd_out := out\<rparr>\<rparr>)"
proof -
  obtain out where o: "fst (RouteMessage ev t p (nm_node nm)) = nd'\<lparr>nd_out := out\<rparr>" "snd (RouteMessage ev t p (nm_node nm)) \<noteq> Panicked"
    using assms(6) by (auto simp: handled_def)
  have "ReceiveMessage ev t m nm = (nm\<lparr>nm_node := nd'\<lparr>nd_out := out\<rparr>\<rparr>, snd (RouteMessage ev t p (nm_node nm)))"
    using assms(1-5) o by (simp add: carries_def dispatch_def split_beta)
  then have "receive_messages ev ((t, m) # ms) nm = receive_messages ev ms (nm\<lparr>nm_node := nd'\<lparr>nd_out := out\<rparr>\<rparr>)" using o by simp
  then show ?thesis using that by blast
qed

text \<open>A message that carries a chunk of a file.\<close>

definition carries_chunk :: "environment \<Rightarrow> connection \<Rightarrow> string \<Rightarrow> string \<Rightarrow> message \<Rightarrow> chunk \<Rightarrow> bool" where
  "carries_chunk ev conn peer h m ck \<longleftrightarrow>
     ms_sender m = peer \<and> VerifyChunkHash (ev_hash ev) ck = None \<and>
     (\<exists>p. ms_type p = ''chunk'' \<and> ms_payload p = ChunkMessage (chunk_message_of h ck) \<and> carries ev conn m p)"

lemma chunk_message_fields [simp]:
  "cm_file_id (chunk_message_of h ck) = ck_file_id ck" "cm_file_hash (chunk_message_of h ck) = h"
  "cm_total_chunks (chunk_message_of h ck) = ck_total ck"
  "chunk_of (chunk_message_of h ck) = ck\<lparr>ck_file_hash := []\<rparr>"
  by (simp_all add: chunk_message_of_def chunk_of_def)

lemma Verify_file_hash [simp]: "VerifyChunkHash H (ck\<lparr>ck_file_hash := h\<rparr>) = VerifyChunkHash H ck"
  by (simp add: VerifyChunkHash_def Let_def)

text \<open>What a receiver holds of one file.\<close>

definition holds :: "connection \<Rightarrow> string \<Rightarrow> string \<Rightarrow> sync_op option \<Rightarrow> chunk list \<Rightarrow> engine \<Rightarrow> messenger \<Rightarrow> bool" where
  "holds conn peer fileID op chunks e nm \<longleftrightarrow>
     nm_has_handler nm \<and> GetConnection peer (nd_conns (nm_node nm)) = Inr conn \<and>
     map_of (nd_metadata (nm_node nm)) fileID = op \<and> gm_get [] (nd_chunks (nm_node nm)) fileID = chunks \<and>
     nd_engine (nm_node nm) = Some e"

lemma receive_chunk:
  assumes "holds conn peer fileID op got e nm" "carries_chunk ev conn peer h m ck" "ck_file_id ck = fileID"
    and "int (Suc (length got)) \<noteq> ck_total ck"
  obtains nm' where "receive_messages ev ((t, m) # ms) nm = receive_messages ev ms nm'"
    "holds conn peer fileID op (got @ [ck\<lparr>ck_file_hash := []\<rparr>]) e nm'"
proof -
  obtain p where p: "ms_type p = ''chunk''" "ms_payload p = ChunkMessage (chunk_message_of h ck)" "carries ev conn m p"
    using assms(2) by (auto simp: carries_chunk_def)
  have g: "gm_get [] (nd_chunks (nm_node nm)) fileID = got" using assms(1) by (simp add: holds_def)
  have h: "handled ev t p (nm_node nm)
      ((nm_node nm)\<lparr>nd_chunks := gm_put fileID (got @ [ck\<lparr>ck_file_hash := []\<rparr>]) (nd_chunks (nm_node nm))\<rparr>)"
    using handled_chunk [OF p(1,2), of ev "got @ [ck\<lparr>ck_file_hash := []\<rparr>]" "nm_node nm" t] assms(2-4) g
    by (simp add: carries_chunk_def)
  have s: "ms_sender m = peer" using assms(2) by (simp add: carries_chunk_def)
  have c: "GetConnection (ms_sender m) (nd_conns (nm_node nm)) = Inr conn" "nm_has_handler nm"
    "ms_type p \<noteq> ''operation_ack''" "ms_type p \<noteq> ''chunk_ack''"
    using assms(1) s p(1) by (simp_all add: holds_def)
  obtain out where r: "receive_messages ev ((t, m) # ms) nm = receive_messages ev ms
     (nm\<lparr>nm_node := (nm_node nm)\<lparr>nd_chunks := gm_put fileID (got @ [ck\<lparr>ck_file_hash := []\<rparr>]) (nd_chunks (nm_node nm)), nd_out := out\<rparr>\<rparr>)"
    using receive_step [OF p(3) c h, of ms] by auto
  show ?thesis by (rule that [OF r]) (use assms(1) in \<open>simp add: holds_def store_laws\<close>)
qed

lemma receive_chunks:
  assumes "holds conn peer fileID op got e nm"
    and "\<forall>(t, m, ck) \<in> set L. carries_chunk ev conn peer h m ck \<and> ck_file_id ck = fileID \<and> ck_total ck = int n"
    and "length got + length L < n \<or> n \<le> length got"
  shows "\<exists>nm'. receive_messages ev (map (\<lambda>(t, m, ck). (t, m)) L @ ms) nm = receive_messages ev ms nm' \<and>
    holds conn peer fileID op (got @ map (\<lambda>(t, m, ck). ck\<lparr>ck_file_hash := []\<rparr>) L) e nm'"
  using assms
proof (induction L arbitrary: got nm)
  case (Cons x L)
  obtain t m ck where x: "x = (t, m, ck)" by (cases x)
  have c: "carries_chunk ev conn peer h m ck" "ck_file_id ck = fileID" "int (Suc (length got)) \<noteq> ck_total ck"
    using Cons.prems(2,3) by (auto simp: x)
  obtain nm1 where r: "receive_messages ev ((t, m) # map (\<lambda>(t, m, ck). (t, m)) L @ ms) nm =
      receive_messages ev (map (\<lambda>(t, m, ck). (t, m)) L @ ms) nm1"
    and h1: "holds conn peer fileID op (got @ [ck\<lparr>ck_file_hash := []\<rparr>]) e nm1"
    using receive_chunk [OF Cons.prems(1) c] .
  have "length (got @ [ck\<lparr>ck_file_hash := []\<rparr>]) + length L < n \<or> n \<le> length (got @ [ck\<lparr>ck_file_hash := []\<rparr>])"
    using Cons.prems(3) by auto
  from Cons.IH [OF h1 _ this] Cons.prems(2) r x show ?case by simp
qed auto

lemma receive_last_chunk:
  assumes "holds conn peer fileID (Some op) got e nm" "carries_chunk ev conn peer h m ck" "ck_file_id ck = fileID"
    and "int (Suc (length got)) = ck_total ck" "AssembleChunks (ev_hash ev) (got @ [ck\<lparr>ck_file_hash := []\<rparr>]) h = Inr z"
    and "maybe_decompress ev z (op\<lparr>so_size := int (length z)\<rparr>) = Inr d"
  obtains nm' where "receive_messages ev ((t, m) # ms) nm = receive_messages ev ms nm'"
    "holds conn peer fileID None [] (HandleIncomingFile t d (op\<lparr>so_size := int (length z)\<rparr>) e) nm'"
proof -
  obtain p where p: "ms_type p = ''chunk''" "ms_payload p = ChunkMessage (chunk_message_of h ck)" "carries ev conn m p"
    using assms(2) by (auto simp: carries_chunk_def)
  let ?cs = "got @ [ck\<lparr>ck_file_hash := []\<rparr>]" and ?nd = "nm_node nm"
  let ?nd' = "?nd\<lparr>nd_chunks := gm_del fileID (gm_put fileID ?cs (nd_chunks ?nd)), nd_metadata := gm_del fileID (nd_metadata ?nd),
      nd_engine := Some (HandleIncomingFile t d (op\<lparr>so_size := int (length z)\<rparr>) e)\<rparr>"
  have g: "gm_get [] (nd_chunks ?nd) fileID = got" "nd_engine ?nd = Some e" "map_of (nd_metadata ?nd) fileID = Some op"
    using assms(1) by (simp_all add: holds_def)
  have h: "handled ev t p ?nd ?nd'"
    using handled_last_chunk [OF p(1,2), of ev ?cs ?nd z op d e t] assms(2-6) g by (simp add: carries_chunk_def)
  have c: "GetConnection (ms_sender m) (nd_conns ?nd) = Inr conn" "nm_has_handler nm"
    "ms_type p \<noteq> ''operation_ack''" "ms_type p \<noteq> ''chunk_ack''"
    using assms(1,2) p(1) by (simp_all add: holds_def carries_chunk_def)
  obtain out where r: "receive_messages ev ((t, m) # ms) nm = receive_messages ev ms (nm\<lparr>nm_node := ?nd'\<lparr>nd_out := out\<rparr>\<rparr>)"
    using receive_step [OF p(3) c h, of ms] by auto
  show ?thesis by (rule that [OF r]) (use assms(1) in \<open>simp add: holds_def store_laws\<close>)
qed

lemma receive_bad_chunk:
  assumes "holds conn peer fileID op got e nm" "carries_chunk ev conn peer h m ck" "ck_file_id ck = fileID"
    and "int (Suc (length got)) = ck_total ck" "AssembleChunks (ev_hash ev) (got @ [ck\<lparr>ck_file_hash := []\<rparr>]) h = Inl err"
    and "err \<noteq> AssemblePanic"
  obtains nm' where "receive_messages ev ((t, m) # ms) nm = receive_messages ev ms nm'"
    "holds conn peer fileID op (got @ [ck\<lparr>ck_file_hash := []\<rparr>]) e nm'"
proof -
  obtain p where p: "ms_type p = ''chunk''" "ms_payload p = ChunkMessage (chunk_message_of h ck)" "carries ev conn m p"
    using assms(2) by (auto simp: carries_chunk_def)
  let ?cs = "got @ [ck\<lparr>ck_file_hash := []\<rparr>]" and ?nd = "nm_node nm"
  have g: "gm_get [] (nd_chunks ?nd) fileID = got" using assms(1) by (simp add: holds_def)
  have h: "handled ev t p ?nd (?nd\<lparr>nd_chunks := gm_put fileID ?cs (nd_chunks ?nd)\<rparr>)"
    using handled_bad_assembly [OF p(1,2), of ev ?cs ?nd err t] assms(2-6) g by (simp add: carries_chunk_def)
  have c: "GetConnection (ms_sender m) (nd_conns ?nd) = Inr conn" "nm_has_handler nm"
    "ms_type p \<noteq> ''operation_ack''" "ms_type p \<noteq> ''chunk_ack''"
    using assms(1,2) p(1) by (simp_all add: holds_def carries_chunk_def)
  obtain out where r: "receive_messages ev ((t, m) # ms) nm =
      receive_messages ev ms (nm\<lparr>nm_node := ?nd\<lparr>nd_chunks := gm_put fileID ?cs (nd_chunks ?nd), nd_out := out\<rparr>\<rparr>)"
    using receive_step [OF p(3) c h, of ms] by auto
  show ?thesis by (rule that [OF r]) (use assms(1) in \<open>simp add: holds_def store_laws\<close>)
qed

lemma receive_announcement:
  assumes "holds conn peer fileID mo got e nm" "carries ev conn m p" "ms_sender m = peer"
    and "ms_type p = ''sync_operation''" "ms_payload p = LogEntry pl" "incoming_op pl = Some op"
    and "so_type op = OpCreate \<or> so_type op = OpUpdate" "pl_data pl = []" "so_file_id op = fileID"
  obtains nm' where "receive_messages ev ((t, m) # ms) nm = receive_messages ev ms nm'"
    "holds conn peer fileID (Some op) [] e nm'"
proof -
  have h: "handled ev t p (nm_node nm) (expect_chunks op (nm_node nm))"
    by (rule handled_announcement [OF assms(4-8)])
  have c: "GetConnection (ms_sender m) (nd_conns (nm_node nm)) = Inr conn" "nm_has_handler nm"
    "ms_type p \<noteq> ''operation_ack''" "ms_type p \<noteq> ''chunk_ack''"
    using assms(1,3,4) by (simp_all add: holds_def)
  obtain out where r: "receive_messages ev ((t, m) # ms) nm =
      receive_messages ev ms (nm\<lparr>nm_node := (expect_chunks op (nm_node nm))\<lparr>nd_out := out\<rparr>\<rparr>)"
    using receive_step [OF assms(2) c h, of ms] by auto
  show ?thesis by (rule that [OF r]) (use assms(1,9) in \<open>simp add: holds_def expect_chunks_def store_laws\<close>)
qed

lemma file_chunks_hash [simp]: "ck \<in> set (file_chunks H f k data) \<Longrightarrow> ck\<lparr>ck_file_hash := []\<rparr> = ck"
  by (auto simp: file_chunks_def file_chunk_def Let_def)

text \<open>The announcement, and then the chunks of the file in any order.\<close>

lemma receive_transfer:
  assumes "holds conn peer fileID mo got e nm" "carries ev conn m p" "ms_sender m = peer"
    and "ms_type p = ''sync_operation''" "ms_payload p = LogEntry pl" "incoming_op pl = Some op"
    and "so_type op = OpCreate \<or> so_type op = OpUpdate" "pl_data pl = []" "so_file_id op = fileID"
    and chunks: "\<forall>(t, m, ck) \<in> set L. carries_chunk ev conn peer (HashString (ev_hash ev) z) m ck"
    and perm: "mset (map (\<lambda>(t, m, ck). ck) L) = mset (file_chunks (ev_hash ev) fileID k z)"
    and k: "0 < k" "in_int64 (int (length z))"
    and d: "maybe_decompress ev z (op\<lparr>so_size := int (length z)\<rparr>) = Inr d"
  shows "\<exists>nm' t'. receive_messages ev ((t, m) # map (\<lambda>(t, m, ck). (t, m)) L) nm = (nm', True) \<and>
    holds conn peer fileID None [] (HandleIncomingFile t' d (op\<lparr>so_size := int (length z)\<rparr>) e) nm'"
proof -
  let ?n = "chunk_count k (length z)"
  have set_L: "ck \<in> set (file_chunks (ev_hash ev) fileID k z)" if "(t, m, ck) \<in> set L" for t m ck
    using mset_eq_setD [OF perm] that by force
  have len: "length L = ?n" using mset_eq_length [OF perm] by (simp add: length_file_chunks)
  then obtain L' t' m' ck' where L: "L = L' @ [(t', m', ck')]" using chunk_count_pos [of k "length z"]
    by (cases L rule: rev_cases) auto
  obtain nm1 where r1: "receive_messages ev ((t, m) # map (\<lambda>(t, m, ck). (t, m)) L) nm =
      receive_messages ev (map (\<lambda>(t, m, ck). (t, m)) L) nm1" and h1: "holds conn peer fileID (Some op) [] e nm1"
    using receive_announcement [OF assms(1-9)] .
  have all: "\<forall>(t, m, ck) \<in> set L'. carries_chunk ev conn peer (HashString (ev_hash ev) z) m ck \<and> ck_file_id ck = fileID \<and> ck_total ck = int ?n"
    using chunks set_L unfolding L by (fastforce simp: file_chunks_def)
  obtain nm2 where r2: "receive_messages ev (map (\<lambda>(t, m, ck). (t, m)) L' @ [(t', m')]) nm1 = receive_messages ev [(t', m')] nm2"
    and h2: "holds conn peer fileID (Some op) ([] @ map (\<lambda>(t, m, ck). ck\<lparr>ck_file_hash := []\<rparr>) L') e nm2"
    using receive_chunks [OF h1 all, of "[(t', m')]"] len L by auto
  have m: "map (\<lambda>(t, m, ck). ck\<lparr>ck_file_hash := []\<rparr>) L = map (\<lambda>(t, m, ck). ck) L"
    by (rule map_cong) (auto dest: set_L)
  have ck': "carries_chunk ev conn peer (HashString (ev_hash ev) z) m' ck'" "ck_file_id ck' = fileID" "ck_total ck' = int ?n"
    using chunks set_L [of t' m' ck'] unfolding L by (auto simp: file_chunks_def)
  have "AssembleChunks (ev_hash ev) (map (\<lambda>(t, m, ck). ck) L) (HashString (ev_hash ev) z) = Inr z"
    using AssembleChunks_file_chunks [OF k perm] by simp
  then have "AssembleChunks (ev_hash ev) (map (\<lambda>(t, m, ck). ck\<lparr>ck_file_hash := []\<rparr>) L) (HashString (ev_hash ev) z) = Inr z"
    by (simp only: m)
  then have a: "AssembleChunks (ev_hash ev) (map (\<lambda>(t, m, ck). ck\<lparr>ck_file_hash := []\<rparr>) L' @ [ck'\<lparr>ck_file_hash := []\<rparr>])
      (HashString (ev_hash ev) z) = Inr z"
    by (simp add: L)
  obtain nm3 where r3: "receive_messages ev [(t', m')] nm2 = receive_messages ev [] nm3"
    and h3: "holds conn peer fileID None [] (HandleIncomingFile t' d (op\<lparr>so_size := int (length z)\<rparr>) e) nm3"
    using receive_last_chunk [OF h2 ck'(1,2) _ _ d, of t' "[]"] a ck'(3) len L by auto
  show ?thesis using r1 r2 r3 h3 by (auto simp: L)
qed

lemma receive_contents:
  assumes "holds conn peer fileID mo got e nm" "carries ev conn m p" "ms_sender m = peer"
    and "ms_type p = ''sync_operation''" "ms_payload p = LogEntry pl" "incoming_op pl = Some op"
    and "so_type op = OpCreate \<or> so_type op = OpUpdate" "pl_data pl \<noteq> []" "maybe_decompress ev (pl_data pl) op = Inr d"
  shows "\<exists>nm'. receive_messages ev [(t, m)] nm = (nm', True) \<and> holds conn peer fileID mo got (HandleIncomingFile t d op e) nm'"
proof -
  have c: "GetConnection (ms_sender m) (nd_conns (nm_node nm)) = Inr conn" "nm_has_handler nm"
    "ms_type p \<noteq> ''operation_ack''" "ms_type p \<noteq> ''chunk_ack''" "nd_engine (nm_node nm) = Some e"
    using assms(1,3,4) by (simp_all add: holds_def)
  have h: "handled ev t p (nm_node nm) ((nm_node nm)\<lparr>nd_engine := Some (HandleIncomingFile t d op e)\<rparr>)"
    by (rule handled_contents [OF assms(4-9) c(5)])
  obtain out where "receive_messages ev [(t, m)] nm =
      receive_messages ev [] (nm\<lparr>nm_node := (nm_node nm)\<lparr>nd_engine := Some (HandleIncomingFile t d op e), nd_out := out\<rparr>\<rparr>)"
    using receive_step [OF assms(2) c(1-4) h, of "[]"] by auto
  then show ?thesis using assms(1) by (simp add: holds_def)
qed

section \<open>Sending to a peer\<close>

text \<open>The first answer to a message is a positive acknowledgment of a connected peer, and the only message that arrives.\<close>

definition answered :: "conn_manager \<Rightarrow> send_step \<Rightarrow> bool" where
  "answered cm st =
     (case st_answers st 0 of
        [(t, a)] \<Rightarrow>
          (ms_type a = ''operation_ack'' \<or> ms_type a = ''chunk_ack'') \<and> encrypted_payload (ms_payload a) = None \<and>
          ack_error (ms_payload a) = None \<and> ms_correlation a = Some (GenerateMessageID (st_now st)) \<and>
          map_of (cm_connections cm) (ms_sender a) \<noteq> None
      | _ \<Rightarrow> False)"

text \<open>\<open>sent nm ms nm'\<close>: on the way from \<open>nm\<close> to \<open>nm'\<close> the transport took the messages \<open>ms\<close>.\<close>

definition sent :: "messenger \<Rightarrow> (string \<times> message) list \<Rightarrow> messenger \<Rightarrow> bool" where
  "sent nm ms nm' \<longleftrightarrow> (\<exists>acks flow. nm' = nm\<lparr>nm_node := (nm_node nm)\<lparr>nd_out := nd_out (nm_node nm) @ ms\<rparr>, nm_acks := acks, nm_flow := flow\<rparr>)"

lemma sent_trans:
  assumes "sent nm ms nm1" "sent nm1 ms1 nm2"
  shows "sent nm (ms @ ms1) nm2"
proof -
  obtain acks flow acks' flow' where
    "nm1 = nm\<lparr>nm_node := (nm_node nm)\<lparr>nd_out := nd_out (nm_node nm) @ ms\<rparr>, nm_acks := acks, nm_flow := flow\<rparr>"
    "nm2 = nm1\<lparr>nm_node := (nm_node nm1)\<lparr>nd_out := nd_out (nm_node nm1) @ ms1\<rparr>, nm_acks := acks', nm_flow := flow'\<rparr>"
    using assms unfolding sent_def by blast
  then have "nm2 = nm\<lparr>nm_node := (nm_node nm)\<lparr>nd_out := nd_out (nm_node nm) @ ms @ ms1\<rparr>, nm_acks := acks', nm_flow := flow'\<rparr>" by simp
  then show ?thesis unfolding sent_def by blast
qed

lemma sent_Nil: "sent nm [] (nm\<lparr>nm_flow := fc\<rparr>)"
  unfolding sent_def by (rule exI [of _ "nm_acks nm"], rule exI [of _ fc]) simp

lemma sent_fields:
  "sent nm ms nm' \<Longrightarrow> nd_conns (nm_node nm') = nd_conns (nm_node nm) \<and> nm_retry_count nm' = nm_retry_count nm \<and>
     nd_out (nm_node nm') = nd_out (nm_node nm) @ ms"
  by (auto simp: sent_def)

lemma GenerateMessageID_nonempty [simp]: "GenerateMessageID now \<noteq> []"
  by (simp add: GenerateMessageID_def)

lemma receive_answer:
  assumes "answered (nd_conns (nm_node nm)) st" "map_of (nm_acks nm) (GenerateMessageID (st_now st)) = Some None"
  shows "receive_messages ev (st_answers st 0) nm = (nm\<lparr>nm_acks := gm_put (GenerateMessageID (st_now st)) (Some None) (nm_acks nm)\<rparr>, True)"
proof -
  obtain t a where a: "st_answers st 0 = [(t, a)]"
    using assms(1) by (cases "st_answers st 0" rule: remdups_adj.cases) (auto simp: answered_def)
  obtain conn where c: "GetConnection (ms_sender a) (nd_conns (nm_node nm)) = Inr conn"
    using assms(1) by (auto simp: answered_def a GetConnection_def)
  have "ReceiveMessage ev t a nm = handleAcknowledgment a nm"
    using assms(1) c by (auto simp: answered_def a ReceiveMessage_def dispatch_def)
  also have "\<dots> = (nm\<lparr>nm_acks := gm_put (GenerateMessageID (st_now st)) (Some None) (nm_acks nm)\<rparr>, Done)"
    using assms by (simp add: answered_def a handleAcknowledgment_def)
  finally show ?thesis by (simp add: a)
qed

definition sealed :: "environment \<Rightarrow> bytes \<Rightarrow> send_step \<Rightarrow> message \<Rightarrow> message" where
  "sealed ev key st msg = msg\<lparr>ms_payload := Encrypted (projr (encryptMessagePayload ev (st_iv st) msg key))\<rparr>"

lemma encrypt_total: "length key = 32 \<Longrightarrow> \<exists>e. encryptMessagePayload ev iv msg key = Inr e"
  by (auto simp: encryptMessagePayload_def Encrypt_def KeySizeAES_def Let_def)

lemma sendMessage_answered:
  assumes "GetConnection peer (nd_conns (nm_node nm)) = Inr conn" "length (cn_session_key conn) = 32"
    and "\<forall>m. ev_accepts ev peer (cn_address conn) (cn_port conn) m" "answered (nd_conns (nm_node nm)) st"
    and "ms_id msg = GenerateMessageID (st_now st)" "0 < nm_retry_count nm"
  shows "\<exists>nm'. sendMessage ev peer msg st nm = (nm', Done) \<and> sent nm [(peer, sealed ev (cn_session_key conn) st msg)] nm'"
proof -
  let ?i = "GenerateMessageID (st_now st)"
  obtain e where e: "encryptMessagePayload ev (st_iv st) msg (cn_session_key conn) = Inr e" using encrypt_total [OF assms(2)] by blast
  let ?m = "msg\<lparr>ms_payload := Encrypted e\<rparr>"
  have s: "sealed ev (cn_session_key conn) st msg = ?m" by (simp add: sealed_def e)
  define nm1 where "nm1 = (trackAcknowledgment ?i nm)\<lparr>nm_node := (nm_node nm)\<lparr>nd_out := nd_out (nm_node nm) @ [(peer, ?m)]\<rparr>\<rparr>"
  have "receive_messages ev (st_answers st 0) nm1 = (nm1\<lparr>nm_acks := gm_put ?i (Some None) (nm_acks nm1)\<rparr>, True)"
    by (rule receive_answer) (simp_all add: nm1_def trackAcknowledgment_def assms(4))
  then have "attempt_send ev peer ?m (st_answers st 0) nm =
      (untrackAcknowledgment ?i (nm1\<lparr>nm_acks := gm_put ?i (Some None) (nm_acks nm1)\<rparr>), Inl Done)"
    using assms(1,3,5) by (simp add: attempt_send_def transport_send_def Let_def trackAcknowledgment_def nm1_def)
  moreover obtain n where "nm_retry_count nm = Suc n" using assms(6) by (cases "nm_retry_count nm") simp_all
  ultimately have "sendMessage ev peer msg st nm = (untrackAcknowledgment ?i (nm1\<lparr>nm_acks := gm_put ?i (Some None) (nm_acks nm1)\<rparr>), Done)"
    using assms(1) e by (simp add: sendMessage_def)
  moreover have "sent nm [(peer, ?m)] (untrackAcknowledgment ?i (nm1\<lparr>nm_acks := gm_put ?i (Some None) (nm_acks nm1)\<rparr>))"
    unfolding sent_def untrackAcknowledgment_def nm1_def trackAcknowledgment_def
    by (rule exI, rule exI [of _ "nm_flow nm"]) simp
  ultimately show ?thesis by (simp add: s)
qed

lemma wait_bandwidth_sent: "wait_bandwidth f n st nm = (nm1, r) \<Longrightarrow> sent nm [] nm1"
  using sent_Nil by (auto simp: wait_bandwidth_def split: prod.splits)

text \<open>A peer to which everything can be sent, with steps whose messages are answered.\<close>

definition ready :: "environment \<Rightarrow> string \<Rightarrow> connection \<Rightarrow> (nat \<Rightarrow> send_step) \<Rightarrow> messenger \<Rightarrow> bool" where
  "ready ev peer conn steps nm \<longleftrightarrow>
     GetConnection peer (nd_conns (nm_node nm)) = Inr conn \<and> length (cn_session_key conn) = 32 \<and>
     (\<forall>m. ev_accepts ev peer (cn_address conn) (cn_port conn) m) \<and> (\<forall>i. answered (nd_conns (nm_node nm)) (steps i)) \<and>
     0 < nm_retry_count nm"

lemma ready_sent: "ready ev peer conn steps nm \<Longrightarrow> sent nm ms nm' \<Longrightarrow> ready ev peer conn steps nm'"
  using sent_fields [of nm ms nm'] by (simp add: ready_def)

lemma sendMessage_ready:
  "ready ev peer conn steps nm \<Longrightarrow> ms_id msg = GenerateMessageID (st_now (steps i)) \<Longrightarrow>
   \<exists>nm'. sendMessage ev peer msg (steps i) nm = (nm', Done) \<and> sent nm [(peer, sealed ev (cn_session_key conn) (steps i) msg)] nm'"
  unfolding ready_def by (rule sendMessage_answered) auto

lemma NewMessage_id [simp]: "ms_id (NewMessage now ty s p) = GenerateMessageID now"
  by (simp add: NewMessage_def)

definition operation_message :: "bytes \<Rightarrow> sync_op \<Rightarrow> send_step \<Rightarrow> message" where
  "operation_message d op st = NewMessage (st_now st) ''sync_operation'' (so_peer_id op) (LogEntry (operation_payload d op))"

lemma sendSyncOperation_sent:
  assumes "ready ev peer conn steps nm" "sendSyncOperation ev peer d op (steps i) nm = (nm', Done)"
  shows "sent nm [(peer, sealed ev (cn_session_key conn) (steps i) (operation_message d op (steps i)))] nm'"
proof (cases "d = []")
  case True
  then show ?thesis using assms(2) sendMessage_ready [OF assms(1), of "operation_message d op (steps i)" i]
    by (auto simp: sendSyncOperation_def operation_message_def)
next
  case False
  obtain nm1 r where w: "wait_bandwidth (so_file_id op) (int (length d)) (steps i) nm = (nm1, r)" by fastforce
  have s1: "sent nm [] nm1" by (rule wait_bandwidth_sent [OF w])
  have "r = Done" using assms(2) w False by (cases r) (simp_all add: sendSyncOperation_def)
  then show ?thesis
    using assms(2) w False sendMessage_ready [OF ready_sent [OF assms(1) s1], of "operation_message d op (steps i)" i] sent_trans [OF s1]
    by (auto simp: sendSyncOperation_def operation_message_def)
qed

definition chunk_msg :: "string \<Rightarrow> sync_op \<Rightarrow> send_step \<Rightarrow> chunk \<Rightarrow> message" where
  "chunk_msg h op st ck = NewMessage (st_now st) ''chunk'' (so_peer_id op) (ChunkMessage (chunk_message_of h ck))"

definition sent_chunks :: "environment \<Rightarrow> string \<Rightarrow> bytes \<Rightarrow> string \<Rightarrow> sync_op \<Rightarrow> (nat \<Rightarrow> send_step) \<Rightarrow> nat \<Rightarrow> chunk list \<Rightarrow> (string \<times> message) list" where
  "sent_chunks ev peer key h op steps i cks = map (\<lambda>(j, ck). (peer, sealed ev key (steps j) (chunk_msg h op (steps j) ck))) (enumerate i cks)"

lemma send_chunks_sent:
  assumes "ready ev peer conn steps nm" "send_chunks ev peer h op cks steps i nm = (nm', Done)"
  shows "sent nm (sent_chunks ev peer (cn_session_key conn) h op steps i cks) nm'"
  using assms
proof (induction cks arbitrary: i nm)
  case Nil
  then show ?case using sent_Nil [of nm "nm_flow nm"] by (simp add: sent_chunks_def)
next
  case (Cons ck cks)
  obtain nm1 r where w: "wait_bandwidth (so_file_id op) (ck_length ck) (steps i) nm = (nm1, r)" by fastforce
  have s1: "sent nm [] nm1" by (rule wait_bandwidth_sent [OF w])
  have r: "r = Done" using Cons.prems(2) w by (cases r) simp_all
  obtain nm2 where m: "sendMessage ev peer (chunk_msg h op (steps i) ck) (steps i) nm1 = (nm2, Done)"
    and s2: "sent nm1 [(peer, sealed ev (cn_session_key conn) (steps i) (chunk_msg h op (steps i) ck))] nm2"
    using sendMessage_ready [OF ready_sent [OF Cons.prems(1) s1], of "chunk_msg h op (steps i) ck" i] by (auto simp: chunk_msg_def)
  have "send_chunks ev peer h op cks steps (Suc i) nm2 = (nm', Done)" using Cons.prems(2) w r m by (simp add: chunk_msg_def)
  then have "sent nm2 (sent_chunks ev peer (cn_session_key conn) h op steps (Suc i) cks) nm'"
    by (rule Cons.IH [OF ready_sent [OF ready_sent [OF Cons.prems(1) s1] s2]])
  from sent_trans [OF sent_trans [OF s1 s2] this] show ?case by (simp add: sent_chunks_def)
qed

end
