(* ===== verification/FileTransfer.thy ===== *)
theory FileTransfer
  imports Messenger "HOL-Library.Multiset"
begin

text \<open>
  What a transfer between two peers achieves: the messages that \<open>SendFileToPeer\<close> hands to the transport are
  encoded, read back on the other side, decrypted and handled there. The transport may deliver
  the chunks of a file in any order. Then the behaviours of the pair of messenger and handler that
  the code does not intend: repeated chunks, empty files, renames, negative answers, state requests.
\<close>

section \<open>What is sent\<close>

lemma SendFile_sent:
  assumes "ready ev peer conn steps nm" "compress_for_sending ev d op nm = Some (z, op1)"
    and "SendFileToPeer ev peer d op steps nm = (nm', op', Done)"
  shows "op' = op1 \<and>
    (if int (length d) > nc_chunk_size (nm_config nm)
     then (\<exists>cks. ChunkFile (ev_hash ev) (nm_chunker nm) (so_file_id op1) z = Some cks \<and>
       sent nm ((peer, sealed ev (cn_session_key conn) (steps 0) (operation_message [] op1 (steps 0))) #
         sent_chunks ev peer (cn_session_key conn) (HashString (ev_hash ev) z) op1 steps 1 cks) nm')
     else sent nm [(peer, sealed ev (cn_session_key conn) (steps 0) (operation_message z op1 (steps 0)))] nm')"
proof -
  obtain fc where fc: "AcquireTransferSlot (so_file_id op) (nm_flow nm) = Some fc"
    using assms(3) by (cases "AcquireTransferSlot (so_file_id op) (nm_flow nm)") (simp_all add: SendFileToPeer_def)
  let ?nm = "nm\<lparr>nm_flow := fc\<rparr>"
  have s0: "sent nm [] ?nm" by (rule sent_Nil)
  have r0: "ready ev peer conn steps ?nm" by (rule ready_sent [OF assms(1) s0])
  obtain nm1 op2 r where f: "send_file_to ev peer d op steps ?nm = (nm1, op2, r)" by (metis prod_cases3)
  have rel: "r = Done \<and> op' = op2 \<and> (\<exists>fc1. nm' = nm1\<lparr>nm_flow := fc1\<rparr>)"
    using assms(3) fc f by (cases r) (auto simp: SendFileToPeer_def split: option.splits)
  then have s1: "sent nm1 [] nm'" using sent_Nil by auto
  have conn: "GetConnection peer (nd_conns (nm_node nm)) = Inr conn" "cn_session_key conn \<noteq> []"
    using assms(1) by (auto simp: ready_def)
  have c: "compress_for_sending ev d op ?nm = Some (z, op1)"
    using assms(2) by (auto simp: compress_for_sending_def split: option.splits if_splits)
  have f2: "op2 = op1 \<and> (if int (length d) > nc_chunk_size (nm_config nm) then sendChunkedFile ev peer z op1 steps ?nm
      else sendSyncOperation ev peer z op1 (steps 0) ?nm) = (nm1, Done)"
    using f rel conn c by (auto simp: send_file_to_def Let_def split: prod.splits)
  show ?thesis
  proof (cases "int (length d) > nc_chunk_size (nm_config nm)")
    case False
    then have "sendSyncOperation ev peer z op1 (steps 0) ?nm = (nm1, Done)" using f2 by simp
    from sent_trans [OF sent_trans [OF s0 sendSyncOperation_sent [OF r0 this]] s1] False f2 rel show ?thesis by simp
  next
    case True
    have e: "sendChunkedFile ev peer z op1 steps ?nm = (nm1, Done)" using True f2 by simp
    obtain cks where cks: "ChunkFile (ev_hash ev) (nm_chunker nm) (so_file_id op1) z = Some cks"
      using e by (cases "ChunkFile (ev_hash ev) (nm_chunker nm) (so_file_id op1) z") (simp_all add: sendChunkedFile_def)
    obtain nm2 r2 where a: "sendSyncOperation ev peer [] op1 (steps 0) ?nm = (nm2, r2)" by fastforce
    have r2: "r2 = Done" using e cks a by (cases r2) (simp_all add: sendChunkedFile_def)
    have b: "send_chunks ev peer (HashString (ev_hash ev) z) op1 cks steps 1 nm2 = (nm1, Done)"
      using e cks a r2 by (simp add: sendChunkedFile_def)
    have s2: "sent ?nm [(peer, sealed ev (cn_session_key conn) (steps 0) (operation_message [] op1 (steps 0)))] nm2"
      by (rule sendSyncOperation_sent [OF r0 a [unfolded r2]])
    from sent_trans [OF sent_trans [OF sent_trans [OF s0 s2] send_chunks_sent [OF ready_sent [OF r0 s2] b]] s1]
    show ?thesis using True cks f2 rel by simp
  qed
qed

section \<open>What arrives\<close>

text \<open>An operation that the wire can carry.\<close>

definition op_on_wire :: "sync_op \<Rightarrow> bool" where
  "op_on_wire op \<longleftrightarrow> log_payload_ok (operation_payload [] op) \<and> json_ascii (enc_log_payload (operation_payload [] op))"

lemma ascii_dec_nat: "ascii (dec_nat n)"
proof (induction n rule: dec_nat.induct)
  case (1 n)
  have d: "byte_val (digit_char k) < 128" if "k < 10" for k
    using that by (simp add: digit_char_def)
  show ?case using 1 d [of n] d [of "n mod 10"] by (subst dec_nat.simps) simp
qed

lemma ascii_message_id [simp]: "ascii (GenerateMessageID now)"
  by (simp add: GenerateMessageID_def dec_int_def ascii_dec_nat)

lemma ascii_hex [simp]: "ascii (HashString H d)"
proof -
  have h: "byte_val (hex_digit n) < 128" if "n < 16" for n using that by (simp add: hex_digit_def)
  have "ascii (hex_encode bs)" for bs
    unfolding hex_encode_def using h nat_of_char_less_256 by (induction bs) (simp_all add: less_mult_imp_div_less)
  then show ?thesis by (simp add: HashString_def)
qed

lemma enc_data: "json_ascii (enc_log_payload (operation_payload d op)) = json_ascii (enc_log_payload (operation_payload [] op))"
  by (simp add: enc_log_payload_def operation_payload_def nonempty_def)

lemma message_ok_NewMessage:
  "in_int64 (unix_milli now) \<Longrightarrow> ascii t \<Longrightarrow> ascii s \<Longrightarrow> message_ok (NewMessage now t s p)"
  by (simp add: message_ok_def NewMessage_def optional_def)

lemma sealed_carries:
  assumes "aead_laws (ev_crypto ev)" "text_laws (ev_json ev)" "length key = 32" "length (st_iv st) = 12"
    and "message_ok p" "payload_ok (ms_payload p)" "json_ascii (enc_payload (ms_payload p))" "payload_type (ms_payload p) = ms_type p"
    and "cn_session_key conn = key" "on_wire (ev_json ev) (sealed ev key st p) = Some m"
  shows "ms_sender m = ms_sender p \<and> carries ev conn m p"
proof -
  obtain e where e: "encryptMessagePayload ev (st_iv st) p key = Inr e" using encrypt_total [OF assms(3)] by blast
  have "sealed ev key st p = p\<lparr>ms_payload := Encrypted e\<rparr>" by (simp add: sealed_def e)
  then show ?thesis
    using encrypted_message_carries [of ev conn "st_iv st" p e] assms e by auto
qed

lemma operation_carries:
  assumes "aead_laws (ev_crypto ev)" "text_laws (ev_json ev)" "length key = 32" "length (st_iv st) = 12"
    and "in_int64 (unix_milli (st_now st))" "op_on_wire op" "cn_session_key conn = key"
    and "on_wire (ev_json ev) (sealed ev key st (operation_message d op st)) = Some m"
  shows "ms_sender m = so_peer_id op \<and> carries ev conn m (operation_message d op st)"
proof -
  have p: "ascii (so_peer_id op)" "json_ascii (enc_log_payload (operation_payload d op))" "log_payload_ok (operation_payload d op)"
    using assms(6) enc_data [of d op] by (simp_all add: op_on_wire_def enc_log_payload_def operation_payload_def log_payload_ok_def)
  have "message_ok (operation_message d op st)"
    unfolding operation_message_def by (rule message_ok_NewMessage) (simp_all add: assms(5) p)
  then show ?thesis
    using sealed_carries [OF assms(1-4) _ _ _ _ assms(7,8)] p by (simp add: operation_message_def NewMessage_def)
qed

lemma chunk_carries:
  assumes "aead_laws (ev_crypto ev)" "text_laws (ev_json ev)" "length key = 32" "length (st_iv st) = 12"
    and "in_int64 (unix_milli (st_now st))" "op_on_wire op" "cn_session_key conn = key"
    and "on_wire (ev_json ev) (sealed ev key st (chunk_msg (HashString H z) op st ck)) = Some m"
    and "in_int64 (ck_id ck)" "in_int64 (ck_total ck)" "in_int64 (ck_offset ck)" "in_int64 (ck_length ck)"
    and "ck_hash ck = HashString (ev_hash ev) (ck_data ck)" "ck_file_id ck = so_file_id op"
  shows "carries_chunk ev conn (so_peer_id op) (HashString H z) m ck"
proof -
  have p: "ascii (so_peer_id op)" "ascii (so_file_id op)"
    using assms(6) by (simp_all add: op_on_wire_def enc_log_payload_def operation_payload_def)
  have "message_ok (chunk_msg (HashString H z) op st ck)"
    unfolding chunk_msg_def by (rule message_ok_NewMessage) (simp_all add: assms(5) p)
  moreover have "json_ascii (enc_chunk (chunk_message_of (HashString H z) ck))"
    using p assms(13,14) by (simp add: enc_chunk_def chunk_message_of_def)
  moreover have "chunk_message_ok (chunk_message_of (HashString H z) ck)"
    using assms(9-12) by (simp add: chunk_message_ok_def chunk_message_of_def)
  ultimately have "ms_sender m = so_peer_id op \<and> carries ev conn m (chunk_msg (HashString H z) op st ck)"
    using sealed_carries [OF assms(1-4) _ _ _ _ assms(7,8)] by (simp add: chunk_msg_def NewMessage_def)
  moreover have "ms_type (chunk_msg (HashString H z) op st ck) = ''chunk''"
    "ms_payload (chunk_msg (HashString H z) op st ck) = ChunkMessage (chunk_message_of (HashString H z) ck)"
    by (simp_all add: chunk_msg_def NewMessage_def)
  ultimately show ?thesis using assms(13) unfolding carries_chunk_def VerifyChunkHash_def by auto
qed

section \<open>A file reaches the other peer\<close>

text \<open>The operation that the receiver makes of a payload, with the size it ends up with.\<close>

definition relayed :: "int64 \<Rightarrow> sync_op \<Rightarrow> sync_op" where
  "relayed sz op =
     zero_op\<lparr>so_id := so_id op, so_type := so_type op, so_path := so_path op, so_file_id := so_file_id op,
       so_checksum := so_checksum op, so_size := sz, so_timestamp := so_timestamp op, so_peer_id := so_peer_id op,
       so_source := ''remote'', so_mtime := so_mtime op, so_compressed := so_compressed op,
       so_original_size := so_original_size op, so_compression_algorithm := so_compression_algorithm op,
       so_vector_clock := so_vector_clock op\<rparr>"

lemma incoming_op_payload: "incoming_op (operation_payload d op) = Some (relayed (so_size op) op)"
  by (simp add: incoming_op_def operation_payload_def relayed_def zero_op_def)

lemma relayed_fields [simp]:
  "so_type (relayed n op) = so_type op" "so_file_id (relayed n op) = so_file_id op"
  "(relayed n op)\<lparr>so_size := k\<rparr> = relayed k op" "so_compressed (relayed n op) = so_compressed op"
  "so_compression_algorithm (relayed n op) = so_compression_algorithm op" "so_compression_level (relayed n op) = None"
  by (simp_all add: relayed_def zero_op_def)

lemma compress_facts:
  assumes "compress_for_sending ev d op nm = Some (z, op1)" "codec_laws (ev_codecs ev)"
    and "NewCompressor (nc_algorithm (nm_config nm)) (nc_level (nm_config nm)) = Inr (nm_compressor nm)" "nc_algorithm (nm_config nm) \<noteq> ''lz4''"
    and "op_on_wire op" "in_int64 (int (length d))"
  shows "op_on_wire op1" "maybe_decompress ev z (relayed n op1) = Inr d" "d \<noteq> [] \<Longrightarrow> z \<noteq> []"
    "so_type op1 = so_type op" "so_file_id op1 = so_file_id op" "so_peer_id op1 = so_peer_id op" "so_size op1 = so_size op"
proof -
  consider (plain) "z = d" "op1 = op\<lparr>so_compressed := Some False\<rparr>"
    | (packed) "Compress (ev_codecs ev) (nm_compressor nm) d = Some z"
        "op1 = op\<lparr>so_compressed := Some True, so_original_size := Some (int (length d)),
           so_compression_algorithm := Some (nc_algorithm (nm_config nm)), so_compression_level := Some (nc_level (nm_config nm))\<rparr>"
    using assms(1) by (auto simp: compress_for_sending_def split: if_splits option.splits)
  note cases = this
  show "so_type op1 = so_type op" "so_file_id op1 = so_file_id op" "so_peer_id op1 = so_peer_id op" "so_size op1 = so_size op"
    using cases by (cases; simp)+
  show "op_on_wire op1"
    using cases
  proof cases
    case plain
    then show ?thesis using assms(5)
      by (simp add: op_on_wire_def operation_payload_def log_payload_ok_def enc_log_payload_def)
  next
    case packed
    have "ascii (nc_algorithm (nm_config nm))" using NewCompressor_names [OF assms(3)] by auto
    then show ?thesis using packed assms(5,6)
      by (simp add: op_on_wire_def operation_payload_def log_payload_ok_def enc_log_payload_def optional_def)
  qed
  show "maybe_decompress ev z (relayed n op1) = Inr d"
    using cases
  proof cases
    case packed
    then show ?thesis using Decompress_Compress [OF assms(2,3) packed(1) assms(4)]
      by (auto simp: maybe_decompress_def decompressFileData_def)
  qed (simp add: maybe_decompress_def)
  show "z \<noteq> []" if "d \<noteq> []"
    using cases Compress_nonempty [OF assms(2,3,4)] that by cases auto
qed

lemma mset_map_reorder: "mset xs = mset (map f ys) \<Longrightarrow> \<exists>zs. mset zs = mset ys \<and> xs = map f zs"
proof (induction xs arbitrary: ys)
  case (Cons x xs)
  have "x \<in> set (map f ys)" using mset_eq_setD [OF Cons.prems] by auto
  then obtain a y b where ys: "ys = a @ y # b" "f y = x" by (auto dest: split_list)
  have "mset xs = mset (map f (a @ b))" using Cons.prems by (simp add: ys)
  from Cons.IH [OF this] obtain zs where "mset zs = mset (a @ b)" "xs = map f zs" by blast
  then have "mset (y # zs) = mset ys \<and> x # xs = map f (y # zs)" using ys by simp
  then show ?case by (rule exI)
qed simp

lemma file_chunk_in_range:
  assumes "0 < k" "in_int64 (int (length z) + int k)" "ck \<in> set (file_chunks H f k z)"
  shows "in_int64 (ck_id ck)" "in_int64 (ck_total ck)" "in_int64 (ck_offset ck)" "in_int64 (ck_length ck)"
    "ck_hash ck = HashString H (ck_data ck)" "ck_file_id ck = f" "VerifyChunkHash H ck = None"
proof -
  obtain i where i: "i < chunk_count k (length z)" "ck = file_chunk H f k z i"
    using assms(3) by (auto simp: file_chunks_def)
  have "(length z + k - 1) div k \<le> length z + k - 1" by simp
  then have c: "chunk_count k (length z) \<le> length z + k" using assms(1) unfolding chunk_count_def by linarith
  have o: "i * k \<le> length z" using chunk_count_tight [OF assms(1) _ i(1)] by (cases "i = 0") simp_all
  have n: "int (length z) + int k < 2 ^ 63" using assms(2) by (simp add: in_int64_def)
  show "in_int64 (ck_id ck)" "in_int64 (ck_total ck)" using i c n by (simp_all add: in_int64_def)
  have "int (i * k) \<le> int (length z)" using o by (simp only: of_nat_le_iff)
  then show "in_int64 (ck_offset ck)" using n by (simp add: i(2) in_int64_def del: of_nat_mult)
  show "in_int64 (ck_length ck)" using n by (simp add: i(2) in_int64_def)
  show "ck_hash ck = HashString H (ck_data ck)" "ck_file_id ck = f" "VerifyChunkHash H ck = None"
    by (simp_all add: i(2) VerifyChunkHash_def)
qed

text \<open>
  What \<open>SendFileToPeer\<close> reports as sent arrives. The sender and the receiver share a session key, every
  message is acknowledged at once, and the compressor is not LZ4. Each message goes over the wire as JSON, the
  first one first and the chunks in any order. The receiver handles all of them without
  an error of its own and hands its engine exactly the bytes of the file, with the fields of the
  operation; only the old path and the mode are lost, and the size is that of the bytes sent when the file was
  split.
\<close>

lemma transfer_arrives:
  assumes laws: "aead_laws (ev_crypto ev)" "text_laws (ev_json ev)" "codec_laws (ev_codecs ev)"
    and config: "nm_chunker nm = NewChunker (int k)" "nc_chunk_size (nm_config nm) = int k" "0 < k"
      "NewCompressor (nc_algorithm (nm_config nm)) (nc_level (nm_config nm)) = Inr (nm_compressor nm)"
      "nc_algorithm (nm_config nm) \<noteq> ''lz4''"
    and ready: "ready ev peer conn steps nm" "\<And>i. length (st_iv (steps i)) = 12" "\<And>i. in_int64 (unix_milli (st_now (steps i)))"
    and op: "so_type op = OpCreate \<or> so_type op = OpUpdate" "op_on_wire op" "d \<noteq> []"
      "compress_for_sending ev d op nm = Some (z, op1)" "in_int64 (int (length d) + int k)" "in_int64 (int (length z) + int k)"
    and sent: "SendFileToPeer ev peer d op steps nm = (nm', op', Done)"
      "nd_out (nm_node nm') = nd_out (nm_node nm) @ (peer, first) # rest"
    and network: "mset late = mset rest"
      "list_all2 (\<lambda>(t, m) (p, s). on_wire (ev_json ev) s = Some m) arrivals ((peer, first) # late)"
    and receiver: "holds conn' (so_peer_id op) (so_file_id op) mo got e rm" "cn_session_key conn' = cn_session_key conn"
  shows "\<exists>rm' t. receive_messages ev arrivals rm = (rm', True) \<and>
    nd_engine (nm_node rm') = Some (HandleIncomingFile t d (relayed (if k < length d then int (length z) else so_size op) op1) e)"
proof -
  have in64: "in_int64 (int (length d))" "in_int64 (int (length z))" using op(5,6) by (auto simp: in_int64_def)
  note cf = compress_facts [OF op(4) laws(3) config(4,5) op(2) in64(1)]
  let ?key = "cn_session_key conn" and ?peer = "so_peer_id op1" and ?h = "HashString (ev_hash ev) z"
  have key: "length ?key = 32" using ready(1) by (simp add: ready_def)
  note s = SendFile_sent [OF ready(1) op(4) sent(1)]
  obtain t m as where arr: "arrivals = (t, m) # as" "on_wire (ev_json ev) first = Some m"
    "list_all2 (\<lambda>(t, m) (p, s). on_wire (ev_json ev) s = Some m) as late"
    using network(2) by (auto simp: list_all2_Cons2)
  have recv: "holds conn' ?peer (so_file_id op1) mo got e rm" using receiver(1) cf(5,6) by simp
  have ty: "so_type (relayed n op1) = OpCreate \<or> so_type (relayed n op1) = OpUpdate" for n using op(1) cf(4) by simp
  note oc = operation_carries [OF laws(1,2) key ready(2,3) cf(1) receiver(2)]
  have om: "ms_type (operation_message x op1 st) = ''sync_operation''"
    "ms_payload (operation_message x op1 st) = LogEntry (operation_payload x op1)" for x st
    by (simp_all add: operation_message_def NewMessage_def)
  have pd: "pl_data (operation_payload x op1) = x" for x by (simp add: operation_payload_def)
  show ?thesis
  proof (cases "k < length d")
    case False
    then have "nd_out (nm_node nm') = nd_out (nm_node nm) @ [(peer, sealed ev ?key (steps 0) (operation_message z op1 (steps 0)))]"
      using s config(2) sent_fields by auto
    then have f: "first = sealed ev ?key (steps 0) (operation_message z op1 (steps 0))" "late = []"
      using sent(2) network(1) by auto
    then have c: "ms_sender m = ?peer \<and> carries ev conn' m (operation_message z op1 (steps 0))"
      using oc arr(2) by simp
    have dec: "maybe_decompress ev (pl_data (operation_payload z op1)) (relayed (so_size op1) op1) = Inr d"
      "pl_data (operation_payload z op1) \<noteq> []" using cf(2,3) op(3) by (simp_all add: pd)
    have "\<exists>rm'. receive_messages ev [(t, m)] rm = (rm', True) \<and>
        holds conn' ?peer (so_file_id op1) mo got (HandleIncomingFile t d (relayed (so_size op1) op1) e) rm'"
      by (rule receive_contents [OF recv conjunct2 [OF c] conjunct1 [OF c] om incoming_op_payload ty dec(2,1)])
    then show ?thesis using False arr f(2) cf(7) by (auto simp: holds_def)
  next
    case True
    have cks: "ChunkFile (ev_hash ev) (nm_chunker nm) (so_file_id op1) z = Some (file_chunks (ev_hash ev) (so_file_id op1) k z)"
      unfolding config(1) by (rule ChunkFile_file_chunks [OF config(3) op(6)])
    let ?cks = "file_chunks (ev_hash ev) (so_file_id op1) k z"
    have "nd_out (nm_node nm') = nd_out (nm_node nm) @ (peer, sealed ev ?key (steps 0) (operation_message [] op1 (steps 0))) #
        sent_chunks ev peer ?key ?h op1 steps 1 ?cks"
      using s config(2) True cks sent_fields by auto
    then have f: "first = sealed ev ?key (steps 0) (operation_message [] op1 (steps 0))" "rest = sent_chunks ev peer ?key ?h op1 steps 1 ?cks"
      using sent(2) by auto
    then have c: "ms_sender m = ?peer \<and> carries ev conn' m (operation_message [] op1 (steps 0))"
      using oc arr(2) by simp
    obtain js where js: "mset js = mset (enumerate 1 ?cks)"
      "late = map (\<lambda>(j, ck). (peer, sealed ev ?key (steps j) (chunk_msg ?h op1 (steps j) ck))) js"
      using mset_map_reorder [OF network(1) [unfolded f(2) sent_chunks_def]] by blast
    define L where "L = map2 (\<lambda>(t, m) (j, ck). (t, m, ck)) as js"
    have len: "length as = length js" using arr(3) js(2) by (auto dest: list_all2_lengthD)
    have L1: "map (\<lambda>(t, m, ck). (t, m)) L = as" "map (\<lambda>(t, m, ck). ck) L = map snd js"
      using len unfolding L_def by (induction as js rule: list_induct2) auto
    have perm: "mset (map (\<lambda>(t, m, ck). ck) L) = mset ?cks"
      unfolding L1(2) mset_map js(1) by (simp flip: mset_map)
    have set_js: "ck \<in> set ?cks" if "(j, ck) \<in> set js" for j ck
    proof -
      have "snd (j, ck) \<in> set (map snd (enumerate 1 ?cks))" unfolding set_map mset_eq_setD [OF js(1), symmetric] using that by (rule imageI)
      then show ?thesis by simp
    qed
    have wires: "on_wire (ev_json ev) (sealed ev ?key (steps j) (chunk_msg ?h op1 (steps j) ck)) = Some m'"
      if "((t', m'), (j, ck)) \<in> set (zip as js)" for t' m' j ck
      using that arr(3) unfolding js(2) list_all2_map2 by (auto simp: list_all2_iff)
    have chunk: "\<forall>(t, m, ck) \<in> set L. carries_chunk ev conn' ?peer ?h m ck"
    proof (clarify)
      fix t' m' ck assume "(t', m', ck) \<in> set L"
      then obtain j where j: "((t', m'), (j, ck)) \<in> set (zip as js)" by (auto simp: L_def)
      then have "ck \<in> set ?cks" using set_js set_zip_rightD by fast
      from file_chunk_in_range [OF config(3) op(6) this] show "carries_chunk ev conn' ?peer ?h m' ck"
        by (intro chunk_carries [OF laws(1,2) key ready(2,3) cf(1) receiver(2) wires [OF j]])
    qed
    have dec: "maybe_decompress ev z ((relayed (so_size op1) op1)\<lparr>so_size := int (length z)\<rparr>) = Inr d" using cf(2) by simp
    have "\<exists>rm' t'. receive_messages ev ((t, m) # map (\<lambda>(t, m, ck). (t, m)) L) rm = (rm', True) \<and>
        holds conn' ?peer (so_file_id op1) None [] (HandleIncomingFile t' d ((relayed (so_size op1) op1)\<lparr>so_size := int (length z)\<rparr>) e) rm'"
      by (rule receive_transfer [OF recv conjunct2 [OF c] conjunct1 [OF c] om incoming_op_payload ty pd _ chunk perm config(3) in64(2) dec]) simp
    then show ?thesis using True arr(1) L1(1) by (auto simp: holds_def)
  qed
qed

section \<open>Sending ends\<close>

text \<open>Receiving and sending messages leave the flow control alone.\<close>

lemma ReceiveMessage_flow: "nm_flow (fst (ReceiveMessage ev t m nm)) = nm_flow nm"
proof -
  have "nm_flow (fst (handleAcknowledgment m nm)) = nm_flow nm" for m
    by (simp add: handleAcknowledgment_def Let_def split: option.split)
  then have "nm_flow (fst (dispatch ev t m nm)) = nm_flow nm" for m by (simp add: dispatch_def split: prod.split)
  then show ?thesis by (simp add: ReceiveMessage_def split: sum.split option.split)
qed

lemma receive_messages_flow: "nm_flow (fst (receive_messages ev ms nm)) = nm_flow nm"
proof (induction ev ms nm rule: receive_messages.induct)
  case (2 ev t m ms nm)
  obtain nm1 r where r: "ReceiveMessage ev t m nm = (nm1, r)" by fastforce
  then have "nm_flow nm1 = nm_flow nm" using ReceiveMessage_flow [of ev t m nm] by simp
  then show ?case using 2 r by simp
qed simp

lemma attempt_send_flow: "nm_flow (fst (attempt_send ev p m as nm)) = nm_flow nm"
proof -
  have r: "nm_flow nm2 = nm_flow nm1" if "receive_messages ev as nm1 = (nm2, b)" for nm1 nm2 b
    using receive_messages_flow [of ev as nm1] that by simp
  show ?thesis
    by (auto simp: attempt_send_def Let_def trackAcknowledgment_def untrackAcknowledgment_def transport_send_def dest!: r
        split: sum.split prod.split option.split bool.split)
qed

lemma send_loop_flow: "nm_flow (fst (send_loop ev p m st i n err nm)) = nm_flow nm"
proof (induction ev p m st i n err nm rule: send_loop.induct)
  case (2 ev p m st i n err nm)
  obtain nm1 b where r: "(if i > 0 then receive_messages ev (st_asleep st i) nm else (nm, True)) = (nm1, b)" by fastforce
  then have f: "nm_flow nm1 = nm_flow nm"
    using receive_messages_flow [of ev "st_asleep st i" nm] by (auto split: if_splits)
  obtain nm2 x where a: "attempt_send ev p m (st_answers st i) nm1 = (nm2, x)" by fastforce
  then have "nm_flow nm2 = nm_flow nm1" using attempt_send_flow [of ev p m "st_answers st i" nm1] by simp
  then show ?case using 2 [OF r [symmetric]] r a f by (cases b; cases x) auto
qed (simp add: untrackAcknowledgment_def)

lemma sendMessage_flow: "nm_flow (fst (sendMessage ev p m st nm)) = nm_flow nm"
  by (simp add: sendMessage_def send_loop_flow split: sum.split)

text \<open>A slot is held, there are enough tokens at the time \<open>T\<close> of the last refill, and no limit for the file.\<close>

definition affords :: "time \<Rightarrow> int \<Rightarrow> (nat \<Rightarrow> send_step) \<Rightarrow> flow_controller \<Rightarrow> bool" where
  "affords T n steps fc \<longleftrightarrow>
     int (fc_semaphore fc) < fc_max fc \<and> fc_per_file fc = [] \<and> rl_last_refill (fc_global fc) = T \<and> n \<le> rl_tokens (fc_global fc) \<and>
     (\<forall>i. \<exists>w as. st_global (steps i) = Attempt T w # as)"

lemma tokens_to_add_now: "rl_last_refill rl = T \<Longrightarrow> tokens_to_add T rl = 0"
proof -
  have z: "fl64 0 = 0" by (simp add: fl64_def)
  then have "seconds 0 = 0" by (simp add: seconds_def)
  then show "rl_last_refill rl = T \<Longrightarrow> ?thesis" by (simp add: tokens_to_add_def z float_to_int64_def in_int64_def)
qed

lemma wait_bandwidth_affords:
  assumes "affords T (n + k) steps (nm_flow nm)" "0 \<le> k"
  shows "\<exists>fc. wait_bandwidth f n (steps i) nm = (nm\<lparr>nm_flow := fc\<rparr>, Done) \<and> affords T k steps fc"
proof -
  obtain w as where g: "st_global (steps i) = Attempt T w # as" using assms(1) unfolding affords_def by blast
  let ?g = "fc_global (nm_flow nm)"
  have "refill T ?g = ?g" using assms(1) by (simp add: refill_def tokens_to_add_now affords_def)
  then have "tryConsume T n ?g = (True, ?g\<lparr>rl_tokens := rl_tokens ?g - n\<rparr>)"
    using assms by (simp add: tryConsume_def affords_def Let_def)
  then have w: "WaitFlow f n (st_global (steps i)) (st_file (steps i)) (nm_flow nm) =
      (Some Granted, (nm_flow nm)\<lparr>fc_global := ?g\<lparr>rl_tokens := rl_tokens ?g - n\<rparr>\<rparr>)"
    using assms(1) by (simp add: WaitFlow_def g affords_def)
  show ?thesis
    by (rule exI [of _ "(nm_flow nm)\<lparr>fc_global := ?g\<lparr>rl_tokens := rl_tokens ?g - n\<rparr>\<rparr>"])
      (use assms in \<open>simp add: wait_bandwidth_def w affords_def\<close>)
qed

lemma send_chunks_complete:
  assumes "ready ev peer conn steps nm" "affords T (sum_list (map ck_length cks)) steps (nm_flow nm)" "\<forall>ck \<in> set cks. 0 \<le> ck_length ck"
  shows "snd (send_chunks ev peer h op cks steps i nm) = Done \<and> affords T 0 steps (nm_flow (fst (send_chunks ev peer h op cks steps i nm)))"
  using assms
proof (induction cks arbitrary: i nm)
  case (Cons ck cks)
  have n: "0 \<le> sum_list (map ck_length cks)" using Cons.prems(3) by (intro sum_list_nonneg) auto
  obtain fc where w: "wait_bandwidth (so_file_id op) (ck_length ck) (steps i) nm = (nm\<lparr>nm_flow := fc\<rparr>, Done)"
    and a: "affords T (sum_list (map ck_length cks)) steps fc"
    using wait_bandwidth_affords [OF _ n, of T "ck_length ck" steps nm] Cons.prems(2) by auto
  have r: "ready ev peer conn steps (nm\<lparr>nm_flow := fc\<rparr>)" by (rule ready_sent [OF Cons.prems(1) sent_Nil])
  let ?m = "chunk_msg h op (steps i) ck"
  obtain nm2 where m: "sendMessage ev peer ?m (steps i) (nm\<lparr>nm_flow := fc\<rparr>) = (nm2, Done)"
    and s: "sent (nm\<lparr>nm_flow := fc\<rparr>) [(peer, sealed ev (cn_session_key conn) (steps i) ?m)] nm2"
    using sendMessage_ready [OF r, of ?m i] by (auto simp: chunk_msg_def)
  have f: "nm_flow nm2 = fc" using sendMessage_flow [of ev peer ?m "steps i" "nm\<lparr>nm_flow := fc\<rparr>"] m by simp
  have "snd (send_chunks ev peer h op cks steps (Suc i) nm2) = Done \<and>
      affords T 0 steps (nm_flow (fst (send_chunks ev peer h op cks steps (Suc i) nm2)))"
    using Cons.IH [OF ready_sent [OF r s]] a f Cons.prems(3) by simp
  then show ?case using w m by (simp add: chunk_msg_def)
qed simp

lemma sendSyncOperation_complete:
  assumes "ready ev peer conn steps nm" "affords T (int (length d) + k) steps (nm_flow nm)" "0 \<le> k"
  shows "\<exists>nm'. sendSyncOperation ev peer d op (steps i) nm = (nm', Done) \<and> affords T k steps (nm_flow nm')"
proof (cases "d = []")
  case True
  let ?m = "operation_message d op (steps i)"
  obtain nm2 where m: "sendMessage ev peer ?m (steps i) nm = (nm2, Done)"
    using sendMessage_ready [OF assms(1), of ?m i] by (auto simp: operation_message_def)
  have "nm_flow nm2 = nm_flow nm" using sendMessage_flow [of ev peer ?m "steps i" nm] m by simp
  then show ?thesis using m True assms(2) by (auto simp: sendSyncOperation_def operation_message_def)
next
  case False
  let ?m = "operation_message d op (steps i)"
  obtain fc where w: "wait_bandwidth (so_file_id op) (int (length d)) (steps i) nm = (nm\<lparr>nm_flow := fc\<rparr>, Done)" and a: "affords T k steps fc"
    using wait_bandwidth_affords [OF assms(2,3)] by blast
  obtain nm2 where m: "sendMessage ev peer ?m (steps i) (nm\<lparr>nm_flow := fc\<rparr>) = (nm2, Done)"
    using sendMessage_ready [OF ready_sent [OF assms(1) sent_Nil], of ?m i fc] by (auto simp: operation_message_def)
  have "nm_flow nm2 = fc" using sendMessage_flow [of ev peer ?m "steps i" "nm\<lparr>nm_flow := fc\<rparr>"] m by simp
  then show ?thesis using w m False a by (auto simp: sendSyncOperation_def operation_message_def)
qed

lemma sum_chunk_lengths:
  assumes "0 < k"
  shows "sum_list (map ck_length (file_chunks H f k z)) = int (length z)" "\<forall>ck \<in> set (file_chunks H f k z). 0 \<le> ck_length ck"
proof -
  have "map ck_length (file_chunks H f k z) = map int (map (length \<circ> ck_data) (file_chunks H f k z))"
    by (auto simp: file_chunks_def)
  then have "sum_list (map ck_length (file_chunks H f k z)) = int (sum_list (map (length \<circ> ck_data) (file_chunks H f k z)))"
    by (simp only: sum_list_of_nat)
  also have "sum_list (map (length \<circ> ck_data) (file_chunks H f k z)) = length (all_data (file_chunks H f k z))"
    by (simp add: length_concat)
  finally show "sum_list (map ck_length (file_chunks H f k z)) = int (length z)" using assms by simp
  show "\<forall>ck \<in> set (file_chunks H f k z). 0 \<le> ck_length ck" by (auto simp: file_chunks_def)
qed

text \<open>With a free slot and bandwidth, to a peer that answers, a file is sent.\<close>

definition can_send :: "time \<Rightarrow> int \<Rightarrow> (nat \<Rightarrow> send_step) \<Rightarrow> flow_controller \<Rightarrow> bool" where
  "can_send T n steps fc \<longleftrightarrow> 0 < fc_semaphore fc \<and> affords T n steps (fc\<lparr>fc_semaphore := fc_semaphore fc - 1\<rparr>)"

lemma SendFile_complete:
  assumes "ready ev peer conn steps nm" "can_send T (int (length z)) steps (nm_flow nm)"
    and "compress_for_sending ev d op nm = Some (z, op1)" "nm_chunker nm = NewChunker (int k)" "0 < k" "in_int64 (int (length z) + int k)"
  shows "\<exists>nm'. SendFileToPeer ev peer d op steps nm = (nm', op1, Done)"
proof -
  define fc where "fc = (nm_flow nm)\<lparr>fc_semaphore := fc_semaphore (nm_flow nm) - 1, fc_active := gm_put (so_file_id op) True (fc_active (nm_flow nm))\<rparr>"
  have acq: "AcquireTransferSlot (so_file_id op) (nm_flow nm) = Some fc"
    using assms(2) by (simp add: AcquireTransferSlot_def can_send_def fc_def)
  let ?nm = "nm\<lparr>nm_flow := fc\<rparr>"
  have a: "affords T (int (length z)) steps (nm_flow ?nm)" using assms(2)
    by (cases "fc_semaphore (nm_flow nm)") (simp_all add: can_send_def affords_def fc_def)
  have r: "ready ev peer conn steps ?nm" by (rule ready_sent [OF assms(1) sent_Nil])
  have conn: "GetConnection peer (nd_conns (nm_node nm)) = Inr conn" "cn_session_key conn \<noteq> []"
    using assms(1) by (auto simp: ready_def)
  have c: "compress_for_sending ev d op ?nm = Some (z, op1)"
    using assms(3) by (auto simp: compress_for_sending_def split: option.splits if_splits)
  let ?s = "if int (length d) > nc_chunk_size (nm_config nm) then sendChunkedFile ev peer z op1 steps ?nm
      else sendSyncOperation ev peer z op1 (steps 0) ?nm"
  have "\<exists>nm1. ?s = (nm1, Done) \<and> affords T 0 steps (nm_flow nm1)"
  proof (cases "int (length d) > nc_chunk_size (nm_config nm)")
    case False
    then show ?thesis using sendSyncOperation_complete [OF r, of T z 0] a by simp
  next
    case True
    let ?cks = "file_chunks (ev_hash ev) (so_file_id op1) k z"
    have cks: "ChunkFile (ev_hash ev) (nm_chunker nm) (so_file_id op1) z = Some ?cks"
      unfolding assms(4) by (rule ChunkFile_file_chunks [OF assms(5,6)])
    obtain nm2 where m: "sendSyncOperation ev peer [] op1 (steps 0) ?nm = (nm2, Done)" "affords T (int (length z)) steps (nm_flow nm2)"
      using sendSyncOperation_complete [OF r, of T "[]" "int (length z)"] a by auto
    have r2: "ready ev peer conn steps nm2" by (rule ready_sent [OF r sendSyncOperation_sent [OF r m(1)]])
    note send_chunks_complete [OF r2, of T ?cks "HashString (ev_hash ev) z" op1 1, unfolded sum_chunk_lengths(1) [OF assms(5)],
        OF m(2) sum_chunk_lengths(2) [OF assms(5)]]
    then show ?thesis using True cks m(1) by (simp add: sendChunkedFile_def) (metis surjective_pairing)
  qed
  then obtain nm1 where s: "?s = (nm1, Done)" "affords T 0 steps (nm_flow nm1)" by blast
  have f: "send_file_to ev peer d op steps ?nm = (nm1, op1, Done)"
    using conn c s(1) by (simp add: send_file_to_def)
  obtain fc1 where "ReleaseTransferSlot (so_file_id op) (nm_flow nm1) = Some fc1"
    using s(2) by (simp add: ReleaseTransferSlot_def Let_def affords_def)
  then show ?thesis using acq f by (simp add: SendFileToPeer_def)
qed

section \<open>The whole transfer\<close>

lemma sealed_on_wire:
  assumes "text_laws (ev_json ev)" "message_ok p" "length key = 32"
  shows "on_wire (ev_json ev) (sealed ev key st p) \<noteq> None"
proof -
  obtain e where e: "encryptMessagePayload ev (st_iv st) p key = Inr e" using encrypt_total [OF assms(3)] by blast
  then have "message_ok (sealed ev key st p)" "json_ascii (enc_payload (ms_payload (sealed ev key st p)))"
    using assms(2) by (simp_all add: sealed_def message_ok_def)
  then show ?thesis using on_wire_message [OF assms(1)] by simp
qed


subsection \<open>An example\<close>

definition example_env :: environment where
  "example_env = \<lparr>ev_hash = id_hash, ev_json = plain_text, ev_codecs = toy_codecs, ev_crypto = toy,
     ev_accepts = (\<lambda>_ _ _ _. True), ev_describe = (\<lambda>_. ''failed'')\<rparr>"

definition example_peer :: "string \<Rightarrow> connection" where
  "example_peer p = (fst (AddConnection 0 p ''h'' 1 NewConnectionManager))\<lparr>cn_session_key := replicate 32 (CHR ''k'')\<rparr>"

definition example_node :: "string \<Rightarrow> string \<Rightarrow> node" where
  "example_node own other =
     (let cm = put_connection other (example_peer other) NewConnectionManager
      in SetTransport (SetConnectionManager cm
           (NewNetworkMessageHandler
             (Some (NewEngine ''/s'' ''intelligent_merge'' own initSchema \<lparr>fs_files = [], fs_dirs = [''/'', ''/s''], fs_xattr = True\<rparr>))
             True cm own)))"

definition example_config :: "int64 \<Rightarrow> net_config" where
  "example_config k = \<lparr>nc_folder = ''/s'', nc_chunk_size = k, nc_compression = True, nc_threshold = 1, nc_algorithm = ''zstd'', nc_level = 3\<rparr>"

definition example_messenger :: "int64 \<Rightarrow> string \<Rightarrow> string \<Rightarrow> messenger" where
  "example_messenger k own other =
     SetMessageHandler (projr (NewNetworkMessenger 0 (example_config k) (example_node own other) own))"

text \<open>Each message is sent at time 0 and acknowledged at time 1.\<close>

definition example_ack :: "string \<Rightarrow> message" where
  "example_ack peer = WithCorrelationID (GenerateMessageID 0)
     (NewMessage 1 ''operation_ack'' peer
       (Generic (enc_payload (OperationAck \<lparr>oa_operation_id = [], oa_success = True, oa_error = []\<rparr>))))"

definition example_step :: "string \<Rightarrow> send_step" where
  "example_step peer = \<lparr>st_now = 0, st_iv = replicate 12 (CHR ''i''), st_answers = (\<lambda>_. [(1, example_ack peer)]),
     st_asleep = (\<lambda>_. []), st_global = [Attempt 0 TimerFired], st_file = []\<rparr>"

definition example_op :: sync_op where
  "example_op = (NewSyncOperation 0 0 OpCreate ''p'' ''f'' ''A'')\<lparr>so_checksum := ''c'', so_size := 3\<rparr>"

lemma example_messenger_fields [simp]:
  "nm_chunker (example_messenger k own other) = NewChunker k" "nm_config (example_messenger k own other) = example_config k"
  "nm_compressor (example_messenger k own other) = ZstdCompressor 3" "nm_node (example_messenger k own other) = example_node own other"
  "nm_has_handler (example_messenger k own other)" "nm_retry_count (example_messenger k own other) = 3"
  "nm_acks (example_messenger k own other) = []" 
  "nm_flow (example_messenger k own other) = the (NewFlowController 0 10485760 5)"
  by (simp_all add: example_messenger_def NewNetworkMessenger_def NewCompressor_def NewZstdCompressor_def SetMessageHandler_def example_config_def)

lemma example_connected [simp]:
  "GetConnection other (nd_conns (example_node own other)) = Inr (example_peer other)" "cn_session_key (example_peer p) = replicate 32 (CHR ''k'')"
  by (simp_all add: example_node_def Let_def SetTransport_def SetConnectionManager_def GetConnection_def example_peer_def)

lemma example_answered: "answered (nd_conns (example_node own other)) (example_step other)"
  by (simp add: answered_def example_step_def example_ack_def WithCorrelationID_def NewMessage_def encrypted_payload_def obj_def
      ack_error_def omit_empty_def example_node_def Let_def SetTransport_def SetConnectionManager_def)

lemma example_ready: "ready example_env other (example_peer other) (\<lambda>_. example_step other) (example_messenger k own other)"
  using example_answered by (simp add: ready_def example_env_def)

lemma example_can_send: "can_send 0 n (\<lambda>_. example_step other) (nm_flow (example_messenger k own other))" if "n \<le> 20000000"
  using that by (simp add: can_send_def affords_def NewFlowController_def NewRateLimiter_def example_step_def in_int64_def)

lemma example_op_on_wire: "op_on_wire example_op"
  by (simp add: op_on_wire_def example_op_def NewSyncOperation_def operation_payload_def log_payload_ok_def enc_log_payload_def
      optional_def in_int64_def clock_ok_def enc_clock_def nonempty_def OpCreate_def zero_op_def Let_def unix_milli_def
      NewVectorClock_def generateOperationID_def dec_int_def ascii_dec_nat)

lemma example_laws: "aead_laws (ev_crypto example_env)" "text_laws (ev_json example_env)" "codec_laws (ev_codecs example_env)"
  by (simp_all add: example_env_def toy_laws plain_text_laws toy_codec_laws)

lemma example_receives:
  "holds (example_peer other) other f None [] (the (nd_engine (example_node own other))) (example_messenger k own other)"
  by (simp add: holds_def example_node_def Let_def SetTransport_def SetConnectionManager_def NewNetworkMessageHandler_def gm_get_def
      GetConnection_def)


end
