(* ===== verification/Sessions.thy ===== *)
theory Sessions
  imports FileTransfer
begin

text \<open>
  What the two transports of \<^verbatim>\<open>internal/network/transport\<close> share. A \<open>host\<close> is a peer as its transport sees it: the
  fields of the transport itself, the messenger that is its message handler, with the connection
  manager that transport, messenger and handler point to, and the messages written to each socket or stream,
  which have a number. A write succeeds, and the text of an address is that of Go's \<^verbatim>\<open>net\<close> package. Both
  transports derive the key of a session from the two peer ids and nothing else.
\<close>

section \<open>Hosts\<close>

record 't host =
  ht_transport :: 't
  ht_messenger :: messenger
  ht_written :: "(nat \<times> message) list"

definition manager :: "'t host \<Rightarrow> conn_manager" where
  "manager h = nd_conns (nm_node (ht_messenger h))"

definition with_manager :: "conn_manager \<Rightarrow> 't host \<Rightarrow> 't host" where
  "with_manager cm h = h\<lparr>ht_messenger := (ht_messenger h)\<lparr>nm_node := (nm_node (ht_messenger h))\<lparr>nd_conns := cm\<rparr>\<rparr>\<rparr>"

definition write_message :: "nat \<Rightarrow> message \<Rightarrow> 't host \<Rightarrow> 't host" where
  "write_message s m h = h\<lparr>ht_written := ht_written h @ [(s, m)]\<rparr>"

definition register_peer :: "time \<Rightarrow> string \<Rightarrow> string \<Rightarrow> int \<Rightarrow> 't host \<Rightarrow> 't host" where
  "register_peer now peerID address port h =
     with_manager (fst (UpdateConnectionState now peerID StateConnected (snd (AddConnection now peerID address port (manager h))))) h"

text \<open>How far a call that needs a connection to a peer has come.\<close>

datatype dial_state = NotDialled | Connected nat | WaitsForLock | WaitsForAnswer nat | DialFailed | HandshakeFailed | DialPanics

section \<open>Keys and messages of a session\<close>

text \<open>The two ids in the order of \<open>sort.Strings\<close>, joined by a colon, and hashed.\<close>

definition shared_secret :: "primitives \<Rightarrow> string \<Rightarrow> string \<Rightarrow> bytes" where
  "shared_secret P peerID1 peerID2 =
     sha256 P (if peerID2 < peerID1 then peerID2 @ '':'' @ peerID1 else peerID1 @ '':'' @ peerID2)"

definition hello :: "time \<Rightarrow> string \<Rightarrow> message" where
  "hello now localPeerID =
     \<lparr>ms_id = GenerateMessageID now, ms_type = ''handshake'', ms_timestamp = unix_sec now, ms_sender = localPeerID,
      ms_payload = Generic (JObj [(''peer_id'', JStr localPeerID)]), ms_correlation = None\<rparr>"

definition transport_ack :: "environment \<Rightarrow> time \<Rightarrow> message \<Rightarrow> failure option \<Rightarrow> message" where
  "transport_ack ev now msg err =
     WithCorrelationID (ms_id msg)
       (NewMessage now ''operation_ack'' []
         (OperationAck \<lparr>oa_operation_id = ms_id msg, oa_success = (err = None),
            oa_error = (case err of None \<Rightarrow> [] | Some f \<Rightarrow> ev_describe ev f)\<rparr>))"

text \<open>A message goes to the handler, and its answer to the socket on which the message came.\<close>

definition pass_to_handler :: "environment \<Rightarrow> time \<Rightarrow> message \<Rightarrow> bool \<Rightarrow> nat \<Rightarrow> 't host \<Rightarrow> 't host \<times> outcome" where
  "pass_to_handler ev now msg has_handler s h =
     (if has_handler then
        (case ReceiveMessage ev now msg (ht_messenger h) of
           (nm, Done) \<Rightarrow> (write_message s (transport_ack ev now msg None) (h\<lparr>ht_messenger := nm\<rparr>), Done)
         | (nm, Failed f) \<Rightarrow> (write_message s (transport_ack ev now msg (Some f)) (h\<lparr>ht_messenger := nm\<rparr>), Done)
         | (nm, r) \<Rightarrow> (h\<lparr>ht_messenger := nm\<rparr>, r))
      else (write_message s (transport_ack ev now msg None) h, Done))"

section \<open>Addresses\<close>

text \<open>\<open>Sscanf\<close> with \<open>%d\<close>: leading white space, of which only the ASCII characters are modelled, a sign, digits.\<close>

definition is_digit :: "char \<Rightarrow> bool" where
  "is_digit c \<longleftrightarrow> 48 \<le> byte_val c \<and> byte_val c \<le> 57"

definition digits_value :: "string \<Rightarrow> int" where
  "digits_value ds = foldl (\<lambda>n c. 10 * n + (int (byte_val c) - 48)) 0 ds"

fun scan_sign :: "string \<Rightarrow> bool \<times> string" where
  "scan_sign [] = (False, [])"
| "scan_sign (c # r) = (if c = CHR ''-'' then (True, r) else if c = CHR ''+'' then (False, r) else (False, c # r))"

definition sscanf_d :: "string \<Rightarrow> int64 option" where
  "sscanf_d s =
     (let (negative, s1) = scan_sign (dropWhile (\<lambda>c. byte_val c \<in> {9, 11, 12, 13, 32}) s);
          ds = takeWhile is_digit s1;
          n = (if negative then - digits_value ds else digits_value ds)
      in if ds = [] \<or> \<not> in_int64 n then None else Some n)"

definition address_text :: "string \<Rightarrow> int \<Rightarrow> string" where
  "address_text address port = address @ '':'' @ dec_int port"

text \<open>The loops of \<^verbatim>\<open>quic.go\<close> that look for the last colon.\<close>

definition host_part :: "string \<Rightarrow> string" where
  "host_part addr =
     (if length addr > 1 then (case dropWhile (\<lambda>c. c \<noteq> CHR '':'') (rev addr) of [] \<Rightarrow> addr | c # r \<Rightarrow> rev r) else addr)"

definition port_part :: "int \<Rightarrow> string \<Rightarrow> int" where
  "port_part port addr =
     (if length addr > 1 \<and> CHR '':'' \<in> set addr
      then (case sscanf_d (rev (takeWhile (\<lambda>c. c \<noteq> CHR '':'') (rev addr))) of None \<Rightarrow> port | Some n \<Rightarrow> n) else port)"

section \<open>Lemmas\<close>

lemma manager_simps [simp]:
  "manager (with_manager cm h) = cm" "manager (write_message s m h) = manager h" "manager (h\<lparr>ht_transport := t\<rparr>) = manager h"
  "manager (h\<lparr>ht_messenger := nm\<rparr>) = nd_conns (nm_node nm)" "manager (h\<lparr>ht_written := ws\<rparr>) = manager h"
  by (simp_all add: manager_def with_manager_def write_message_def)

lemma host_fields [simp]:
  "ht_transport (with_manager cm h) = ht_transport h" "ht_transport (write_message s m h) = ht_transport h"
  "ht_written (with_manager cm h) = ht_written h" "ht_written (write_message s m h) = ht_written h @ [(s, m)]"
  "ht_messenger (write_message s m h) = ht_messenger h"
  "ht_transport (register_peer now p a port h) = ht_transport h" "ht_written (register_peer now p a port h) = ht_written h"
  by (simp_all add: with_manager_def write_message_def register_peer_def)

lemma conn_of_register [simp]:
  "conn_of (manager (register_peer now p a port h)) q =
     (if q = p then Some \<lparr>cn_peer = p, cn_address = a, cn_port = port, cn_state = StateConnected, cn_connected_at = now,
        cn_last_seen = now, cn_last_heartbeat = now, cn_session_key = [], cn_retry_count = 0, cn_last_retry = zero_time\<rparr>
      else conn_of (manager h) q)"
  by (simp add: register_peer_def AddConnection_def Let_def)

lemma conn_of_SetSessionKey [simp]:
  "conn_of (fst (SetSessionKey p k cm)) q = (if q = p then map_option (\<lambda>c. c\<lparr>cn_session_key := k\<rparr>) (conn_of cm p) else conn_of cm q)"
  by (simp add: SetSessionKey_def split: option.split)

lemma GetConnection_conn_of: "GetConnection p cm = Inr c \<longleftrightarrow> conn_of cm p = Some c"
  by (simp add: GetConnection_def split: option.split)

text \<open>Both peers of a session derive the same key, since the order of the ids does not matter.\<close>

lemma shared_secret_commute: "shared_secret P p q = shared_secret P q p"
  by (cases p q rule: linorder_cases) (auto simp: shared_secret_def)

lemma byte_digit_char [simp]: "d < 10 \<Longrightarrow> byte_val (digit_char d) = 48 + d"
  by (simp add: digit_char_def)

lemma digits_value_snoc: "digits_value (ds @ [c]) = 10 * digits_value ds + (int (byte_val c) - 48)"
  by (simp add: digits_value_def)

lemma digits_value_dec_nat: "digits_value (dec_nat n) = int n"
proof (induction n rule: dec_nat.induct)
  case (1 n)
  show ?case
  proof (cases "n < 10")
    case True
    then show ?thesis by (subst dec_nat.simps) (simp add: digits_value_def)
  next
    case False
    then have "digits_value (dec_nat n) = 10 * int (n div 10) + int (n mod 10)"
      using 1 by (subst dec_nat.simps) (simp add: digits_value_snoc)
    then show ?thesis by (metis mult_div_mod_eq of_nat_add of_nat_mult of_nat_numeral)
  qed
qed

lemma dec_nat_digits: "list_all is_digit (dec_nat n) \<and> dec_nat n \<noteq> []"
proof (induction n rule: dec_nat.induct)
  case (1 n)
  have "is_digit (digit_char d)" if "d < 10" for d using that by (simp add: is_digit_def)
  then show ?case using 1 by (subst (1 2) dec_nat.simps) simp
qed

lemma sscanf_digits:
  assumes "list_all is_digit ds" "ds \<noteq> []" "in_int64 (digits_value ds)"
  shows "sscanf_d ds = Some (digits_value ds)"
proof -
  have t: "takeWhile is_digit ds = ds" using assms(1) by (simp add: list_all_iff)
  obtain c r where c: "ds = c # r" using assms(2) by (cases ds) auto
  have "is_digit c" using assms(1) c by simp
  then have "byte_val c \<notin> {9, 11, 12, 13, 32}" "c \<noteq> CHR ''-''" "c \<noteq> CHR ''+''" by (auto simp: is_digit_def)
  then have d: "dropWhile (\<lambda>c. byte_val c \<in> {9, 11, 12, 13, 32}) ds = ds" and g: "scan_sign ds = (False, ds)"
    by (simp_all add: c)
  show ?thesis unfolding sscanf_d_def d g by (simp add: t assms)
qed

lemma sscanf_dec_int:
  assumes "0 \<le> n" "in_int64 n"
  shows "sscanf_d (dec_int n) = Some n"
  using sscanf_digits [of "dec_nat (nat n)"] dec_nat_digits [of "nat n"] digits_value_dec_nat [of "nat n"] assms
  by (simp add: dec_int_def)

lemma no_colon_dec_int: "0 \<le> n \<Longrightarrow> CHR '':'' \<notin> set (dec_int n)"
  using dec_nat_digits [of "nat n"] by (auto simp: dec_int_def list_all_iff is_digit_def)

lemma dec_int_nonempty: "dec_int n \<noteq> []"
  using dec_nat_digits by (simp add: dec_int_def)

text \<open>The address that \<open>SendMessage\<close> formats is taken apart into its host and port again.\<close>

lemma address_parts:
  assumes "0 \<le> port" "in_int64 port"
  shows "host_part (address_text address port) = address" "port_part p (address_text address port) = port"
proof -
  have r: "rev (address_text address port) = rev (dec_int port) @ CHR '':'' # rev address" by (simp add: address_text_def)
  have n: "CHR '':'' \<notin> set (rev (dec_int port))" using no_colon_dec_int [OF assms(1)] by simp
  have l: "length (address_text address port) > 1" using dec_int_nonempty [of port] by (cases "dec_int port") (auto simp: address_text_def)
  have "dropWhile (\<lambda>c. c \<noteq> CHR '':'') (rev (address_text address port)) = CHR '':'' # rev address"
    unfolding r using n by (subst dropWhile_append2) auto
  then show "host_part (address_text address port) = address" using l by (simp add: host_part_def)
  have "takeWhile (\<lambda>c. c \<noteq> CHR '':'') (rev (address_text address port)) = rev (dec_int port)"
    unfolding r using n by (subst takeWhile_append2) auto
  then show "port_part p (address_text address port) = port"
    using l sscanf_dec_int [OF assms] by (simp add: port_part_def) (simp add: address_text_def)
qed

end
