(* ===== verification/TcpTransport.thy ===== *)
theory TcpTransport
  imports Sessions
begin

text \<open>
  The TCP transport, \<^verbatim>\<open>internal/network/transport/tcp.go\<close>. A socket is a number; its remote address is a host and a port, which
  is what \<open>SplitHostPort\<close> and \<open>Sscanf\<close> read from the text of a TCP address. A \<open>reader\<close> is the state
  of one goroutine of \<open>handleConnection\<close>. The lock of the table of connections (\<open>connectionsMu\<close>) is the
  field \<open>tp_held\<close>: \<open>lock_connections\<close> gives nothing while another call, or the same one, holds it. A call that waits for the
  lock is \<open>Blocked\<close> or \<open>WaitsForLock\<close>.
\<close>

section \<open>State\<close>

record tcp_transport =
  tp_port :: int
  tp_listening :: bool
  tp_stopped :: bool
  tp_has_handler :: bool
  tp_managed :: bool
  tp_connections :: "(string, nat) gomap"
  tp_held :: bool
  tp_peer :: string
  tp_handshakes :: "(string, bool) gomap"

type_synonym tcp_host = "tcp_transport host"

record reader =
  rd_socket :: nat
  rd_host :: string
  rd_port :: int
  rd_peer :: string
  rd_registered :: bool

definition NewTCPTransport :: "int \<Rightarrow> tcp_transport" where
  "NewTCPTransport port =
     \<lparr>tp_port = port, tp_listening = False, tp_stopped = False, tp_has_handler = False, tp_managed = False,
      tp_connections = [], tp_held = False, tp_peer = [], tp_handshakes = []\<rparr>"

definition SetTCPConnectionManager :: "tcp_transport \<Rightarrow> tcp_transport" where
  "SetTCPConnectionManager t = t\<lparr>tp_managed := True\<rparr>"

definition SetTCPPeerID :: "string \<Rightarrow> tcp_transport \<Rightarrow> tcp_transport" where
  "SetTCPPeerID peerID t = t\<lparr>tp_peer := peerID\<rparr>"

definition SetTCPMessageHandler :: "tcp_transport \<Rightarrow> tcp_transport" where
  "SetTCPMessageHandler t = t\<lparr>tp_has_handler := True\<rparr>"

text \<open>Start fails when the address does not resolve or the port cannot be listened on.\<close>

definition StartTCP :: "bool \<Rightarrow> bool \<Rightarrow> tcp_transport \<Rightarrow> tcp_transport \<times> bool" where
  "StartTCP resolves listens t = (if resolves \<and> listens then (t\<lparr>tp_listening := True\<rparr>, True) else (t, False))"

text \<open>A second call does nothing.\<close>

definition StopTCP :: "tcp_transport \<Rightarrow> tcp_transport" where
  "StopTCP t = (if tp_stopped t then t else t\<lparr>tp_stopped := True, tp_listening := False\<rparr>)"

definition tcp_session_key :: "primitives \<Rightarrow> string \<Rightarrow> string \<Rightarrow> bytes" where
  "tcp_session_key P peerID1 peerID2 =
     DeriveSessionKey P (shared_secret P peerID1 peerID2) ''p2p-sync-session-salt'' ''p2p-sync-aes-gcm-key''"

definition on_tcp :: "(tcp_transport \<Rightarrow> tcp_transport) \<Rightarrow> tcp_host \<Rightarrow> tcp_host" where
  "on_tcp f h = h\<lparr>ht_transport := f (ht_transport h)\<rparr>"

definition lock_connections :: "tcp_host \<Rightarrow> tcp_host option" where
  "lock_connections h = (if tp_held (ht_transport h) then None else Some (on_tcp (\<lambda>t. t\<lparr>tp_held := True\<rparr>) h))"

definition unlock_connections :: "tcp_host \<Rightarrow> tcp_host" where
  "unlock_connections h = on_tcp (\<lambda>t. t\<lparr>tp_held := False\<rparr>) h"

section \<open>Incoming messages\<close>

text \<open>A socket is kept unless the peer has one.\<close>

definition store_socket :: "string \<Rightarrow> nat \<Rightarrow> tcp_host \<Rightarrow> tcp_host option" where
  "store_socket peerID s h =
     map_option (\<lambda>h1. unlock_connections
         (if map_of (tp_connections (ht_transport h1)) peerID = None
          then on_tcp (\<lambda>t. t\<lparr>tp_connections := gm_put peerID s (tp_connections t)\<rparr>) h1 else h1))
       (lock_connections h)"

definition set_key :: "environment \<Rightarrow> string \<Rightarrow> tcp_host \<Rightarrow> tcp_host" where
  "set_key ev peerID h =
     with_manager (fst (SetSessionKey peerID (tcp_session_key (ev_crypto ev) (tp_peer (ht_transport h)) peerID) (manager h))) h"

text \<open>The connection manager is updated under the lock as well.\<close>

definition updatePeerID :: "time \<Rightarrow> string \<Rightarrow> string \<Rightarrow> tcp_host \<Rightarrow> tcp_host option" where
  "updatePeerID now oldID newID h =
     map_option (\<lambda>h1.
       let h2 = (case map_of (tp_connections (ht_transport h1)) oldID of
                   None \<Rightarrow> h1
                 | Some s \<Rightarrow> on_tcp (\<lambda>t. t\<lparr>tp_connections := gm_put newID s (gm_del oldID (tp_connections t))\<rparr>) h1);
           h3 = (if tp_managed (ht_transport h2) then
                   (case GetConnection oldID (manager h2) of
                      Inl _ \<Rightarrow> h2
                    | Inr oldConn \<Rightarrow>
                        register_peer now newID (cn_address oldConn) (cn_port oldConn)
                          (with_manager (RemoveConnection oldID (manager h2)) h2))
                 else h2)
       in unlock_connections h3) (lock_connections h)"

text \<open>The first message with a sender registers the peer. Only a handshake leads to a key and is answered.\<close>

definition first_message :: "environment \<Rightarrow> time \<Rightarrow> message \<Rightarrow> reader \<Rightarrow> tcp_host \<Rightarrow> reader \<times> tcp_host \<times> outcome" where
  "first_message ev now msg rd h =
     (let peerID = ms_sender msg;
          rd1 = rd\<lparr>rd_peer := peerID\<rparr>;
          h1 = register_peer now peerID (rd_host rd) (rd_port rd) h;
          hello_came = ms_type msg = ''handshake'';
          h2 = (if hello_came \<and> tp_peer (ht_transport h) \<noteq> [] then set_key ev peerID h1 else h1)
      in case store_socket peerID (rd_socket rd) h2 of
           None \<Rightarrow> (rd1, h2, Blocked)
         | Some h3 \<Rightarrow>
             (rd1\<lparr>rd_registered := True\<rparr>,
              if hello_came then write_message (rd_socket rd) (hello now (tp_peer (ht_transport h3))) h3 else h3, Done))"

definition later_hello :: "environment \<Rightarrow> time \<Rightarrow> message \<Rightarrow> reader \<Rightarrow> tcp_host \<Rightarrow> reader \<times> tcp_host \<times> outcome" where
  "later_hello ev now msg rd h =
     (if ms_sender msg \<noteq> rd_peer rd \<and> tp_peer (ht_transport h) \<noteq> [] then
        (case updatePeerID now (rd_peer rd) (ms_sender msg) h of
           None \<Rightarrow> (rd, h, Blocked)
         | Some h1 \<Rightarrow> (rd\<lparr>rd_peer := ms_sender msg\<rparr>, set_key ev (ms_sender msg) h1, Done))
      else (rd, h, Done))"

text \<open>One round of the loop of \<open>handleConnection\<close>.\<close>

definition socket_message :: "environment \<Rightarrow> time \<Rightarrow> message \<Rightarrow> reader \<Rightarrow> tcp_host \<Rightarrow> reader \<times> tcp_host \<times> outcome" where
  "socket_message ev now msg rd h =
     (let first = \<not> rd_registered rd \<and> tp_managed (ht_transport h) \<and> ms_sender msg \<noteq> []
      in case (if first then first_message ev now msg rd h else (rd, h, Done)) of
           (rd1, h1, Done) \<Rightarrow>
             (if first \<and> ms_type msg = ''handshake'' then (rd1, h1, Done)
              else if ms_type msg = ''handshake'' \<and> rd_registered rd1 then later_hello ev now msg rd1 h1
              else (case pass_to_handler ev now msg (tp_has_handler (ht_transport h1)) (rd_socket rd1) h1 of
                      (h2, r) \<Rightarrow> (rd1, h2, r)))
         | r \<Rightarrow> r)"

fun handleConnection :: "environment \<Rightarrow> (time \<times> message) list \<Rightarrow> reader \<Rightarrow> tcp_host \<Rightarrow> reader \<times> tcp_host \<times> outcome" where
  "handleConnection ev [] rd h = (rd, h, Done)"
| "handleConnection ev ((now, msg) # msgs) rd h =
     (if tp_stopped (ht_transport h) then (rd, h, Done)
      else
        (case socket_message ev now msg rd h of
           (rd1, h1, Done) \<Rightarrow> handleConnection ev msgs rd1 h1
         | r \<Rightarrow> r))"

section \<open>Connections to peers\<close>

text \<open>
  What happens around a call: the socket that dialling gives, whether the handshake can be written, and what
  \<open>readHandshakeResponse\<close> decodes within its ten seconds; the goroutine of \<open>handleConnection\<close>
  reads the same socket and may have taken the answer.
\<close>

record tcp_io =
  ti_socket :: "nat option"
  ti_hello_written :: bool
  ti_answer :: "(time \<times> message) option"
  ti_written :: bool

definition readHandshakeResponse :: "environment \<Rightarrow> (time \<times> message) option \<Rightarrow> string \<Rightarrow> nat \<Rightarrow> tcp_host \<Rightarrow> tcp_host \<times> dial_state" where
  "readHandshakeResponse ev answer placeholderPeerID s h =
     (case answer of
        None \<Rightarrow> (h, HandshakeFailed)
      | Some (now, msg) \<Rightarrow>
          if ms_type msg = ''handshake'' \<and> ms_sender msg \<noteq> [] then
            (case updatePeerID now placeholderPeerID (ms_sender msg) h of
               None \<Rightarrow> (h, WaitsForLock)
             | Some h1 \<Rightarrow>
                 if tp_peer (ht_transport h1) \<noteq> [] then
                   (if \<not> tp_managed (ht_transport h1) then (h1, DialPanics)
                    else case conn_of (manager h1) (ms_sender msg) of
                      None \<Rightarrow> (h1, HandshakeFailed)
                    | Some _ \<Rightarrow> (set_key ev (ms_sender msg) h1, Connected s))
                 else (h1, Connected s))
          else (h, HandshakeFailed))"

text \<open>The lock is released when the call returns, and not before.\<close>

definition dial_peer :: "environment \<Rightarrow> time \<Rightarrow> string \<Rightarrow> string \<Rightarrow> int \<Rightarrow> tcp_io \<Rightarrow> tcp_host \<Rightarrow> tcp_host \<times> dial_state" where
  "dial_peer ev now peerID address port io h =
     (case ti_socket io of
        None \<Rightarrow> (h, DialFailed)
      | Some s \<Rightarrow>
          (let h1 = on_tcp (\<lambda>t. t\<lparr>tp_connections := gm_put peerID s (tp_connections t)\<rparr>) h;
               h2 = (if tp_managed (ht_transport h1) then register_peer now peerID address port h1 else h1);
               t = ht_transport h2
           in if tp_peer t = [] then (h2, Connected s)
              else
                (let alreadySent = gm_get False (tp_handshakes t) peerID;
                     h3 = on_tcp (\<lambda>t. t\<lparr>tp_handshakes := gm_put peerID True (tp_handshakes t)\<rparr>) h2
                 in if alreadySent then (h3, Connected s)
                    else if \<not> ti_hello_written io then (h3, HandshakeFailed)
                    else readHandshakeResponse ev (ti_answer io) peerID s (write_message s (hello now (tp_peer t)) h3))))"

definition getOrCreateTCP :: "environment \<Rightarrow> time \<Rightarrow> string \<Rightarrow> string \<Rightarrow> int \<Rightarrow> tcp_io \<Rightarrow> tcp_host \<Rightarrow> tcp_host \<times> dial_state" where
  "getOrCreateTCP ev now peerID address port io h =
     (case lock_connections h of
        None \<Rightarrow> (h, WaitsForLock)
      | Some h0 \<Rightarrow>
          (case map_of (tp_connections (ht_transport h)) peerID of
             Some s \<Rightarrow> (h, Connected s)
           | None \<Rightarrow>
               (case dial_peer ev now peerID address port io h0 of
                  (h1, WaitsForLock) \<Rightarrow> (h1, WaitsForLock)
                | (h1, r) \<Rightarrow> (unlock_connections h1, r))))"

definition ConnectToPeerTCP :: "environment \<Rightarrow> time \<Rightarrow> string \<Rightarrow> string \<Rightarrow> int \<Rightarrow> tcp_io \<Rightarrow> tcp_host \<Rightarrow> tcp_host \<times> dial_state" where
  "ConnectToPeerTCP ev now peerID address port io h = getOrCreateTCP ev now peerID address port io h"

definition SendMessageTCP ::
  "environment \<Rightarrow> time \<Rightarrow> string \<Rightarrow> string \<Rightarrow> int \<Rightarrow> message \<Rightarrow> tcp_io \<Rightarrow> tcp_host \<Rightarrow> tcp_host \<times> outcome" where
  "SendMessageTCP ev now peerID address port msg io h =
     (case getOrCreateTCP ev now peerID address port io h of
        (h1, Connected s) \<Rightarrow>
          if ti_written io then (write_message s msg h1, Done)
          else (on_tcp (\<lambda>t. t\<lparr>tp_connections := gm_del peerID (tp_connections t)\<rparr>) h1, Failed SendRefused)
      | (h1, WaitsForLock) \<Rightarrow> (h1, Blocked)
      | (h1, _) \<Rightarrow> (h1, Failed SendRefused))"

section \<open>Lemmas\<close>

lemma on_tcp_fields [simp]:
  "ht_transport (on_tcp f h) = f (ht_transport h)" "ht_messenger (on_tcp f h) = ht_messenger h"
  "ht_written (on_tcp f h) = ht_written h" "manager (on_tcp f h) = manager h"
  by (simp_all add: on_tcp_def manager_def)

lemma lock_held [simp]: "tp_held (ht_transport h) \<Longrightarrow> lock_connections h = None"
  by (simp add: lock_connections_def)

lemma tcp_session_key_commute: "tcp_session_key P p q = tcp_session_key P q p"
  by (simp add: tcp_session_key_def shared_secret_commute)

lemma set_key_fields [simp]: "ht_transport (set_key ev p h) = ht_transport h" "ht_written (set_key ev p h) = ht_written h"
  by (simp_all add: set_key_def)

end
