(* ===== verification/QuicTransport.thy ===== *)
theory QuicTransport
  imports Sessions
begin

text \<open>
  The QUIC transport, \<^verbatim>\<open>internal/network/transport/quic.go\<close>, the default protocol. Connections and streams are
  numbers; dialling, opening a stream and writing on it succeed or fail as the record \<open>quic_io\<close> says. The lock of the table of
  connections (\<open>connectionsMu\<close>) is a field: \<open>getOrCreateConnection\<close> holds it while it waits for the answer to its
  handshake, so the call is split at that point into \<open>dial_begin\<close> and \<open>dial_end\<close>, and a step that needs the
  lock is blocked meanwhile. TLS with the certificate that nobody verifies is the library's part.
\<close>

section \<open>State\<close>

record quic_transport =
  qt_port :: int
  qt_listening :: bool
  qt_stopped :: bool
  qt_has_handler :: bool
  qt_connections :: "(string, nat) gomap"
  qt_held :: bool
  qt_managed :: bool
  qt_peer :: string
  qt_handshakes :: "(string, bool) gomap"

type_synonym quic_host = "quic_transport host"

definition NewQUICTransport :: "int \<Rightarrow> quic_transport" where
  "NewQUICTransport port =
     \<lparr>qt_port = port, qt_listening = False, qt_stopped = False, qt_has_handler = False, qt_connections = [],
      qt_held = False, qt_managed = False, qt_peer = [], qt_handshakes = []\<rparr>"

definition StartQUIC :: "bool \<Rightarrow> quic_transport \<Rightarrow> quic_transport \<times> bool" where
  "StartQUIC listens t = (if listens then (t\<lparr>qt_listening := True\<rparr>, True) else (t, False))"

text \<open>Closing the stop channel twice panics.\<close>

definition StopQUIC :: "quic_transport \<Rightarrow> quic_transport option" where
  "StopQUIC t = (if qt_stopped t then None else Some (t\<lparr>qt_stopped := True\<rparr>))"

definition SetQUICMessageHandler :: "quic_transport \<Rightarrow> quic_transport" where
  "SetQUICMessageHandler t = t\<lparr>qt_has_handler := True\<rparr>"

definition SetQUICConnectionManager :: "quic_transport \<Rightarrow> quic_transport" where
  "SetQUICConnectionManager t = t\<lparr>qt_managed := True\<rparr>"

definition SetQUICPeerID :: "string \<Rightarrow> quic_transport \<Rightarrow> quic_transport" where
  "SetQUICPeerID peerID t = t\<lparr>qt_peer := peerID\<rparr>"

definition quic_session_key :: "primitives \<Rightarrow> string \<Rightarrow> string \<Rightarrow> bytes" where
  "quic_session_key P peerID1 peerID2 =
     hkdf_sha256 P (shared_secret P peerID1 peerID2) ''p2p-sync-session-salt'' ''p2p-sync-session-key'' 32"

definition on_quic :: "(quic_transport \<Rightarrow> quic_transport) \<Rightarrow> quic_host \<Rightarrow> quic_host" where
  "on_quic f h = h\<lparr>ht_transport := f (ht_transport h)\<rparr>"

section \<open>Streams that peers open\<close>

text \<open>A handshake on an incoming stream: the connection is kept unless the peer has one, and gets the key.\<close>

definition accept_hello :: "environment \<Rightarrow> time \<Rightarrow> string \<Rightarrow> nat \<Rightarrow> string \<Rightarrow> quic_host \<Rightarrow> quic_host" where
  "accept_hello ev now sender conn remoteAddr h =
     (let t = ht_transport h;
          h1 = (if map_of (qt_connections t) sender = None
                then on_quic (\<lambda>t. t\<lparr>qt_connections := gm_put sender conn (qt_connections t)\<rparr>) h else h);
          h2 = (if qt_managed t then register_peer now sender (host_part remoteAddr) (qt_port t) h1 else h1)
      in if qt_peer t \<noteq> [] \<and> qt_managed t
         then with_manager (fst (SetSessionKey sender (quic_session_key (ev_crypto ev) (qt_peer t) sender) (manager h2))) h2
         else h2)"

text \<open>One message of a stream. The flag says whether the stream stays open.\<close>

definition stream_message ::
  "environment \<Rightarrow> time \<Rightarrow> message \<Rightarrow> nat \<Rightarrow> string \<Rightarrow> nat \<Rightarrow> quic_host \<Rightarrow> quic_host \<times> outcome \<times> bool" where
  "stream_message ev now msg conn remoteAddr s h =
     (if ms_type msg = ''handshake'' \<and> ms_sender msg \<noteq> [] then
        (if qt_held (ht_transport h) then (h, Blocked, True)
         else (let h1 = accept_hello ev now (ms_sender msg) conn remoteAddr h
               in (write_message s (hello now (qt_peer (ht_transport h))) h1, Done, False)))
      else
        (case pass_to_handler ev now msg (qt_has_handler (ht_transport h)) s h of (h1, r) \<Rightarrow> (h1, r, True)))"

fun handleStream :: "environment \<Rightarrow> (time \<times> message) list \<Rightarrow> nat \<Rightarrow> string \<Rightarrow> nat \<Rightarrow> quic_host \<Rightarrow> quic_host \<times> outcome" where
  "handleStream ev [] conn remoteAddr s h = (h, Done)"
| "handleStream ev ((now, msg) # msgs) conn remoteAddr s h =
     (if qt_stopped (ht_transport h) then (h, Done)
      else
        (case stream_message ev now msg conn remoteAddr s h of
           (h1, Done, True) \<Rightarrow> handleStream ev msgs conn remoteAddr s h1
         | (h1, r, _) \<Rightarrow> (h1, r)))"

section \<open>Connections to peers\<close>

record quic_io =
  qi_dial :: "nat option"
  qi_hello_stream :: "nat option"
  qi_answer :: "(time \<times> message) option"
  qi_stream :: "nat option"
  qi_encoded :: bool

definition dial_begin :: "time \<Rightarrow> string \<Rightarrow> string \<Rightarrow> quic_io \<Rightarrow> quic_host \<Rightarrow> quic_host \<times> dial_state" where
  "dial_begin now peerID addr io h =
     (let t = ht_transport h
      in if qt_held t then (h, WaitsForLock)
         else
           (case map_of (qt_connections t) peerID of
              Some c \<Rightarrow> (h, Connected c)
            | None \<Rightarrow>
                (case qi_dial io of
                   None \<Rightarrow> (h, DialFailed)
                 | Some c \<Rightarrow>
                     (let h1 = on_quic (\<lambda>t. t\<lparr>qt_connections := gm_put peerID c (qt_connections t)\<rparr>) h;
                          h2 = (if qt_managed t then register_peer now peerID (host_part addr) (port_part (qt_port t) addr) h1 else h1)
                      in if qt_peer t = [] then (h2, Connected c)
                         else
                           (let alreadySent = gm_get False (qt_handshakes t) peerID;
                                h3 = on_quic (\<lambda>t. t\<lparr>qt_handshakes := gm_put peerID True (qt_handshakes t)\<rparr>) h2
                            in if alreadySent then (h3, Connected c)
                               else
                                 (case qi_hello_stream io of
                                    None \<Rightarrow> (h3, HandshakeFailed)
                                  | Some s \<Rightarrow>
                                      (write_message s (hello now (qt_peer t)) (on_quic (\<lambda>t. t\<lparr>qt_held := True\<rparr>) h3),
                                       WaitsForAnswer c)))))))"

text \<open>The answer is \<open>None\<close> when none came within ten seconds, or one that does not decode.\<close>

definition dial_end :: "environment \<Rightarrow> message option \<Rightarrow> nat \<Rightarrow> quic_host \<Rightarrow> quic_host \<times> dial_state" where
  "dial_end ev answer c h =
     (let h1 = on_quic (\<lambda>t. t\<lparr>qt_held := False\<rparr>) h; t = ht_transport h1
      in case answer of
           None \<Rightarrow> (h1, HandshakeFailed)
         | Some m \<Rightarrow>
             if ms_type m = ''handshake'' \<and> ms_sender m \<noteq> [] then
               (if qt_peer t \<noteq> [] \<and> qt_managed t then
                  (case SetSessionKey (ms_sender m) (quic_session_key (ev_crypto ev) (qt_peer t) (ms_sender m)) (manager h1) of
                     (cm, None) \<Rightarrow> (with_manager cm h1, Connected c)
                   | (cm, Some _) \<Rightarrow> (h1, HandshakeFailed))
                else (h1, Connected c))
             else (h1, HandshakeFailed))"

definition getOrCreateQUIC :: "environment \<Rightarrow> time \<Rightarrow> string \<Rightarrow> string \<Rightarrow> quic_io \<Rightarrow> quic_host \<Rightarrow> quic_host \<times> dial_state" where
  "getOrCreateQUIC ev now peerID addr io h =
     (case dial_begin now peerID addr io h of
        (h1, WaitsForAnswer c) \<Rightarrow> dial_end ev (map_option snd (qi_answer io)) c h1
      | r \<Rightarrow> r)"

definition ConnectToPeerQUIC :: "environment \<Rightarrow> time \<Rightarrow> string \<Rightarrow> string \<Rightarrow> int \<Rightarrow> quic_io \<Rightarrow> quic_host \<Rightarrow> quic_host \<times> dial_state" where
  "ConnectToPeerQUIC ev now peerID address port io h = getOrCreateQUIC ev now peerID (address_text address port) io h"

text \<open>A connection on which no stream can be opened is forgotten; the next message dials again.\<close>

definition SendMessageQUIC ::
  "environment \<Rightarrow> time \<Rightarrow> string \<Rightarrow> string \<Rightarrow> int \<Rightarrow> message \<Rightarrow> quic_io \<Rightarrow> quic_host \<Rightarrow> quic_host \<times> bool" where
  "SendMessageQUIC ev now peerID address port msg io h =
     (case getOrCreateQUIC ev now peerID (address_text address port) io h of
        (h1, Connected c) \<Rightarrow>
          (case qi_stream io of
             None \<Rightarrow> (on_quic (\<lambda>t. t\<lparr>qt_connections := gm_del peerID (qt_connections t)\<rparr>) h1, False)
           | Some s \<Rightarrow> if qi_encoded io then (write_message s msg h1, True) else (h1, False))
      | (h1, _) \<Rightarrow> (h1, False))"

section \<open>Lemmas\<close>

lemma on_quic_fields [simp]:
  "ht_transport (on_quic f h) = f (ht_transport h)" "ht_messenger (on_quic f h) = ht_messenger h"
  "ht_written (on_quic f h) = ht_written h" "manager (on_quic f h) = manager h"
  by (simp_all add: on_quic_def manager_def)

lemma quic_session_key_commute: "quic_session_key P p q = quic_session_key P q p"
  by (simp add: quic_session_key_def shared_secret_commute)

lemma accept_hello_conn:
  assumes "qt_managed (ht_transport h)" "qt_peer (ht_transport h) \<noteq> []"
  shows "conn_of (manager (accept_hello ev now p c addr h)) q =
    (if q = p then Some \<lparr>cn_peer = p, cn_address = host_part addr, cn_port = qt_port (ht_transport h), cn_state = StateConnected,
        cn_connected_at = now, cn_last_seen = now, cn_last_heartbeat = now,
        cn_session_key = quic_session_key (ev_crypto ev) (qt_peer (ht_transport h)) p, cn_retry_count = 0, cn_last_retry = zero_time\<rparr>
     else conn_of (manager h) q)"
  using assms by (simp add: accept_hello_def Let_def)

lemma accept_hello_fields [simp]:
  "ht_written (accept_hello ev now p c addr h) = ht_written h"
  "qt_held (ht_transport (accept_hello ev now p c addr h)) = qt_held (ht_transport h)"
  "qt_peer (ht_transport (accept_hello ev now p c addr h)) = qt_peer (ht_transport h)"
  by (simp_all add: accept_hello_def Let_def)

text \<open>A dial that has to greet the peer: what it leaves behind while it waits.\<close>

lemma dial_begin_waits:
  assumes "\<not> qt_held (ht_transport h)" "map_of (qt_connections (ht_transport h)) p = None" "qi_dial io = Some c"
    and "qt_managed (ht_transport h)" "qt_peer (ht_transport h) \<noteq> []" "\<not> gm_get False (qt_handshakes (ht_transport h)) p"
    and "qi_hello_stream io = Some s"
  obtains h' where "dial_begin now p addr io h = (h', WaitsForAnswer c)" "qt_held (ht_transport h')"
    "qt_peer (ht_transport h') = qt_peer (ht_transport h)" "qt_managed (ht_transport h')"
    "ht_written h' = ht_written h @ [(s, hello now (qt_peer (ht_transport h)))]"
    "\<And>q. conn_of (manager h') q = conn_of (manager (register_peer now p (host_part addr) (port_part (qt_port (ht_transport h)) addr) h)) q"
    "map_of (qt_connections (ht_transport h')) p = Some c"
  using assms by (simp add: dial_begin_def Let_def store_laws)

lemma hello_on_wire:
  assumes "text_laws J" "ascii p" "in_int64 (unix_sec now)"
  shows "on_wire J (hello now p) = Some (hello now p)"
  using on_wire_message [OF assms(1), of "hello now p"] assms(2,3) by (simp add: hello_def message_ok_def optional_def)

end
