(* ===== verification/QuicProperties.thy ===== *)
theory QuicProperties
  imports QuicTransport
begin

text \<open>
  What two peers get from the QUIC transport: the session that one dial establishes and the messages it
  carries, what is lost when a connection breaks, who else can have a session, and
  what happens when both dial at the same time. The last is a transition system of two hosts
  whose steps are those of the dialling goroutine and of the goroutine that serves the other's stream.
\<close>

section \<open>A dial\<close>

definition hkdf_laws :: "primitives \<Rightarrow> bool" where
  "hkdf_laws P \<longleftrightarrow> (\<forall>secret salt info n. length (hkdf_sha256 P secret salt info n) = n)"

lemma quic_key_length: "hkdf_laws P \<Longrightarrow> length (quic_session_key P p q) = 32"
  by (simp add: hkdf_laws_def quic_session_key_def)

text \<open>A host with a connection manager and an id, whose table of connections is not locked.\<close>

definition online :: "string \<Rightarrow> quic_host \<Rightarrow> bool" where
  "online p h \<longleftrightarrow> qt_managed (ht_transport h) \<and> qt_peer (ht_transport h) = p \<and> p \<noteq> [] \<and> \<not> qt_held (ht_transport h)"

text \<open>A peer that was not dialled before and has no connection.\<close>

definition unknown :: "string \<Rightarrow> quic_host \<Rightarrow> bool" where
  "unknown p h \<longleftrightarrow> map_of (qt_connections (ht_transport h)) p = None \<and> \<not> gm_get False (qt_handshakes (ht_transport h)) p"

lemma same_key_carries:
  assumes "aead_laws (ev_crypto ev)" "text_laws (ev_json ev)" "length k = 32" "length iv = 12" "cn_session_key conn = k"
    and "message_ok p" "payload_ok (ms_payload p)" "json_ascii (enc_payload (ms_payload p))" "payload_type (ms_payload p) = ms_type p"
    and "encryptMessagePayload ev iv p k = Inr e"
  shows "\<exists>m. on_wire (ev_json ev) (p\<lparr>ms_payload := Encrypted e\<rparr>) = Some m \<and> ms_sender m = ms_sender p \<and> carries ev conn m p"
  using encrypted_message_carries [OF assms(1,2) _ assms(4,6-9)] assms(3,5,10) by simp

lemma serve_hello:
  assumes "online b B" "a \<noteq> []"
  shows "stream_message ev t (hello t0 a) c remote s B = (write_message s (hello t b) (accept_hello ev t a c remote B), Done, False)"
    and "\<exists>conn. conn_of (manager (accept_hello ev t a c remote B)) a = Some conn \<and> cn_state conn = StateConnected \<and>
      cn_session_key conn = quic_session_key (ev_crypto ev) b a"
  using assms by (simp_all add: stream_message_def hello_def online_def Let_def accept_hello_conn)

text \<open>C4. One dial establishes a session. The caller sends its id and waits, the other side answers with its own, and
  then both connection managers hold a connected peer under the other's id with the same key of 32 bytes, although
  no secret was exchanged. Every message that the caller encrypts under its key is decrypted on the other side.
\<close>

theorem quic_dial_establishes_session:
  assumes "online a A" "unknown b A" "online b B" "qi_dial io = Some c" "qi_hello_stream io = Some s"
    and "text_laws (ev_json ev)" "aead_laws (ev_crypto ev)" "hkdf_laws (ev_crypto ev)"
    and "ascii a" "ascii b" "in_int64 (unix_sec t1)" "in_int64 (unix_sec t2)"
  shows "\<exists>A1 B1 A2 m r ca cb.
    dial_begin t1 b addr io A = (A1, WaitsForAnswer c) \<and> ht_written A1 = ht_written A @ [(s, m)] \<and> on_wire (ev_json ev) m = Some m \<and>
    stream_message ev t2 m c' remote s' B = (B1, Done, False) \<and> ht_written B1 = ht_written B @ [(s', r)] \<and> on_wire (ev_json ev) r = Some r \<and>
    dial_end ev (Some r) c A1 = (A2, Connected c) \<and> online a A2 \<and>
    conn_of (manager A2) b = Some ca \<and> conn_of (manager B1) a = Some cb \<and> cn_state ca = StateConnected \<and> cn_state cb = StateConnected \<and>
    length (cn_session_key ca) = 32 \<and> cn_session_key ca = cn_session_key cb \<and>
    (\<forall>iv p e. length iv = 12 \<and> message_ok p \<and> payload_ok (ms_payload p) \<and> json_ascii (enc_payload (ms_payload p)) \<and>
       payload_type (ms_payload p) = ms_type p \<and> encryptMessagePayload ev iv p (cn_session_key ca) = Inr e \<longrightarrow>
       (\<exists>w. on_wire (ev_json ev) (p\<lparr>ms_payload := Encrypted e\<rparr>) = Some w \<and> carries ev cb w p))"
proof -
  let ?k = "quic_session_key (ev_crypto ev) a b"
  note a = assms(1) [unfolded online_def] and b = assms(3) [unfolded online_def] and u = assms(2) [unfolded unknown_def]
  obtain A1 where A1: "dial_begin t1 b addr io A = (A1, WaitsForAnswer c)" "qt_peer (ht_transport A1) = a" "qt_managed (ht_transport A1)"
    "ht_written A1 = ht_written A @ [(s, hello t1 a)]"
    "\<And>q. conn_of (manager A1) q = conn_of (manager (register_peer t1 b (host_part addr) (port_part (qt_port (ht_transport A)) addr) A)) q"
    using dial_begin_waits [of A b io c s t1 addr] a u assms(4,5) by metis
  let ?B1 = "write_message s' (hello t2 b) (accept_hello ev t2 a c' remote B)"
  obtain cb where cb: "conn_of (manager ?B1) a = Some cb" "cn_state cb = StateConnected" "cn_session_key cb = ?k"
    using serve_hello(2) [OF assms(3), of a ev t2 c' remote] a quic_session_key_commute by fastforce
  obtain A2 ca where A2: "dial_end ev (Some (hello t2 b)) c A1 = (A2, Connected c)" "online a A2" "conn_of (manager A2) b = Some ca"
    "cn_state ca = StateConnected" "cn_session_key ca = ?k"
    using A1(2,3,5) a b by (simp add: dial_end_def hello_def SetSessionKey_def Let_def online_def)
  have len: "length ?k = 32" by (rule quic_key_length [OF assms(8)])
  have carried: "\<exists>w. on_wire (ev_json ev) (p\<lparr>ms_payload := Encrypted e\<rparr>) = Some w \<and> carries ev cb w p"
    if "length iv = 12 \<and> message_ok p \<and> payload_ok (ms_payload p) \<and> json_ascii (enc_payload (ms_payload p)) \<and>
      payload_type (ms_payload p) = ms_type p \<and> encryptMessagePayload ev iv p (cn_session_key ca) = Inr e" for iv p e
    using same_key_carries [OF assms(7,6) len _ cb(3), of iv p e] that A2(5) by auto
  show ?thesis
    using A1(1,4) A2 cb len carried serve_hello(1) [OF assms(3), of a ev t2 t1 c' remote s'] a
      hello_on_wire [OF assms(6,9,11)] hello_on_wire [OF assms(6,10,12)]
    by (intro exI [of _ A1] exI [of _ ?B1] exI [of _ A2] exI [of _ "hello t1 a"] exI [of _ "hello t2 b"] exI [of _ ca] exI [of _ cb]) auto
qed


section \<open>A broken connection\<close>

lemma no_key_no_message:
  "GetConnection p (nd_conns (nm_node nm)) = Inr conn \<Longrightarrow> cn_session_key conn = [] \<Longrightarrow>
   sendMessage ev p msg st nm = (nm, Failed (NoSessionKey []))"
  by (simp add: sendMessage_def encryptMessagePayload_def)

text \<open>A session does not survive its connection. When no stream can be opened any more the message is refused and the
  connection is forgotten; the next message dials again, which replaces the entry of the connection manager by one
  without a key, and no handshake follows because one was sent before. From then on no message
  to that peer can be encrypted, and connecting again changes nothing.
\<close>

theorem redial_loses_session:
  assumes "online a h" "map_of (qt_connections (ht_transport h)) p = Some c0" "gm_get False (qt_handshakes (ht_transport h)) p"
    and "qi_stream io = None" "qi_dial io' = Some c" "qi_stream io' = Some s" "qi_encoded io'"
  shows "\<exists>h1 h2. SendMessageQUIC ev t p addr port m io h = (h1, False) \<and> SendMessageQUIC ev t' p addr port m io' h1 = (h2, True) \<and>
    (\<forall>msg st. sendMessage ev p msg st (ht_messenger h2) = (ht_messenger h2, Failed (NoSessionKey []))) \<and>
    (\<forall>t'' io''. ConnectToPeerQUIC ev t'' p addr port io'' h2 = (h2, Connected c))"
proof -
  note a = assms(1) [unfolded online_def]
  let ?h1 = "on_quic (\<lambda>t. t\<lparr>qt_connections := gm_del p (qt_connections t)\<rparr>) h"
  have 1: "SendMessageQUIC ev t p addr port m io h = (?h1, False)"
    using a assms(2,4) by (simp add: SendMessageQUIC_def getOrCreateQUIC_def dial_begin_def)
  obtain h2 where 2: "SendMessageQUIC ev t' p addr port m io' ?h1 = (h2, True)" "\<not> qt_held (ht_transport h2)"
    "map_of (qt_connections (ht_transport h2)) p = Some c" and key: "\<exists>conn. conn_of (manager h2) p = Some conn \<and> cn_session_key conn = []"
    using a assms(3,5-7) by (simp add: SendMessageQUIC_def getOrCreateQUIC_def dial_begin_def Let_def store_laws)
  have "sendMessage ev p msg st (ht_messenger h2) = (ht_messenger h2, Failed (NoSessionKey []))" for msg st
    using key no_key_no_message [of p "ht_messenger h2"] by (auto simp: GetConnection_conn_of simp flip: manager_def)
  moreover have "ConnectToPeerQUIC ev t'' p addr port io'' h2 = (h2, Connected c)" for t'' io''
    using 2 by (simp add: ConnectToPeerQUIC_def getOrCreateQUIC_def dial_begin_def)
  ultimately show ?thesis using 1 2(1) by blast
qed

section \<open>Two dials at the same time\<close>

text \<open>
  A side is a host, the state of its call of \<open>ConnectToPeer\<close>, the greetings that came on streams of the
  other side and are not served yet, and the answers to its own greeting.
\<close>

record side =
  sd_host :: quic_host
  sd_dial :: dial_state
  sd_inbox :: "message list"
  sd_answers :: "message list"

inductive act :: "environment \<Rightarrow> side \<times> side \<Rightarrow> side \<times> side \<Rightarrow> bool" for ev where
  Dial: "sd_dial a = NotDialled \<Longrightarrow> dial_begin t peer addr io (sd_host a) = (h, WaitsForAnswer c) \<Longrightarrow>
    ht_written h = ht_written (sd_host a) @ [(s, m)] \<Longrightarrow> on_wire (ev_json ev) m = Some m' \<Longrightarrow>
    act ev (a, b) (a\<lparr>sd_host := h, sd_dial := WaitsForAnswer c\<rparr>, b\<lparr>sd_inbox := sd_inbox b @ [m']\<rparr>)"
| DialEnds: "sd_dial a = NotDialled \<Longrightarrow> dial_begin t peer addr io (sd_host a) = (h, st) \<Longrightarrow>
    st \<in> {DialFailed, HandshakeFailed} \<or> st = Connected c \<Longrightarrow> act ev (a, b) (a\<lparr>sd_host := h, sd_dial := st\<rparr>, b)"
| Serve: "sd_inbox a = m # ms \<Longrightarrow> stream_message ev t m c remote s (sd_host a) = (h, Done, False) \<Longrightarrow>
    ht_written h = ht_written (sd_host a) @ [(s, r)] \<Longrightarrow> on_wire (ev_json ev) r = Some r' \<Longrightarrow>
    act ev (a, b) (a\<lparr>sd_host := h, sd_inbox := ms\<rparr>, b\<lparr>sd_answers := sd_answers b @ [r']\<rparr>)"
| Answer: "sd_dial a = WaitsForAnswer c \<Longrightarrow> sd_answers a = r # rs \<Longrightarrow> dial_end ev (Some r) c (sd_host a) = (h, st) \<Longrightarrow>
    act ev (a, b) (a\<lparr>sd_host := h, sd_dial := st, sd_answers := rs\<rparr>, b)"
| Timeout: "sd_dial a = WaitsForAnswer c \<Longrightarrow> dial_end ev None c (sd_host a) = (h, st) \<Longrightarrow>
    act ev (a, b) (a\<lparr>sd_host := h, sd_dial := st\<rparr>, b)"

inductive duo_step :: "environment \<Rightarrow> side \<times> side \<Rightarrow> side \<times> side \<Rightarrow> bool" for ev where
  Left: "act ev (a, b) (a', b') \<Longrightarrow> duo_step ev (a, b) (a', b')"
| Right: "act ev (b, a) (b', a') \<Longrightarrow> duo_step ev (a, b) (a', b')"

inductive_cases actE: "act ev (a, b) (a', b')"
inductive_cases duo_stepE: "duo_step ev (a, b) (a', b')"

text \<open>What a side still waits for: its lock is held, all that it can serve are greetings, and nobody answered.\<close>

definition stuck :: "nat \<Rightarrow> side \<Rightarrow> bool" where
  "stuck c sd \<longleftrightarrow> sd_dial sd = WaitsForAnswer c \<and> qt_held (ht_transport (sd_host sd)) \<and> sd_answers sd = [] \<and>
     (\<forall>m \<in> set (sd_inbox sd). ms_type m = ''handshake'' \<and> ms_sender m \<noteq> [])"

lemma stream_message_blocked:
  "ms_type m = ''handshake'' \<Longrightarrow> ms_sender m \<noteq> [] \<Longrightarrow> qt_held (ht_transport h) \<Longrightarrow>
   stream_message ev t m c remote s h = (h, Blocked, True)"
  by (simp add: stream_message_def)

lemma act_stuck:
  assumes "act ev (a, b) (a', b')" "stuck ca a" "stuck cb b"
  shows "sd_dial a' = HandshakeFailed \<and> sd_dial b' = WaitsForAnswer cb"
  using assms by (cases rule: actE) (auto simp: stuck_def stream_message_blocked dial_end_def Let_def)

lemma act_failed:
  assumes "act ev (a, b) (a', b')" "sd_dial a = HandshakeFailed \<or> sd_dial b = HandshakeFailed"
  shows "sd_dial a' = HandshakeFailed \<or> sd_dial b' = HandshakeFailed"
  using assms by (cases rule: actE) auto

lemma duo_run:
  assumes "(duo_step ev)\<^sup>*\<^sup>* (a, b) (a', b')" "stuck ca a" "stuck cb b"
  shows "(a', b') = (a, b) \<or> sd_dial a' = HandshakeFailed \<or> sd_dial b' = HandshakeFailed"
  using assms(1)
proof (induction rule: rtranclp_induct2)
  case (step x y x' y')
  then show ?case
    using act_stuck [of ev a b x' y', OF _ assms(2,3)] act_stuck [of ev b a y' x', OF _ assms(3,2)] act_failed
    by (elim duo_stepE) blast+
qed simp

lemma dial_begin_held: "dial_begin t p addr io h = (h', WaitsForAnswer c) \<Longrightarrow> qt_held (ht_transport h')"
  by (auto simp: dial_begin_def Let_def split: if_splits option.splits)

definition dialling :: "quic_host \<Rightarrow> nat \<Rightarrow> message \<Rightarrow> side" where
  "dialling h c greeting = \<lparr>sd_host = h, sd_dial = WaitsForAnswer c, sd_inbox = [greeting], sd_answers = []\<rparr>"

text \<open>C38. Two peers that dial each other at the same time block each other. Each holds its table while it waits for an
  answer, and needs the table to answer the other's greeting. So nothing at all happens until one of the two calls runs
  into its timeout and fails: in every state that is reached later, at least one of the
  two calls has failed.
\<close>

theorem simultaneous_dials_fail:
  assumes "dial_begin t1 b addrB ioA A = (A1, WaitsForAnswer ca)" "dial_begin t2 a addrA ioB B = (B1, WaitsForAnswer cb)"
    and "a \<noteq> []" "b \<noteq> []"
    and "(duo_step ev)\<^sup>*\<^sup>* (dialling A1 ca (hello t2 b), dialling B1 cb (hello t1 a)) (x, y)"
  shows "(x, y) = (dialling A1 ca (hello t2 b), dialling B1 cb (hello t1 a)) \<or> sd_dial x = HandshakeFailed \<or> sd_dial y = HandshakeFailed"
proof -
  have "stuck ca (dialling A1 ca (hello t2 b))" "stuck cb (dialling B1 cb (hello t1 a))"
    using dial_begin_held [OF assms(1)] dial_begin_held [OF assms(2)] assms(3,4) by (simp_all add: stuck_def dialling_def hello_def)
  then show ?thesis using duo_run [OF assms(5)] by blast
qed

section \<open>Instances\<close>

definition quic_toy :: primitives where
  "quic_toy = toy\<lparr>hkdf_sha256 := (\<lambda>secret salt info n. take n (secret @ salt @ info @ replicate n (CHR ''0'')))\<rparr>"

definition quic_env :: environment where
  "quic_env = example_env\<lparr>ev_crypto := quic_toy\<rparr>"

lemma hkdf_quic_toy: "hkdf_laws quic_toy"
  unfolding hkdf_laws_def quic_toy_def by (simp add: min_def) linarith

lemma quic_env_laws: "aead_laws (ev_crypto quic_env)" "hkdf_laws (ev_crypto quic_env)" "text_laws (ev_json quic_env)"
  using toy_laws(1) plain_text_laws hkdf_quic_toy
  by (simp_all add: quic_env_def example_env_def) (simp add: quic_toy_def aead_laws_def)

text \<open>A host that knows nobody, and one whose connection to a peer was established by a handshake.\<close>

definition fresh_host :: "string \<Rightarrow> quic_host" where
  "fresh_host own =
     \<lparr>ht_transport = SetQUICPeerID own (SetQUICConnectionManager (SetQUICMessageHandler (NewQUICTransport 8080))),
      ht_messenger = example_messenger 1 own [], ht_written = []\<rparr>"

definition linked_host :: "string \<Rightarrow> string \<Rightarrow> quic_host" where
  "linked_host own other =
     on_quic (\<lambda>t. t\<lparr>qt_connections := [(other, 1)], qt_handshakes := [(other, True)]\<rparr>) (fresh_host own)"

definition io_ok :: "nat \<Rightarrow> quic_io" where
  "io_ok s = \<lparr>qi_dial = Some 7, qi_hello_stream = Some s, qi_answer = None, qi_stream = Some s, qi_encoded = True\<rparr>"

lemma fresh_host_online: "own \<noteq> [] \<Longrightarrow> online own (fresh_host own)" "unknown p (fresh_host own)"
  by (simp_all add: online_def unknown_def fresh_host_def SetQUICPeerID_def SetQUICConnectionManager_def SetQUICMessageHandler_def
      NewQUICTransport_def gm_get_def)

theorem quic_dial_establishes_session_witness:
  "\<exists>A1 B1 A2 m r ca cb.
    dial_begin 0 ''B'' ''h:1'' (io_ok 1) (fresh_host ''A'') = (A1, WaitsForAnswer 7) \<and> ht_written A1 = ht_written (fresh_host ''A'') @ [(1, m)] \<and>
    stream_message quic_env 1 m 3 ''g:2'' 2 (fresh_host ''B'') = (B1, Done, False) \<and> ht_written B1 = ht_written (fresh_host ''B'') @ [(2, r)] \<and>
    dial_end quic_env (Some r) 7 A1 = (A2, Connected 7) \<and>
    conn_of (manager A2) ''B'' = Some ca \<and> conn_of (manager B1) ''A'' = Some cb \<and> cn_session_key ca = cn_session_key cb"
proof -
  have io: "qi_dial (io_ok 1) = Some 7" "qi_hello_stream (io_ok 1) = Some 1" by (simp_all add: io_ok_def)
  have s: "''A'' \<noteq> []" "''B'' \<noteq> []" "ascii ''A''" "ascii ''B''" "in_int64 (unix_sec 0)" "in_int64 (unix_sec 1)"
    by (simp_all add: unix_sec_def in_int64_def)
  show ?thesis
    using quic_dial_establishes_session [OF fresh_host_online(1) [OF s(1)] fresh_host_online(2) fresh_host_online(1) [OF s(2)] io
        quic_env_laws(3,1,2) s(3-6), of "''h:1''" 3 "''g:2''" 2] by blast
qed


theorem redial_loses_session_witness:
  "\<exists>h1 h2. SendMessageQUIC quic_env 0 ''B'' ''h'' 1 (hello 0 ''A'') ((io_ok 1)\<lparr>qi_stream := None\<rparr>) (linked_host ''A'' ''B'') = (h1, False) \<and>
    SendMessageQUIC quic_env 1 ''B'' ''h'' 1 (hello 0 ''A'') (io_ok 2) h1 = (h2, True) \<and>
    sendMessage quic_env ''B'' (hello 0 ''A'') (example_step ''B'') (ht_messenger h2) = (ht_messenger h2, Failed (NoSessionKey []))"
proof -
  have "online ''A'' (linked_host ''A'' ''B'')" "map_of (qt_connections (ht_transport (linked_host ''A'' ''B''))) ''B'' = Some 1"
    "gm_get False (qt_handshakes (ht_transport (linked_host ''A'' ''B''))) ''B''"
    using fresh_host_online(1) [of "''A''"] by (simp_all add: linked_host_def online_def gm_get_def)
  then show ?thesis
    using redial_loses_session [of "''A''" "linked_host ''A'' ''B''" "''B''" 1 "(io_ok 1)\<lparr>qi_stream := None\<rparr>" "io_ok 2" 7 2 quic_env 0 "''h''" 1 "hello 0 ''A''" 1]
    by (auto simp: io_ok_def)
qed

text \<open>Two fresh hosts reach the state of the theorem by dialling.\<close>

definition idle :: "quic_host \<Rightarrow> side" where
  "idle h = \<lparr>sd_host = h, sd_dial = NotDialled, sd_inbox = [], sd_answers = []\<rparr>"

lemma both_dial:
  assumes "dial_begin t1 b addrB ioA A = (A1, WaitsForAnswer ca)" "dial_begin t2 a addrA ioB B = (B1, WaitsForAnswer cb)"
    and "ht_written A1 = ht_written A @ [(s, hello t1 a)]" "ht_written B1 = ht_written B @ [(s', hello t2 b)]"
    and "on_wire (ev_json ev) (hello t1 a) = Some (hello t1 a)" "on_wire (ev_json ev) (hello t2 b) = Some (hello t2 b)"
  shows "(duo_step ev)\<^sup>*\<^sup>* (idle A, idle B) (dialling A1 ca (hello t2 b), dialling B1 cb (hello t1 a))"
proof -
  let ?a = "(idle A)\<lparr>sd_host := A1, sd_dial := WaitsForAnswer ca\<rparr>" and ?b = "(idle B)\<lparr>sd_inbox := sd_inbox (idle B) @ [hello t1 a]\<rparr>"
  have "act ev (idle A, idle B) (?a, ?b)"
    by (rule Dial [of _ t1 b addrB ioA]) (use assms in \<open>simp_all add: idle_def\<close>)
  moreover have "act ev (?b, ?a) (?b\<lparr>sd_host := B1, sd_dial := WaitsForAnswer cb\<rparr>, ?a\<lparr>sd_inbox := sd_inbox ?a @ [hello t2 b]\<rparr>)"
    by (rule Dial [of _ t2 a addrA ioB]) (use assms in \<open>simp_all add: idle_def\<close>)
  ultimately have "(duo_step ev)\<^sup>*\<^sup>* (idle A, idle B)
      (?a\<lparr>sd_inbox := sd_inbox ?a @ [hello t2 b]\<rparr>, ?b\<lparr>sd_host := B1, sd_dial := WaitsForAnswer cb\<rparr>)"
    by (meson Left Right r_into_rtranclp rtranclp.rtrancl_into_rtrancl)
  then show ?thesis by (simp add: idle_def dialling_def)
qed

theorem simultaneous_dials_fail_witness:
  "\<exists>s x y. (duo_step quic_env)\<^sup>*\<^sup>* (idle (fresh_host ''A''), idle (fresh_host ''B'')) s \<and> duo_step quic_env s (x, y) \<and>
     (sd_dial x = HandshakeFailed \<or> sd_dial y = HandshakeFailed)"
proof -
  let ?A = "fresh_host ''A''" and ?B = "fresh_host ''B''"
  have on: "online ''A'' ?A" "online ''B'' ?B" "unknown ''B'' ?A" "unknown ''A'' ?B" using fresh_host_online by simp_all
  have io: "qi_dial (io_ok 1) = Some 7" "qi_hello_stream (io_ok 1) = Some 1" by (simp_all add: io_ok_def)
  obtain A1 where A: "dial_begin 0 ''B'' ''h:1'' (io_ok 1) ?A = (A1, WaitsForAnswer 7)" "ht_written A1 = ht_written ?A @ [(1, hello 0 ''A'')]"
    using dial_begin_waits [of ?A "''B''" "io_ok 1" 7 1 0 "''h:1''"] on io unfolding online_def unknown_def by metis
  obtain B1 where B: "dial_begin 0 ''A'' ''h:1'' (io_ok 1) ?B = (B1, WaitsForAnswer 7)" "ht_written B1 = ht_written ?B @ [(1, hello 0 ''B'')]"
    using dial_begin_waits [of ?B "''A''" "io_ok 1" 7 1 0 "''h:1''"] on io unfolding online_def unknown_def by metis
  have w: "on_wire (ev_json quic_env) (hello 0 p) = Some (hello 0 p)" if "ascii p" for p
    using hello_on_wire [OF quic_env_laws(3) that, of 0] by (simp add: unix_sec_def in_int64_def)
  have r: "(duo_step quic_env)\<^sup>*\<^sup>* (idle ?A, idle ?B) (dialling A1 7 (hello 0 ''B''), dialling B1 7 (hello 0 ''A''))"
    by (rule both_dial [OF A(1) B(1) A(2) B(2)]) (simp_all add: w)
  obtain h st where t: "dial_end quic_env None 7 A1 = (h, st)" by fastforce
  let ?s = "(dialling A1 7 (hello 0 ''B''), dialling B1 7 (hello 0 ''A''))"
  have d: "duo_step quic_env ?s ((dialling A1 7 (hello 0 ''B''))\<lparr>sd_host := h, sd_dial := st\<rparr>, dialling B1 7 (hello 0 ''A''))"
    by (rule Left, rule Timeout [of _ 7]) (simp_all add: dialling_def t)
  have "st \<noteq> WaitsForAnswer 7" using t by (auto simp: dial_end_def Let_def)
  then have "(dialling A1 7 (hello 0 ''B''))\<lparr>sd_host := h, sd_dial := st\<rparr> \<noteq> dialling A1 7 (hello 0 ''B'')" by (simp add: dialling_def)
  then show ?thesis using simultaneous_dials_fail [OF A(1) B(1), of quic_env] r_into_rtranclp [of "duo_step quic_env", OF d] r d by blast
qed

end
