(* ===== verification/TcpProperties.thy ===== *)
theory TcpProperties
  imports TcpTransport QuicProperties
begin

text \<open>
  What two peers get from the TCP transport: a dial that waits for its own lock, and acknowledgments
  that are acknowledged for ever.
\<close>

section \<open>Dialling\<close>

lemma own_lock:
  "tp_held (ht_transport h) \<Longrightarrow> updatePeerID now p q h = None" "tp_held (ht_transport h) \<Longrightarrow> store_socket p s h = None"
  by (simp_all add: updatePeerID_def store_socket_def)

lemma held_blocks:
  assumes "tp_held (ht_transport h)"
  shows "getOrCreateTCP ev now p a port io h = (h, WaitsForLock)" "SendMessageTCP ev now p a port m io h = (h, Blocked)"
    "snd (snd (first_message ev now m rd h)) = Blocked"
  using assms by (simp_all add: getOrCreateTCP_def SendMessageTCP_def first_message_def own_lock Let_def)

lemma dial_greets:
  assumes "tp_peer (ht_transport h) \<noteq> []" "\<not> gm_get False (tp_handshakes (ht_transport h)) p" "\<not> tp_held (ht_transport h)"
    and "map_of (tp_connections (ht_transport h)) p = None" "ti_socket io = Some s" "ti_hello_written io"
  obtains h' where "getOrCreateTCP ev now p a port io h =
      (case readHandshakeResponse ev (ti_answer io) p s h' of (h1, WaitsForLock) \<Rightarrow> (h1, WaitsForLock) | (h1, r) \<Rightarrow> (unlock_connections h1, r))"
    "tp_held (ht_transport h')"
  using assms by (cases "tp_managed (ht_transport h)") (simp_all add: getOrCreateTCP_def lock_connections_def dial_peer_def Let_def)

lemma readHandshakeResponse_locked:
  "tp_held (ht_transport h) \<Longrightarrow> readHandshakeResponse ev answer p s h =
     (h, case answer of None \<Rightarrow> HandshakeFailed
       | Some (t, m) \<Rightarrow> if ms_type m = ''handshake'' \<and> ms_sender m \<noteq> [] then WaitsForLock else HandshakeFailed)"
  by (auto simp: readHandshakeResponse_def own_lock split: option.split)


section \<open>Acknowledgments\<close>

text \<open>An acknowledgment of the transport: it has no sender.\<close>

definition anonymous_ack :: "message \<Rightarrow> bool" where
  "anonymous_ack m \<longleftrightarrow> ms_type m = ''operation_ack'' \<and> ms_sender m = [] \<and> ascii (ms_id m)"

definition no_anonymous_peer :: "tcp_host \<Rightarrow> bool" where
  "no_anonymous_peer h \<longleftrightarrow> conn_of (manager h) [] = None"

text \<open>
  What happens on a socket between two peers when \<open>m\<close> is under way to the first of them: a side that receives a message writes an
  answer, which is then under way to the other side. The result is what is under way after the given moments, and
  nothing if there was a moment without a message.
\<close>

fun volley :: "environment \<Rightarrow> time list \<Rightarrow> message \<Rightarrow> reader \<times> tcp_host \<Rightarrow> reader \<times> tcp_host \<Rightarrow> message option" where
  "volley ev [] m x y = Some m"
| "volley ev (t # ts) m (rd, h) y =
     (case socket_message ev t m rd h of
        (rd1, h1, Done) \<Rightarrow>
          (case drop (length (ht_written h)) (ht_written h1) of
             [(s, r)] \<Rightarrow> (if s = rd_socket rd then Option.bind (on_wire (ev_json ev) r) (\<lambda>w. volley ev ts w y (rd1, h1)) else None)
           | _ \<Rightarrow> None)
      | _ \<Rightarrow> None)"

lemma transport_ack_on_wire:
  assumes "text_laws (ev_json ev)" "ascii (ms_id m)" "in_int64 (unix_milli t)" "\<And>f. ascii (ev_describe ev f)"
  obtains w where "on_wire (ev_json ev) (transport_ack ev t m err) = Some w" "anonymous_ack w"
proof -
  have "message_ok (transport_ack ev t m err)" "json_ascii (enc_payload (ms_payload (transport_ack ev t m err)))"
    using assms(2-4)
    by (auto simp: transport_ack_def WithCorrelationID_def NewMessage_def message_ok_def optional_def omit_empty_def split: option.split)
  from on_wire_message [OF assms(1) this] show ?thesis
    by (rule that) (simp add: anonymous_ack_def transport_ack_def WithCorrelationID_def NewMessage_def)
qed

lemma ack_answered:
  assumes "anonymous_ack m" "no_anonymous_peer h"
  shows "\<exists>err. socket_message ev t m rd h = (rd, write_message (rd_socket rd) (transport_ack ev t m err) h, Done)"
proof -
  have "ReceiveMessage ev t m (ht_messenger h) = (ht_messenger h, Failed (UnknownSender []))"
    using assms by (simp add: ReceiveMessage_def GetConnection_def anonymous_ack_def no_anonymous_peer_def manager_def)
  then have "\<exists>err. pass_to_handler ev t m b (rd_socket rd) h = (write_message (rd_socket rd) (transport_ack ev t m err) h, Done)" for b
    by (auto simp: pass_to_handler_def)
  then show ?thesis using assms(1) by (auto simp: socket_message_def anonymous_ack_def Let_def split_beta)
qed

lemma no_anonymous_write [simp]: "no_anonymous_peer (write_message s m h) \<longleftrightarrow> no_anonymous_peer h"
  by (simp add: no_anonymous_peer_def)

lemma volley_goes_on:
  assumes "anonymous_ack m" "no_anonymous_peer (snd x)" "no_anonymous_peer (snd y)" "\<forall>t \<in> set ts. in_int64 (unix_milli t)"
    and "text_laws (ev_json ev)" "\<And>f. ascii (ev_describe ev f)"
  shows "\<exists>w. volley ev ts m x y = Some w \<and> anonymous_ack w"
  using assms(1-4)
proof (induction ts arbitrary: m x y)
  case (Cons t ts)
  obtain rd h where x: "x = (rd, h)" by (cases x)
  obtain err where err: "socket_message ev t m rd h = (rd, write_message (rd_socket rd) (transport_ack ev t m err) h, Done)"
    using ack_answered [OF Cons.prems(1), of h ev t rd] Cons.prems(2) by (auto simp: x)
  obtain w where w: "on_wire (ev_json ev) (transport_ack ev t m err) = Some w" "anonymous_ack w"
    using transport_ack_on_wire [OF assms(5), of m t] Cons.prems(1,4) assms(6) by (auto simp: anonymous_ack_def)
  show ?case
    using Cons.IH [OF w(2), of y "(rd, write_message (rd_socket rd) (transport_ack ev t m err) h)"] Cons.prems(2-4)
    by (simp add: x err w(1))
qed simp

lemma pass_to_handler_writes:
  assumes "pass_to_handler ev t m b s h = (h', Done)"
  shows "\<exists>err. ht_written h' = ht_written h @ [(s, transport_ack ev t m err)]"
  using assms by (auto simp: pass_to_handler_def split: if_splits prod.splits outcome.splits)

text \<open>Over TCP one message starts an exchange that never ends. Both ends of a socket are read by the same loop, which answers every message
  with an acknowledgment, and an acknowledgment is such a message: it has no sender, the handler refuses it, and the refusal
  is acknowledged. So after any message to a registered peer that is not a handshake and does not crash it, however
  many moments pass, there is an acknowledgment under way.
\<close>

theorem tcp_acknowledgments_never_end:
  assumes "socket_message ev t m rdB B = (rdB', B', Done)" "rd_registered rdB" "ms_type m \<noteq> ''handshake''" "ascii (ms_id m)"
    and "no_anonymous_peer A" "no_anonymous_peer B'" "in_int64 (unix_milli t)" "\<forall>u \<in> set ts. in_int64 (unix_milli u)"
    and "text_laws (ev_json ev)" "\<And>f. ascii (ev_describe ev f)"
  shows "\<exists>r w v. ht_written B' = ht_written B @ [(rd_socket rdB, r)] \<and> on_wire (ev_json ev) r = Some w \<and>
    volley ev ts w (rdA, A) (rdB', B') = Some v \<and> ms_type v = ''operation_ack''"
proof -
  obtain b where p: "pass_to_handler ev t m b (rd_socket rdB) B = (B', Done)"
    using assms(1-3) by (auto simp: socket_message_def Let_def split: prod.splits)
  obtain err where err: "ht_written B' = ht_written B @ [(rd_socket rdB, transport_ack ev t m err)]"
    using pass_to_handler_writes [OF p] by blast
  obtain w where w: "on_wire (ev_json ev) (transport_ack ev t m err) = Some w" "anonymous_ack w"
    using transport_ack_on_wire [OF assms(9,4,7,10)] by blast
  obtain v where "volley ev ts w (rdA, A) (rdB', B') = Some v" "anonymous_ack v"
    using volley_goes_on [OF w(2) _ _ assms(8,9,10), of "(rdA, A)" "(rdB', B')"] assms(5,6) by auto
  then show ?thesis using err w(1) by (auto simp: anonymous_ack_def)
qed

section \<open>Instances\<close>

definition tcp_example :: "string \<Rightarrow> tcp_host" where
  "tcp_example own =
     \<lparr>ht_transport = SetTCPPeerID own (SetTCPConnectionManager (SetTCPMessageHandler (NewTCPTransport 8080))),
      ht_messenger = example_messenger 1 own ''Z'', ht_written = []\<rparr>"

definition reader_of :: "string \<Rightarrow> reader" where
  "reader_of p = \<lparr>rd_socket = 4, rd_host = ''h'', rd_port = 1, rd_peer = p, rd_registered = True\<rparr>"

lemma tcp_example_fields [simp]:
  "tp_peer (ht_transport (tcp_example own)) = own" "tp_held (ht_transport (tcp_example own)) = False"
  "tp_connections (ht_transport (tcp_example own)) = []" "tp_handshakes (ht_transport (tcp_example own)) = []"
  "ht_written (tcp_example own) = []"
  by (simp_all add: tcp_example_def SetTCPPeerID_def SetTCPConnectionManager_def SetTCPMessageHandler_def NewTCPTransport_def)

definition tcp_io_ok :: tcp_io where
  "tcp_io_ok = \<lparr>ti_socket = Some 4, ti_hello_written = True, ti_answer = Some (1, hello 1 ''B''), ti_written = True\<rparr>"


lemma tcp_example_strangers: "p \<noteq> ''Z'' \<Longrightarrow> conn_of (manager (tcp_example own)) p = None"
  by (simp add: tcp_example_def manager_def example_node_def Let_def SetTransport_def SetConnectionManager_def
      NewConnectionManager_def)

lemma tcp_example_first:
  "socket_message example_env 0 (hello 0 ''C'' \<lparr>ms_type := ''heartbeat''\<rparr>) (reader_of ''C'') (tcp_example ''B'') =
     (reader_of ''C'', write_message 4 (transport_ack example_env 0 (hello 0 ''C'' \<lparr>ms_type := ''heartbeat''\<rparr>) (Some (UnknownSender ''C''))) (tcp_example ''B''), Done)"
proof -
  have "ReceiveMessage example_env 0 (hello 0 ''C'' \<lparr>ms_type := ''heartbeat''\<rparr>) (ht_messenger (tcp_example ''B'')) =
      (ht_messenger (tcp_example ''B''), Failed (UnknownSender ''C''))"
    using tcp_example_strangers [of "''C''" "''B''"] by (simp add: ReceiveMessage_def GetConnection_def hello_def manager_def)
  then show ?thesis
    by (simp add: socket_message_def reader_of_def hello_def pass_to_handler_def tcp_example_def SetTCPPeerID_def SetTCPConnectionManager_def
        SetTCPMessageHandler_def)
qed

theorem tcp_acknowledgments_never_end_witness:
  "\<exists>r w v. volley example_env [0, 1, 2] w (reader_of ''B'', tcp_example ''C'')
      (reader_of ''C'', write_message 4 r (tcp_example ''B'')) = Some v \<and> ms_type v = ''operation_ack''"
proof -
  have n: "no_anonymous_peer (tcp_example p)" for p by (simp add: no_anonymous_peer_def tcp_example_strangers)
  have "ascii (ms_id (hello 0 ''C'' \<lparr>ms_type := ''heartbeat''\<rparr>))" "rd_registered (reader_of ''C'')"
    "ms_type (hello 0 ''C'' \<lparr>ms_type := ''heartbeat''\<rparr>) \<noteq> ''handshake''" "\<And>f. ascii (ev_describe example_env f)"
    "\<forall>u \<in> set [0, 1, 2]. in_int64 (unix_milli u)"
    by (simp_all add: hello_def reader_of_def example_env_def unix_milli_def in_int64_def)
  then show ?thesis
    using tcp_acknowledgments_never_end [where A = "tcp_example ''C''" and ts = "[0, 1, 2]" and rdA = "reader_of ''B''", OF tcp_example_first]
      n example_laws(2)
    by (simp add: reader_of_def unix_milli_def in_int64_def) blast
qed

end
