(* ===== verification/Configuration.thy ===== *)
theory Configuration
  imports Sessions Paths
begin

text \<open>
  The configuration, \<^verbatim>\<open>internal/config/config.go\<close> and \<^verbatim>\<open>internal/config/loader.go\<close>: the defaults, the overrides by environment
  variables, the validation, and loading, which does the three in order. The YAML parser is a parameter: it gets the
  bytes of the file and the configuration to fill in. Environment variables are a function, the empty string being an unset one; what
  the validation finds at the path of the folder is the record \<open>folder\<close>. The lemmas say what a loaded
  configuration guarantees to the components that read it.
\<close>

section \<open>The settings\<close>

record sync_config =
  sc_folder_path :: string
  sc_chunk_size_min :: int64
  sc_chunk_size_max :: int64
  sc_chunk_size_default :: int64
  sc_max_transfers :: int64
  sc_log_size :: int64
  sc_state_sync_interval :: int64

record network_config =
  wc_port :: int64
  wc_discovery_port :: int64
  wc_protocol :: string
  wc_heartbeat_interval :: int64
  wc_connection_timeout :: int64
  wc_peers :: "string list"

record security_config =
  yc_key_rotation :: int64
  yc_algorithm :: string

record compression_config =
  pc_enabled :: bool
  pc_threshold :: int64
  pc_algorithm :: string
  pc_level :: int64
  pc_chunk_compression :: bool

record observability_config =
  oc_endpoint :: string
  oc_log_level :: string
  oc_metrics :: bool
  oc_tracing :: bool

record config =
  cf_sync :: sync_config
  cf_network :: network_config
  cf_security :: security_config
  cf_compression :: compression_config
  cf_strategy :: string
  cf_observability :: observability_config

definition DefaultConfig :: config where
  "DefaultConfig =
     \<lparr>cf_sync = \<lparr>sc_folder_path = ''/tmp/p2p-sync'', sc_chunk_size_min = 65536, sc_chunk_size_max = 2097152,
        sc_chunk_size_default = 524288, sc_max_transfers = 5, sc_log_size = 10000, sc_state_sync_interval = 0\<rparr>,
      cf_network = \<lparr>wc_port = 8080, wc_discovery_port = 8081, wc_protocol = ''quic'', wc_heartbeat_interval = 30,
        wc_connection_timeout = 60, wc_peers = []\<rparr>,
      cf_security = \<lparr>yc_key_rotation = 86400, yc_algorithm = ''aes-256-gcm''\<rparr>,
      cf_compression = \<lparr>pc_enabled = True, pc_threshold = 1048576, pc_algorithm = ''zstd'', pc_level = 3,
        pc_chunk_compression = True\<rparr>,
      cf_strategy = ''intelligent_merge'',
      cf_observability = \<lparr>oc_endpoint = [], oc_log_level = ''info'', oc_metrics = True, oc_tracing = True\<rparr>\<rparr>"

section \<open>Validation\<close>

datatype config_error =
    FolderPathRequired
  | CannotCreateFolder
  | CannotAccessFolder
  | FolderNotADirectory
  | FolderNotWritable
  | ChunkSizeMinRange
  | ChunkSizeMaxRange
  | ChunkSizeDefaultRange
  | TransfersRange
  | PortRange
  | DiscoveryPortRange
  | UnknownProtocol
  | KeyRotationRange
  | ThresholdRange
  | CompressionLevelRange
  | UnknownCompression
  | UnknownLogLevel
  | FileUnreadable
  | FileUnparsable
  | ValidationFailed config_error

text \<open>\<open>NoFolder b\<close>: nothing is there, and \<open>b\<close> says whether \<open>MkdirAll\<close> creates it.\<close>

datatype folder_stat = NoFolder bool | StatFails | OtherFile | Directory

record folder =
  fd_stat :: folder_stat
  fd_writable :: bool

definition ValidateCompression :: "compression_config \<Rightarrow> config_error option" where
  "ValidateCompression cc =
     (if \<not> pc_enabled cc then None
      else if pc_threshold cc < 1024 \<or> pc_threshold cc > 1073741824 then Some ThresholdRange
      else if pc_algorithm cc = ''zstd'' then
        (if pc_level cc < 1 \<or> pc_level cc > 22 then Some CompressionLevelRange else None)
      else if pc_algorithm cc = ''lz4'' then
        (if pc_level cc < 1 \<or> pc_level cc > 16 then Some CompressionLevelRange else None)
      else if pc_algorithm cc = ''gzip'' then
        (if pc_level cc < 1 \<or> pc_level cc > 9 then Some CompressionLevelRange else None)
      else if pc_algorithm cc = ''none'' then None
      else Some UnknownCompression)"

definition check_folder :: "folder \<Rightarrow> config_error option" where
  "check_folder fd =
     (case (case fd_stat fd of
              NoFolder created \<Rightarrow> if created then None else Some CannotCreateFolder
            | StatFails \<Rightarrow> Some CannotAccessFolder
            | OtherFile \<Rightarrow> Some FolderNotADirectory
            | Directory \<Rightarrow> None) of
        Some e \<Rightarrow> Some e
      | None \<Rightarrow> if fd_writable fd then None else Some FolderNotWritable)"

text \<open>Port 0 stands for any free port.\<close>

definition port_ok :: "int64 \<Rightarrow> bool" where
  "port_ok port \<longleftrightarrow> \<not> (port \<noteq> 0 \<and> (port < 1024 \<or> port > 65535))"

definition Validate :: "(string \<Rightarrow> string) \<Rightarrow> (string \<Rightarrow> folder) \<Rightarrow> config \<Rightarrow> config_error option" where
  "Validate getenv folders c =
     (let s = cf_sync c; n = cf_network c
      in if sc_folder_path s = [] then Some FolderPathRequired
         else
           (case check_folder (folders (sc_folder_path s)) of
              Some e \<Rightarrow> Some e
            | None \<Rightarrow>
                if sc_chunk_size_min s < 4096 \<or> sc_chunk_size_min s > 1048576 then Some ChunkSizeMinRange
                else if sc_chunk_size_max s < 1048576 \<or> sc_chunk_size_max s > 10485760 then Some ChunkSizeMaxRange
                else if sc_chunk_size_default s < sc_chunk_size_min s \<or> sc_chunk_size_default s > sc_chunk_size_max s
                then Some ChunkSizeDefaultRange
                else if sc_max_transfers s < 1 \<or> sc_max_transfers s > 20 then Some TransfersRange
                else if \<not> port_ok (wc_port n) then Some PortRange
                else if \<not> port_ok (wc_discovery_port n) then Some DiscoveryPortRange
                else if wc_protocol n \<noteq> ''quic'' \<and> wc_protocol n \<noteq> ''tcp'' \<and> wc_protocol n \<noteq> [] then Some UnknownProtocol
                else if yc_key_rotation (cf_security c) < (if getenv ''P2P_TESTING_MODE'' \<noteq> ''true'' then 3600 else 1) \<or>
                        yc_key_rotation (cf_security c) > 604800 then Some KeyRotationRange
                else
                  (case ValidateCompression (cf_compression c) of
                     Some e \<Rightarrow> Some e
                   | None \<Rightarrow>
                       if oc_log_level (cf_observability c) \<notin> {''debug'', ''info'', ''warn'', ''error''} then Some UnknownLogLevel
                       else None)))"

section \<open>Loading\<close>

definition parseInt :: "string \<Rightarrow> int64" where
  "parseInt s = (case sscanf_d s of None \<Rightarrow> 0 | Some n \<Rightarrow> n)"

text \<open>A variable that is not set leaves the value; a port that is no positive number does so too.\<close>

definition env_string :: "string \<Rightarrow> string \<Rightarrow> string" where
  "env_string val old = (if val \<noteq> [] then val else old)"

definition env_port :: "string \<Rightarrow> int64 \<Rightarrow> int64" where
  "env_port val old = (if val \<noteq> [] \<and> parseInt val > 0 then parseInt val else old)"

definition env_peers :: "string \<Rightarrow> string list \<Rightarrow> string list" where
  "env_peers val old = (if val \<noteq> [] then filter (\<lambda>p. p \<noteq> []) (map TrimSpace (split_on (CHR '','') val)) else old)"

definition loadFromEnv :: "(string \<Rightarrow> string) \<Rightarrow> config \<Rightarrow> config" where
  "loadFromEnv getenv c =
     (let s = cf_sync c; n = cf_network c; p = cf_compression c; ob = cf_observability c
      in c\<lparr>cf_sync := s\<lparr>sc_folder_path := env_string (getenv ''P2P_SYNC_FOLDER'') (sc_folder_path s)\<rparr>,
           cf_network := n\<lparr>wc_port := env_port (getenv ''P2P_PORT'') (wc_port n),
             wc_discovery_port := env_port (getenv ''P2P_DISCOVERY_PORT'') (wc_discovery_port n),
             wc_protocol := env_string (getenv ''P2P_PROTOCOL'') (wc_protocol n),
             wc_peers := env_peers (getenv ''PEERS'') (wc_peers n)\<rparr>,
           cf_compression := p\<lparr>pc_enabled := (if getenv ''P2P_COMPRESSION_ENABLED'' \<noteq> []
               then getenv ''P2P_COMPRESSION_ENABLED'' = ''true'' \<or> getenv ''P2P_COMPRESSION_ENABLED'' = ''1'' else pc_enabled p),
             pc_algorithm := env_string (getenv ''P2P_COMPRESSION_ALGORITHM'') (pc_algorithm p)\<rparr>,
           cf_observability := ob\<lparr>oc_endpoint := env_string (getenv ''OTEL_ENDPOINT'') (oc_endpoint ob),
             oc_log_level := env_string (getenv ''P2P_LOG_LEVEL'') (oc_log_level ob)\<rparr>\<rparr>)"

text \<open>A file of which \<open>Stat\<close> fails is passed over, whatever the reason.\<close>

datatype config_file = StatFailed | ReadFailed | Contents bytes

definition LoadConfig ::
  "(bytes \<Rightarrow> config \<Rightarrow> config option) \<Rightarrow> (string \<Rightarrow> string) \<Rightarrow> (string \<Rightarrow> folder) \<Rightarrow> (string \<Rightarrow> config_file) \<Rightarrow> string \<Rightarrow>
   config_error + config" where
  "LoadConfig unmarshal getenv folders files configPath =
     (case (if configPath = [] then Inr DefaultConfig
            else
              (case files configPath of
                 StatFailed \<Rightarrow> Inr DefaultConfig
               | ReadFailed \<Rightarrow> Inl FileUnreadable
               | Contents data \<Rightarrow> (case unmarshal data DefaultConfig of None \<Rightarrow> Inl FileUnparsable | Some c \<Rightarrow> Inr c))) of
        Inl e \<Rightarrow> Inl e
      | Inr c \<Rightarrow>
          (case Validate getenv folders (loadFromEnv getenv c) of
             Some e \<Rightarrow> Inl (ValidationFailed e)
           | None \<Rightarrow> Inr (loadFromEnv getenv c)))"

section \<open>Paths\<close>

definition GetDataDir :: "config \<Rightarrow> string" where
  "GetDataDir c = Join (sc_folder_path (cf_sync c)) ''.p2p-sync''"

definition GetDBPath :: "config \<Rightarrow> string" where
  "GetDBPath c = Join (GetDataDir c) ''p2p_sync.db''"

definition GetKeychainPath :: "config \<Rightarrow> string" where
  "GetKeychainPath c = Join (GetDataDir c) ''keychain.db''"

section \<open>What a component reads\<close>

definition net_config_of :: "config \<Rightarrow> net_config" where
  "net_config_of c =
     \<lparr>nc_folder = sc_folder_path (cf_sync c), nc_chunk_size = sc_chunk_size_default (cf_sync c),
      nc_compression = pc_enabled (cf_compression c), nc_threshold = pc_threshold (cf_compression c),
      nc_algorithm = pc_algorithm (cf_compression c), nc_level = pc_level (cf_compression c)\<rparr>"

text \<open>The type of a validated configuration.\<close>

definition config_ok :: "config \<Rightarrow> bool" where
  "config_ok c \<longleftrightarrow>
     (let s = cf_sync c; n = cf_network c; p = cf_compression c
      in sc_folder_path s \<noteq> [] \<and>
         4096 \<le> sc_chunk_size_min s \<and> sc_chunk_size_min s \<le> sc_chunk_size_default s \<and>
         sc_chunk_size_default s \<le> sc_chunk_size_max s \<and> sc_chunk_size_max s \<le> 10485760 \<and>
         1 \<le> sc_max_transfers s \<and> sc_max_transfers s \<le> 20 \<and>
         (wc_port n = 0 \<or> wc_port n \<in> {1024..65535}) \<and> (wc_discovery_port n = 0 \<or> wc_discovery_port n \<in> {1024..65535}) \<and>
         wc_protocol n \<in> {''quic'', ''tcp'', ''''} \<and> yc_key_rotation (cf_security c) \<in> {1..604800} \<and>
         (pc_enabled p \<longrightarrow> pc_threshold p \<in> {1024..1073741824} \<and> (\<exists>k. NewCompressor (pc_algorithm p) (pc_level p) = Inr k)) \<and>
         oc_log_level (cf_observability c) \<in> {''debug'', ''info'', ''warn'', ''error''})"

section \<open>Lemmas\<close>

lemma ValidateCompression_ok:
  "ValidateCompression cc = None \<Longrightarrow> pc_enabled cc \<Longrightarrow>
   pc_threshold cc \<in> {1024..1073741824} \<and> (\<exists>k. NewCompressor (pc_algorithm cc) (pc_level cc) = Inr k)"
  by (auto simp: ValidateCompression_def NewCompressor_def NewZstdCompressor_def NewLZ4Compressor_def NewGzipCompressor_def split: if_splits)

lemma Validate_ok:
  assumes "Validate getenv folders c = None"
  shows "config_ok c"
proof -
  have v: "ValidateCompression (cf_compression c) = None"
    using assms by (auto simp: Validate_def Let_def split: if_splits option.splits)
  show ?thesis
    using assms ValidateCompression_ok [OF v] unfolding config_ok_def Let_def
    by (auto simp: Validate_def port_ok_def Let_def split: if_splits option.splits)
qed

lemma LoadConfig_ok: "LoadConfig unmarshal getenv folders files path = Inr c \<Longrightarrow> config_ok c"
  by (auto simp: LoadConfig_def dest: Validate_ok split: option.splits sum.splits)

lemma file_chunks_length:
  assumes "ck \<in> set (file_chunks H f k data)"
  shows "ck_length ck \<le> int k"
  using assms by (auto simp: file_chunks_def file_chunk_def slice_def Let_def)

lemma NewNetworkMessenger_fields:
  "NewNetworkMessenger now cfg nd peer = Inr nm \<Longrightarrow> nm_chunker nm = NewChunker (nc_chunk_size cfg) \<and> nm_node nm = nd"
  by (auto simp: NewNetworkMessenger_def split: sum.splits)


definition writable :: "string \<Rightarrow> folder" where
  "writable _ = \<lparr>fd_stat = Directory, fd_writable = True\<rparr>"

lemma default_config_loads: "LoadConfig (\<lambda>_ _. None) (\<lambda>_. []) writable (\<lambda>_. StatFailed) [] = Inr DefaultConfig"
  by (simp add: LoadConfig_def loadFromEnv_def env_string_def env_port_def env_peers_def DefaultConfig_def Validate_def writable_def
      check_folder_def port_ok_def ValidateCompression_def Let_def)


text \<open>Disabling compression switches its validation off, but not its use. With compression disabled in the environment every
  name of an algorithm is accepted, and the program still cannot start: the messenger builds its compressor
  from the same name whether or not compression is enabled.
\<close>

theorem disabled_compression_still_built:
  assumes "getenv ''P2P_COMPRESSION_ENABLED'' \<noteq> []" "getenv ''P2P_COMPRESSION_ENABLED'' \<noteq> ''true''" "getenv ''P2P_COMPRESSION_ENABLED'' \<noteq> ''1''"
    and "\<And>v. v \<noteq> ''P2P_COMPRESSION_ENABLED'' \<Longrightarrow> v \<noteq> ''P2P_COMPRESSION_ALGORITHM'' \<Longrightarrow> getenv v = []"
    and "getenv ''P2P_COMPRESSION_ALGORITHM'' = alg" "alg \<notin> {'''', ''zstd'', ''lz4'', ''gzip'', ''none''}"
    and "check_folder (folders (sc_folder_path (cf_sync DefaultConfig))) = None"
  shows "\<exists>c. LoadConfig unmarshal getenv folders files [] = Inr c \<and>
    NewNetworkMessenger now (net_config_of c) nd peer = Inl (UnknownAlgorithm alg)"
proof -
  let ?c = "loadFromEnv getenv DefaultConfig"
  have e: "getenv v = []" if "v \<in> {''P2P_SYNC_FOLDER'', ''P2P_PORT'', ''P2P_DISCOVERY_PORT'', ''P2P_PROTOCOL'', ''PEERS'', ''OTEL_ENDPOINT'', ''P2P_LOG_LEVEL'', ''P2P_TESTING_MODE''}" for v
    using that assms(4) [of v] by auto
  have "Validate getenv folders ?c = None"
    using assms(1-3,7) by (simp add: loadFromEnv_def env_string_def env_port_def env_peers_def DefaultConfig_def Validate_def
        port_ok_def ValidateCompression_def Let_def e)
  then have "LoadConfig unmarshal getenv folders files [] = Inr ?c" by (simp add: LoadConfig_def)
  moreover have "NewNetworkMessenger now (net_config_of ?c) nd peer = Inl (UnknownAlgorithm alg)"
    using assms(5,6) by (simp add: NewNetworkMessenger_def net_config_of_def loadFromEnv_def env_string_def NewCompressor_def Let_def)
  ultimately show ?thesis by blast
qed

theorem disabled_compression_still_built_witness:
  "\<exists>c. LoadConfig (\<lambda>_ _. None) (\<lambda>v. if v = ''P2P_COMPRESSION_ENABLED'' then ''0'' else if v = ''P2P_COMPRESSION_ALGORITHM'' then ''off'' else [])
      writable (\<lambda>_. StatFailed) [] = Inr c \<and>
    NewNetworkMessenger 0 (net_config_of c) (example_node ''A'' ''B'') ''A'' = Inl (UnknownAlgorithm ''off'')"
  by (rule disabled_compression_still_built) (auto simp: writable_def check_folder_def)

end
