(* ===== verification/Discovery.thy ===== *)
theory Discovery
  imports Sessions
begin

text \<open>
  Discovery of peers, \<^verbatim>\<open>internal/network/discovery\<close>: the registry with its callbacks (\<^verbatim>\<open>registry.go\<close>), UDP broadcasts and their
  answers (\<^verbatim>\<open>udp.go\<close>), and the entries of mDNS (\<^verbatim>\<open>mdns.go\<close>). A callback runs in a goroutine of its own; \<open>rg_called\<close> lists
  which were started, by position, with what they were told. A datagram is its bytes with the address it came from or goes to. Sockets
  and the zeroconf library are left out: whether a broadcast address can be reached is an argument.
\<close>

section \<open>The registry\<close>

record peer_info =
  pi_peer_id :: string
  pi_address :: string
  pi_port :: int64
  pi_capabilities :: json
  pi_version :: string
  pi_last_seen :: time

record registry =
  rg_peers :: "(string, peer_info) gomap"
  rg_callbacks :: nat
  rg_called :: "(nat \<times> peer_info) list"

definition NewRegistry :: registry where
  "NewRegistry = \<lparr>rg_peers = [], rg_callbacks = 0, rg_called = []\<rparr>"

definition notifyDiscovery :: "peer_info \<Rightarrow> registry \<Rightarrow> registry" where
  "notifyDiscovery p r = r\<lparr>rg_called := rg_called r @ map (\<lambda>i. (i, p)) [0..<rg_callbacks r]\<rparr>"

definition AddOrUpdatePeer :: "time \<Rightarrow> string \<Rightarrow> string \<Rightarrow> int64 \<Rightarrow> json \<Rightarrow> string \<Rightarrow> registry \<Rightarrow> registry" where
  "AddOrUpdatePeer now peerID address port capabilities version r =
     (let isNew = map_of (rg_peers r) peerID = None;
          p = \<lparr>pi_peer_id = peerID, pi_address = address, pi_port = port, pi_capabilities = capabilities,
               pi_version = version, pi_last_seen = now\<rparr>;
          r1 = r\<lparr>rg_peers := gm_put peerID p (rg_peers r)\<rparr>
      in if isNew then notifyDiscovery p r1 else r1)"

definition GetPeer :: "string \<Rightarrow> registry \<Rightarrow> peer_info option" where
  "GetPeer peerID r = map_of (rg_peers r) peerID"

definition GetAllPeers :: "registry \<Rightarrow> peer_info list" where
  "GetAllPeers r = map snd (rg_peers r)"

definition RemovePeer :: "string \<Rightarrow> registry \<Rightarrow> registry" where
  "RemovePeer peerID r = r\<lparr>rg_peers := gm_del peerID (rg_peers r)\<rparr>"

definition CleanupStalePeers :: "time \<Rightarrow> int64 \<Rightarrow> registry \<Rightarrow> registry" where
  "CleanupStalePeers now maxAge r =
     r\<lparr>rg_peers := gm_drop (\<lambda>p. time_sub now (pi_last_seen p) > maxAge) (rg_peers r)\<rparr>"

definition AddDiscoveryCallback :: "registry \<Rightarrow> registry" where
  "AddDiscoveryCallback r = r\<lparr>rg_callbacks := Suc (rg_callbacks r)\<rparr>"

section \<open>UDP\<close>

record udp_discovery =
  ud_port :: int64
  ud_sync_port :: int64
  ud_peer :: string
  ud_capabilities :: json
  ud_version :: string
  ud_registry :: "registry option"
  ud_stopped :: bool
  ud_sent :: "((string \<times> int64) \<times> bytes) list"

definition NewUDPDiscoveryWithRegistry :: "int64 \<Rightarrow> int64 \<Rightarrow> string \<Rightarrow> json \<Rightarrow> string \<Rightarrow> registry option \<Rightarrow> udp_discovery" where
  "NewUDPDiscoveryWithRegistry port syncPort peerID capabilities version r =
     \<lparr>ud_port = port, ud_sync_port = syncPort, ud_peer = peerID, ud_capabilities = capabilities, ud_version = version,
      ud_registry = r, ud_stopped = False, ud_sent = []\<rparr>"

definition NewUDPDiscovery :: "int64 \<Rightarrow> int64 \<Rightarrow> string \<Rightarrow> json \<Rightarrow> string \<Rightarrow> udp_discovery" where
  "NewUDPDiscovery port syncPort peerID capabilities version = NewUDPDiscoveryWithRegistry port syncPort peerID capabilities version None"

text \<open>A second call closes the stop channel again and panics.\<close>

definition StopDiscovery :: "udp_discovery \<Rightarrow> udp_discovery option" where
  "StopDiscovery u = (if ud_stopped u then None else Some (u\<lparr>ud_stopped := True\<rparr>))"

definition respondToDiscovery :: "json_text \<Rightarrow> time \<Rightarrow> discovery_message \<Rightarrow> string \<Rightarrow> udp_discovery \<Rightarrow> udp_discovery" where
  "respondToDiscovery J now d sourceIP u =
     (if dm_peer_id d = ud_peer u then u
      else
        (let response = NewMessage now ''discovery_response'' (ud_peer u)
               (DiscoveryResponse \<lparr>dr_peer_id = ud_peer u, dr_port = ud_port u, dr_sync_port = ud_sync_port u,
                  dr_version = ud_version u\<rparr>)
         in u\<lparr>ud_sent := ud_sent u @ [((sourceIP, dm_port d), EncodeMessage J response)]\<rparr>))"

definition handleUDPResponse :: "time \<Rightarrow> discovery_response \<Rightarrow> string \<Rightarrow> udp_discovery \<Rightarrow> udp_discovery" where
  "handleUDPResponse now d sourceIP u =
     (if dr_peer_id d = ud_peer u then u
      else u\<lparr>ud_registry := map_option
               (AddOrUpdatePeer now (dr_peer_id d) sourceIP (dr_sync_port d) (JObj []) (dr_version d)) (ud_registry u)\<rparr>)"

text \<open>The raw payload: \<open>null\<close> is kept, unlike in a decoded field.\<close>

definition raw_field :: "json \<Rightarrow> string \<Rightarrow> json option" where
  "raw_field j k = (case j of JObj kvs \<Rightarrow> map_of (rev kvs) k | _ \<Rightarrow> None)"

text \<open>One datagram, of which the buffer holds the first 4096 bytes. What does not decode is dropped.\<close>

definition udp_datagram :: "json_text \<Rightarrow> time \<Rightarrow> string \<Rightarrow> bytes \<Rightarrow> udp_discovery \<Rightarrow> udp_discovery" where
  "udp_datagram J now sourceIP data u =
     (case read_json J (take 4096 data) of
        None \<Rightarrow> u
      | Some j \<Rightarrow>
          (case (if is_object j then get as_string [] j ''type'' else None) of
             None \<Rightarrow> u
           | Some ty \<Rightarrow>
               if ty = ''discovery'' then
                 (case Option.bind (raw_field j ''payload'') dec_discovery of
                    None \<Rightarrow> u
                  | Some d \<Rightarrow> respondToDiscovery J now d sourceIP u)
               else if ty = ''discovery_response'' then
                 (case Option.bind (raw_field j ''payload'') dec_discovery_response of
                    None \<Rightarrow> u
                  | Some d \<Rightarrow> handleUDPResponse now d sourceIP u)
               else u))"

definition discovery_message_of :: "time \<Rightarrow> udp_discovery \<Rightarrow> message" where
  "discovery_message_of now u =
     NewMessage now ''discovery'' (ud_peer u)
       (DiscoveryMessage \<lparr>dm_peer_id = ud_peer u, dm_port = ud_port u, dm_sync_port = ud_sync_port u,
          dm_capabilities = ud_capabilities u, dm_version = ud_version u\<rparr>)"

definition sendDiscovery :: "json_text \<Rightarrow> time \<Rightarrow> (string \<Rightarrow> bool) \<Rightarrow> udp_discovery \<Rightarrow> udp_discovery" where
  "sendDiscovery J now reaches u =
     u\<lparr>ud_sent := ud_sent u @
         map (\<lambda>ip. ((ip, ud_port u), EncodeMessage J (discovery_message_of now u)))
           (filter reaches [''255.255.255.255'', ''172.20.255.255''])\<rparr>"

text \<open>A tick of \<open>broadcast\<close>, every thirty seconds until the service stops.\<close>

definition broadcast_tick :: "json_text \<Rightarrow> time \<Rightarrow> (string \<Rightarrow> bool) \<Rightarrow> udp_discovery \<Rightarrow> udp_discovery" where
  "broadcast_tick J now reaches u = (if ud_stopped u then u else sendDiscovery J now reaches u)"

section \<open>mDNS\<close>

record service_entry =
  se_instance :: string
  se_port :: int64
  se_text :: "string list"
  se_ipv4 :: "string list"

record mdns_discovery =
  md_port :: int64
  md_peer :: string
  md_encryption :: bool
  md_compression :: bool
  md_chunking :: bool
  md_version :: string
  md_stopped :: bool
  md_found :: "peer_info list"

definition NewMDNSDiscovery :: "int64 \<Rightarrow> string \<Rightarrow> bool \<Rightarrow> bool \<Rightarrow> bool \<Rightarrow> string \<Rightarrow> mdns_discovery" where
  "NewMDNSDiscovery port peerID encryption compression chunking version =
     \<lparr>md_port = port, md_peer = peerID, md_encryption = encryption, md_compression = compression, md_chunking = chunking,
      md_version = version, md_stopped = False, md_found = []\<rparr>"

definition bool_text :: "bool \<Rightarrow> string" where
  "bool_text b = (if b then ''true'' else ''false'')"

text \<open>The records that \<open>Start\<close> publishes.\<close>

definition txt_records :: "mdns_discovery \<Rightarrow> string list" where
  "txt_records m =
     [''peer_id='' @ md_peer m, ''port='' @ dec_int (md_port m), ''encryption='' @ bool_text (md_encryption m),
      ''compression='' @ bool_text (md_compression m), ''chunking='' @ bool_text (md_chunking m), ''version='' @ md_version m]"

text \<open>\<open>strconv.Atoi\<close>.\<close>

definition atoi :: "string \<Rightarrow> int64 option" where
  "atoi s =
     (let (negative, ds) = scan_sign s;
          n = (if negative then - digits_value ds else digits_value ds)
      in if ds = [] \<or> \<not> list_all is_digit ds \<or> \<not> in_int64 n then None else Some n)"

definition after_key :: "string \<Rightarrow> string \<Rightarrow> string option" where
  "after_key key txt = (if length txt > length key \<and> take (length key) txt = key then Some (drop (length key) txt) else None)"

text \<open>Capabilities, version and port as the loop over the text records finds them.\<close>

fun read_txt :: "string list \<Rightarrow> (string \<times> json) list \<times> string \<times> int64 \<Rightarrow> (string \<times> json) list \<times> string \<times> int64" where
  "read_txt [] acc = acc"
| "read_txt (txt # txts) (caps, version, port) =
     read_txt txts
       (if after_key ''peer_id='' txt \<noteq> None then (caps, version, port)
        else
          (case after_key ''port='' txt of
             Some v \<Rightarrow> (caps, version, case atoi v of None \<Rightarrow> port | Some n \<Rightarrow> n)
           | None \<Rightarrow>
          (case after_key ''encryption='' txt of
             Some v \<Rightarrow> (gm_put ''encryption'' (JBool (v = ''true'')) caps, version, port)
           | None \<Rightarrow>
          (case after_key ''compression='' txt of
             Some v \<Rightarrow> (gm_put ''compression'' (JBool (v = ''true'')) caps, version, port)
           | None \<Rightarrow>
          (case after_key ''chunking='' txt of
             Some v \<Rightarrow> (gm_put ''chunking'' (JBool (v = ''true'')) caps, version, port)
           | None \<Rightarrow>
          (case after_key ''version='' txt of
             Some v \<Rightarrow> (caps, v, port)
           | None \<Rightarrow> (caps, version, port)))))))"

text \<open>An entry without an IPv4 address panics. The channel of found peers holds ten; what finds it full is dropped.\<close>

definition handleServiceEntry :: "time \<Rightarrow> service_entry \<Rightarrow> mdns_discovery \<Rightarrow> mdns_discovery option" where
  "handleServiceEntry now entry m =
     (if se_instance entry = md_peer m then Some m
      else
        (case read_txt (se_text entry) ([], [], 0) of
           (caps, version, port) \<Rightarrow>
             (case se_ipv4 entry of
                [] \<Rightarrow> None
              | address # _ \<Rightarrow>
                  (let p = \<lparr>pi_peer_id = se_instance entry, pi_address = address,
                            pi_port = (if port = 0 then se_port entry else port),
                            pi_capabilities = JObj caps, pi_version = version, pi_last_seen = now\<rparr>
                   in Some (if length (md_found m) < 10 then m\<lparr>md_found := md_found m @ [p]\<rparr> else m)))))"

section \<open>The registry announces a peer once\<close>

text \<open>A series of sightings: which peer was seen, when, where, with which port and version.\<close>

fun sightings :: "(time \<times> string \<times> string \<times> int64 \<times> string) list \<Rightarrow> registry \<Rightarrow> registry" where
  "sightings [] r = r"
| "sightings ((now, p, a, port, v) # ss) r = sightings ss (AddOrUpdatePeer now p a port (JObj []) v r)"

lemma AddOrUpdatePeer_fields [simp]:
  "map_of (rg_peers (AddOrUpdatePeer now p a port c v r)) q =
     (if q = p then Some \<lparr>pi_peer_id = p, pi_address = a, pi_port = port, pi_capabilities = c, pi_version = v, pi_last_seen = now\<rparr>
      else map_of (rg_peers r) q)"
  "rg_callbacks (AddOrUpdatePeer now p a port c v r) = rg_callbacks r"
  by (simp_all add: AddOrUpdatePeer_def notifyDiscovery_def Let_def)

lemma sightings_append: "sightings (xs @ ys) r = sightings ys (sightings xs r)"
  by (induction xs r rule: sightings.induct) simp_all

lemma sightings_peers: "map_of (rg_peers (sightings ss r)) q = None \<longleftrightarrow> map_of (rg_peers r) q = None \<and> q \<notin> fst ` snd ` set ss"
  by (induction ss r rule: sightings.induct) auto

lemma sightings_callbacks [simp]: "rg_callbacks (sightings ss r) = rg_callbacks r"
  by (induction ss r rule: sightings.induct) simp_all

text \<open>What one callback was told.\<close>

definition told :: "nat \<Rightarrow> registry \<Rightarrow> string list" where
  "told i r = map (pi_peer_id \<circ> snd) (filter (\<lambda>(j, p). j = i) (rg_called r))"

lemma told_one: "i < n \<Longrightarrow> filter (\<lambda>(j, p). j = i) (map (\<lambda>i. (i, x)) [0..<n]) = [(i, x)]"
  by (induction n) (auto simp: less_Suc_eq filter_empty_conv)

lemma told_AddOrUpdatePeer:
  "i < rg_callbacks r \<Longrightarrow> told i (AddOrUpdatePeer now p a port c v r) =
     told i r @ (if map_of (rg_peers r) p = None then [p] else [])"
  by (simp add: told_def AddOrUpdatePeer_def notifyDiscovery_def Let_def told_one)

lemma told_sightings:
  "i < rg_callbacks r \<Longrightarrow> told i (sightings ss r) =
     told i r @ filter (\<lambda>p. map_of (rg_peers r) p = None) (rev (remdups (rev (map (fst \<circ> snd) ss))))"
proof (induction ss arbitrary: r rule: rev_induct)
  case (snoc s ss)
  obtain now p a port v where s: "s = (now, p, a, port, v)" by (cases s)
  show ?case
    using snoc told_AddOrUpdatePeer [of i "sightings ss r" now p a port "JObj []" v]
    by (auto simp: sightings_append s sightings_peers image_image)
qed simp

text \<open>Every callback hears of every peer exactly once, in the order in which the peers were first seen, however often they are seen
  again, and the registry holds what was seen last.
\<close>

theorem discovery_announces_once:
  assumes "i < rg_callbacks r" "rg_peers r = []" "rg_called r = []"
  shows "told i (sightings ss r) = rev (remdups (rev (map (fst \<circ> snd) ss))) \<and>
    map_of (rg_peers (sightings (ss @ [(now, p, a, port, v)]) r)) p =
      Some \<lparr>pi_peer_id = p, pi_address = a, pi_port = port, pi_capabilities = JObj [], pi_version = v, pi_last_seen = now\<rparr>"
proof -
  have "told i r = []" using assms(3) by (simp add: told_def)
  then show ?thesis using told_sightings [OF assms(1), of ss] assms(2) by (simp add: sightings_append)
qed

theorem discovery_announces_once_witness:
  "told 0 (sightings [(0, ''A'', ''h'', 1, ''v''), (1, ''B'', ''g'', 2, ''v''), (2, ''A'', ''k'', 3, ''w'')] (AddDiscoveryCallback NewRegistry)) = [''A'', ''B'']"
  using discovery_announces_once [of 0 "AddDiscoveryCallback NewRegistry" "[(0, ''A'', ''h'', 1, ''v''), (1, ''B'', ''g'', 2, ''v''), (2, ''A'', ''k'', 3, ''w'')]"]
  by (simp add: AddDiscoveryCallback_def NewRegistry_def)

section \<open>Two peers on a network\<close>

lemma enc_message_type: "get as_string [] (enc_message m) ''type'' = Some (ms_type m)"
  unfolding enc_message_def by (simp add: decode_values)

lemma enc_message_payload: "raw_field (enc_message m) ''payload'' = Some (enc_payload (ms_payload m))"
  by (cases "ms_correlation m") (simp_all add: raw_field_def enc_message_def obj_def)

lemma enc_message_object: "is_object (enc_message m)"
  by (simp add: is_object_def enc_message_def obj_def)

lemma datagram_message:
  assumes "text_laws J" "message_ok m" "json_ascii (enc_payload (ms_payload m))" "length (EncodeMessage J m) \<le> 4096"
  shows "udp_datagram J now ip (EncodeMessage J m) u =
    (if ms_type m = ''discovery'' then
       (case dec_discovery (enc_payload (ms_payload m)) of None \<Rightarrow> u | Some d \<Rightarrow> respondToDiscovery J now d ip u)
     else if ms_type m = ''discovery_response'' then
       (case dec_discovery_response (enc_payload (ms_payload m)) of None \<Rightarrow> u | Some d \<Rightarrow> handleUDPResponse now d ip u)
     else u)"
proof -
  have "json_ascii (enc_message m)" using assms(2,3)
    by (cases "ms_correlation m") (simp_all add: enc_message_def message_ok_def optional_def)
  then have "read_json J (EncodeMessage J m) = Some (enc_message m)"
    using assms(1) by (simp add: text_laws_def EncodeMessage_def)
  then show ?thesis
    using assms(4) by (simp add: udp_datagram_def enc_message_object enc_message_type enc_message_payload)
qed

definition response_of :: "time \<Rightarrow> udp_discovery \<Rightarrow> message" where
  "response_of now u = NewMessage now ''discovery_response'' (ud_peer u)
     (DiscoveryResponse \<lparr>dr_peer_id = ud_peer u, dr_port = ud_port u, dr_sync_port = ud_sync_port u, dr_version = ud_version u\<rparr>)"

definition announces :: "udp_discovery \<Rightarrow> bool" where
  "announces u \<longleftrightarrow> in_int64 (ud_port u) \<and> in_int64 (ud_sync_port u) \<and> is_object (ud_capabilities u) \<and>
     json_ascii (ud_capabilities u) \<and> ascii (ud_peer u) \<and> ascii (ud_version u)"

lemma discovery_payloads:
  assumes "announces u"
  shows "json_ascii (enc_payload (ms_payload (discovery_message_of t u)))" "json_ascii (enc_payload (ms_payload (response_of t u)))"
    "dec_discovery (enc_payload (ms_payload (discovery_message_of t u))) = Some \<lparr>dm_peer_id = ud_peer u, dm_port = ud_port u,
       dm_sync_port = ud_sync_port u, dm_capabilities = ud_capabilities u, dm_version = ud_version u\<rparr>"
    "dec_discovery_response (enc_payload (ms_payload (response_of t u))) = Some \<lparr>dr_peer_id = ud_peer u, dr_port = ud_port u,
       dr_sync_port = ud_sync_port u, dr_version = ud_version u\<rparr>"
    "in_int64 (unix_milli t) \<Longrightarrow> message_ok (discovery_message_of t u)" "in_int64 (unix_milli t) \<Longrightarrow> message_ok (response_of t u)"
  using assms decode_enc_payload [of "ms_payload (discovery_message_of t u)"] decode_enc_payload [of "ms_payload (response_of t u)"]
  by (simp_all add: announces_def discovery_message_of_def response_of_def NewMessage_def decode_struct_def message_ok_def optional_def)

text \<open>C33. One broadcast is enough for the sender to find every peer that hears it. The peer answers to the discovery port of the
  sender, and the sender registers it under its id with the address of the answer and the port for synchronisation. The
  datagrams have to fit into the buffer of 4096 bytes.
\<close>

theorem broadcast_finds_peer:
  assumes "text_laws J" "ud_peer A \<noteq> ud_peer B" "announces A" "announces B" "ud_registry A = Some r" "reaches ''255.255.255.255''"
    and "in_int64 (unix_milli t1)" "in_int64 (unix_milli t2)"
    and "length (EncodeMessage J (discovery_message_of t1 A)) \<le> 4096" "length (EncodeMessage J (response_of t2 B)) \<le> 4096"
  shows "\<exists>d a A1 B1. sendDiscovery J t1 reaches A = A1 \<and> ((''255.255.255.255'', ud_port A), d) \<in> set (ud_sent A1) \<and>
    udp_datagram J t2 ipA d B = B1 \<and> ud_sent B1 = ud_sent B @ [((ipA, ud_port A), a)] \<and>
    udp_datagram J t3 ipB a A1 =
      A1\<lparr>ud_registry := Some (AddOrUpdatePeer t3 (ud_peer B) ipB (ud_sync_port B) (JObj []) (ud_version B) r)\<rparr>"
proof -
  let ?d = "EncodeMessage J (discovery_message_of t1 A)" and ?a = "EncodeMessage J (response_of t2 B)"
  have 1: "((''255.255.255.255'', ud_port A), ?d) \<in> set (ud_sent (sendDiscovery J t1 reaches A))"
    using assms(6) by (simp add: sendDiscovery_def)
  have ty: "ms_type (discovery_message_of t1 A) = ''discovery''" "ms_type (response_of t2 B) = ''discovery_response''"
    by (simp_all add: discovery_message_of_def response_of_def NewMessage_def)
  have "udp_datagram J t2 ipA ?d B = respondToDiscovery J t2 \<lparr>dm_peer_id = ud_peer A, dm_port = ud_port A,
      dm_sync_port = ud_sync_port A, dm_capabilities = ud_capabilities A, dm_version = ud_version A\<rparr> ipA B"
    using datagram_message [OF assms(1) discovery_payloads(5) [OF assms(3,7)] discovery_payloads(1) [OF assms(3)] assms(9), of t2 ipA B] ty
      discovery_payloads(3) [OF assms(3)] by simp
  also have "\<dots> = B\<lparr>ud_sent := ud_sent B @ [((ipA, ud_port A), ?a)]\<rparr>"
    using assms(2) by (simp add: respondToDiscovery_def response_of_def Let_def)
  finally have 2: "udp_datagram J t2 ipA ?d B = B\<lparr>ud_sent := ud_sent B @ [((ipA, ud_port A), ?a)]\<rparr>" .
  have "udp_datagram J t3 ipB ?a A1 = A1\<lparr>ud_registry := Some (AddOrUpdatePeer t3 (ud_peer B) ipB (ud_sync_port B) (JObj []) (ud_version B) r)\<rparr>"
    if "ud_peer A1 = ud_peer A" "ud_registry A1 = Some r" for A1
    using datagram_message [OF assms(1) discovery_payloads(6) [OF assms(4,8)] discovery_payloads(2) [OF assms(4)] assms(10), of t3 ipB A1] ty
      discovery_payloads(4) [OF assms(4)] that assms(2) by (simp add: handleUDPResponse_def)
  from this [of "sendDiscovery J t1 reaches A"] have
    3: "udp_datagram J t3 ipB ?a (sendDiscovery J t1 reaches A) = (sendDiscovery J t1 reaches A)
      \<lparr>ud_registry := Some (AddOrUpdatePeer t3 (ud_peer B) ipB (ud_sync_port B) (JObj []) (ud_version B) r)\<rparr>"
    using assms(5) by (simp add: sendDiscovery_def)
  show ?thesis
    by (rule exI [of _ ?d], rule exI [of _ ?a], rule exI [of _ "sendDiscovery J t1 reaches A"], rule exI [of _ "udp_datagram J t2 ipA ?d B"])
       (simp add: 1 2 3)
qed

definition udp_example :: "string \<Rightarrow> udp_discovery" where
  "udp_example p = NewUDPDiscoveryWithRegistry 2 3 p (JObj [(''chunking'', JBool True)]) ''1'' (Some NewRegistry)"

lemma udp_example_announces: "ascii p \<Longrightarrow> announces (udp_example p)"
  by (simp add: announces_def udp_example_def NewUDPDiscoveryWithRegistry_def in_int64_def is_object_def)

lemma udp_example_fields: "ud_peer (udp_example p) = p" "ud_registry (udp_example p) = Some NewRegistry"
  by (simp_all add: udp_example_def NewUDPDiscoveryWithRegistry_def)

lemma udp_example_short:
  "length (EncodeMessage plain_text (discovery_message_of 0 (udp_example ''A''))) \<le> 4096"
  "length (EncodeMessage plain_text (response_of 0 (udp_example ''B''))) \<le> 4096"
  by code_simp+

theorem broadcast_finds_peer_witness:
  "\<exists>d a A1. sendDiscovery plain_text 0 (\<lambda>_. True) (udp_example ''A'') = A1 \<and> ((''255.255.255.255'', 2), d) \<in> set (ud_sent A1) \<and>
    ud_sent (udp_datagram plain_text 0 ''10.0.0.1'' d (udp_example ''B'')) = [((''10.0.0.1'', 2), a)] \<and>
    ud_registry (udp_datagram plain_text 1 ''10.0.0.2'' a A1) =
      Some (AddOrUpdatePeer 1 ''B'' ''10.0.0.2'' 3 (JObj []) ''1'' NewRegistry)"
proof -
  have a: "announces (udp_example ''A'')" "announces (udp_example ''B'')" by (simp_all add: udp_example_announces)
  have t: "in_int64 (unix_milli 0)" by (simp add: unix_milli_def in_int64_def)
  show ?thesis
    using broadcast_finds_peer [OF plain_text_laws _ a udp_example_fields(2) _ t t udp_example_short, of "\<lambda>_. True" "''10.0.0.1''" 1 "''10.0.0.2''"]
    by (auto simp: udp_example_def NewUDPDiscoveryWithRegistry_def)
qed

section \<open>mDNS records\<close>

lemma atoi_dec_int:
  assumes "0 \<le> n" "in_int64 n"
  shows "atoi (dec_int n) = Some n"
proof -
  obtain c ds where c: "dec_int n = c # ds" using dec_int_nonempty by (cases "dec_int n") auto
  have d: "list_all is_digit (dec_int n)" "digits_value (dec_int n) = n"
    using dec_nat_digits [of "nat n"] digits_value_dec_nat [of "nat n"] assms by (simp_all add: dec_int_def)
  then have "is_digit c" by (simp add: c)
  then have "c \<noteq> CHR ''-''" "c \<noteq> CHR ''+''" by (auto simp: is_digit_def)
  then have "scan_sign (dec_int n) = (False, dec_int n)" by (simp add: c)
  then show ?thesis using d assms by (simp add: atoi_def c)
qed

text \<open>What a peer publishes over mDNS is what the others read: the port, the three capabilities and the version
  come back from the text records.
\<close>

theorem mdns_records_roundtrip:
  assumes "0 < md_port m" "in_int64 (md_port m)" "md_version m \<noteq> []" "md_peer m \<noteq> md_peer m'" "length (md_found m') < 10"
  shows "handleServiceEntry now \<lparr>se_instance = md_peer m, se_port = p, se_text = txt_records m, se_ipv4 = a # as\<rparr> m' =
    Some (m'\<lparr>md_found := md_found m' @ [\<lparr>pi_peer_id = md_peer m, pi_address = a, pi_port = md_port m,
      pi_capabilities = JObj [(''encryption'', JBool (md_encryption m)), (''compression'', JBool (md_compression m)),
        (''chunking'', JBool (md_chunking m))], pi_version = md_version m, pi_last_seen = now\<rparr>]\<rparr>)"
proof -
  have t: "bool_text b \<noteq> []" "(bool_text b = ''true'') = b" for b by (simp_all add: bool_text_def)
  have "read_txt (txt_records m) ([], [], 0) =
      ([(''encryption'', JBool (md_encryption m)), (''compression'', JBool (md_compression m)), (''chunking'', JBool (md_chunking m))],
       md_version m, md_port m)"
    using assms(1-3) t dec_int_nonempty atoi_dec_int [of "md_port m"] 
    by (cases "md_peer m") (simp_all add: txt_records_def after_key_def gm_put_def)
  then show ?thesis using assms(1,4,5) by (simp add: handleServiceEntry_def Let_def)
qed

theorem mdns_records_roundtrip_witness:
  "handleServiceEntry 0 \<lparr>se_instance = ''A'', se_port = 1, se_text = txt_records (NewMDNSDiscovery 8080 ''A'' True False True ''0.1''), se_ipv4 = [''h'']\<rparr>
     (NewMDNSDiscovery 8080 ''B'' True True True ''0.1'') \<noteq> None"
  using mdns_records_roundtrip [of "NewMDNSDiscovery 8080 ''A'' True False True ''0.1''" "NewMDNSDiscovery 8080 ''B'' True True True ''0.1''" 0 1 "''h''" "[]"]
  by (simp add: NewMDNSDiscovery_def in_int64_def)

end
