(* ===== verification/Startup.thy ===== *)
theory Startup
  imports TcpProperties Configuration Discovery
begin

text \<open>
  The choice of a transport, \<^verbatim>\<open>internal/network/transport/fallback.go\<close> and \<^verbatim>\<open>interface.go\<close>, and the wiring of the program, \<^verbatim>\<open>cmd/p2p-sync/main.go\<close>:
  which transport is created, who gets it, which one is started, to which peers it connects, and what stopping does. Whether a
  protocol can listen, and whether a call of one of the two transports succeeds, are arguments; the transports themselves are those of
  \<open>QuicTransport\<close> and \<open>TcpTransport\<close>.
\<close>

section \<open>The fallback transport\<close>

datatype protocol = QUIC | TCP

record fallback =
  fb_primary :: quic_transport
  fb_secondary :: tcp_transport
  fb_current :: "protocol option"
  fb_handler :: bool
  fb_used_fallback :: bool
  fb_protocols :: "(string, protocol) gomap"

definition NewFallbackTransport :: "int \<Rightarrow> fallback" where
  "NewFallbackTransport port =
     \<lparr>fb_primary = NewQUICTransport port, fb_secondary = NewTCPTransport port, fb_current = None, fb_handler = False,
      fb_used_fallback = False, fb_protocols = []\<rparr>"

text \<open>\<open>listens\<close> says which of the two can be started.\<close>

definition StartFallback :: "(protocol \<Rightarrow> bool) \<Rightarrow> fallback \<Rightarrow> fallback \<times> bool" where
  "StartFallback listens ft =
     (case StartQUIC (listens QUIC) (fb_primary ft) of
        (q, True) \<Rightarrow>
          (ft\<lparr>fb_primary := (if fb_handler ft then SetQUICMessageHandler q else q), fb_current := Some QUIC, fb_used_fallback := False\<rparr>, True)
      | (q, False) \<Rightarrow>
          (case StartTCP True (listens TCP) (fb_secondary ft) of
             (t, True) \<Rightarrow>
               (ft\<lparr>fb_primary := q, fb_secondary := (if fb_handler ft then SetTCPMessageHandler t else t),
                   fb_current := Some TCP, fb_used_fallback := True\<rparr>, True)
           | (t, False) \<Rightarrow> (ft\<lparr>fb_primary := q, fb_secondary := t\<rparr>, False)))"

definition StopFallback :: "fallback \<Rightarrow> fallback option" where
  "StopFallback ft =
     (case fb_current ft of
        None \<Rightarrow> Some ft
      | Some QUIC \<Rightarrow> map_option (\<lambda>q. ft\<lparr>fb_primary := q\<rparr>) (StopQUIC (fb_primary ft))
      | Some TCP \<Rightarrow> Some (ft\<lparr>fb_secondary := StopTCP (fb_secondary ft)\<rparr>))"

definition SetFallbackMessageHandler :: "fallback \<Rightarrow> fallback" where
  "SetFallbackMessageHandler ft =
     (let ft1 = ft\<lparr>fb_handler := True\<rparr>
      in case fb_current ft of
           None \<Rightarrow> ft1
         | Some QUIC \<Rightarrow> ft1\<lparr>fb_primary := SetQUICMessageHandler (fb_primary ft)\<rparr>
         | Some TCP \<Rightarrow> ft1\<lparr>fb_secondary := SetTCPMessageHandler (fb_secondary ft)\<rparr>)"

text \<open>Before \<open>Start\<close> there is no current transport, and setting the id panics.\<close>

definition SetFallbackPeerID :: "string \<Rightarrow> fallback \<Rightarrow> fallback option" where
  "SetFallbackPeerID peerID ft =
     (case fb_current ft of
        None \<Rightarrow> None
      | Some QUIC \<Rightarrow> Some (ft\<lparr>fb_primary := SetQUICPeerID peerID (fb_primary ft)\<rparr>)
      | Some TCP \<Rightarrow> Some (ft\<lparr>fb_secondary := SetTCPPeerID peerID (fb_secondary ft)\<rparr>))"

text \<open>Try QUIC, then TCP, and remember which one worked. The list says which transports were tried.\<close>

definition try_both :: "string \<Rightarrow> (protocol \<Rightarrow> bool) \<Rightarrow> fallback \<Rightarrow> fallback \<times> protocol list \<times> bool" where
  "try_both peerID works ft =
     (if works QUIC then (ft\<lparr>fb_protocols := gm_put peerID QUIC (fb_protocols ft)\<rparr>, [QUIC], True)
      else if works TCP then (ft\<lparr>fb_protocols := gm_put peerID TCP (fb_protocols ft)\<rparr>, [QUIC, TCP], True)
      else (ft, [QUIC, TCP], False))"

definition SendMessageFallback :: "string \<Rightarrow> (protocol \<Rightarrow> bool) \<Rightarrow> fallback \<Rightarrow> fallback \<times> protocol list \<times> bool" where
  "SendMessageFallback peerID works ft =
     (case fb_current ft of
        None \<Rightarrow> (ft, [], False)
      | Some current \<Rightarrow>
          (case map_of (fb_protocols ft) peerID of
             None \<Rightarrow> if \<not> fb_used_fallback ft then try_both peerID works ft else (ft, [current], works current)
           | Some p \<Rightarrow> (ft, [p], works p)))"

definition ConnectToPeerFallback :: "string \<Rightarrow> (protocol \<Rightarrow> bool) \<Rightarrow> fallback \<Rightarrow> fallback \<times> protocol list \<times> bool" where
  "ConnectToPeerFallback peerID works ft =
     (case fb_current ft of
        None \<Rightarrow> (ft, [], False)
      | Some current \<Rightarrow>
          if \<not> fb_used_fallback ft then try_both peerID works ft else (ft, [current], works current))"

definition GetActiveProtocol :: "fallback \<Rightarrow> protocol" where
  "GetActiveProtocol ft = (if fb_used_fallback ft then TCP else QUIC)"

definition GetPeerProtocol :: "string \<Rightarrow> fallback \<Rightarrow> protocol" where
  "GetPeerProtocol peerID ft =
     (case map_of (fb_protocols ft) peerID of None \<Rightarrow> GetActiveProtocol ft | Some p \<Rightarrow> p)"

section \<open>The factory\<close>

datatype transport = QuicT quic_transport | TcpT tcp_transport | FallbackT fallback

definition NewTransport :: "string \<Rightarrow> int \<Rightarrow> transport" where
  "NewTransport prot port =
     (if prot = ''quic'' then QuicT (NewQUICTransport port)
      else if prot = ''tcp'' then TcpT (NewTCPTransport port)
      else FallbackT (NewFallbackTransport port))"

text \<open>The fallback transport has no method for the connection manager.\<close>

fun give_manager :: "transport \<Rightarrow> transport" where
  "give_manager (QuicT q) = QuicT (SetQUICConnectionManager q)"
| "give_manager (TcpT t) = TcpT (SetTCPConnectionManager t)"
| "give_manager (FallbackT f) = FallbackT f"

fun give_peer_id :: "string \<Rightarrow> transport \<Rightarrow> transport option" where
  "give_peer_id p (QuicT q) = Some (QuicT (SetQUICPeerID p q))"
| "give_peer_id p (TcpT t) = Some (TcpT (SetTCPPeerID p t))"
| "give_peer_id p (FallbackT f) = map_option FallbackT (SetFallbackPeerID p f)"

fun give_handler :: "transport \<Rightarrow> transport" where
  "give_handler (QuicT q) = QuicT (SetQUICMessageHandler q)"
| "give_handler (TcpT t) = TcpT (SetTCPMessageHandler t)"
| "give_handler (FallbackT f) = FallbackT (SetFallbackMessageHandler f)"

fun start_transport :: "(protocol \<Rightarrow> bool) \<Rightarrow> transport \<Rightarrow> transport \<times> bool" where
  "start_transport listens (QuicT q) = map_prod QuicT id (StartQUIC (listens QUIC) q)"
| "start_transport listens (TcpT t) = map_prod TcpT id (StartTCP True (listens TCP) t)"
| "start_transport listens (FallbackT f) = map_prod FallbackT id (StartFallback listens f)"

fun stop_transport :: "transport \<Rightarrow> transport option" where
  "stop_transport (QuicT q) = map_option QuicT (StopQUIC q)"
| "stop_transport (TcpT t) = Some (TcpT (StopTCP t))"
| "stop_transport (FallbackT f) = map_option FallbackT (StopFallback f)"

section \<open>The wiring of main\<close>

text \<open>
  \<open>wi_network\<close> is the variable \<open>networkTransport\<close>, which connects to peers and is stopped in the end. \<open>wi_senders\<close> is the transport that the message
  handler, the heartbeats and the messenger were given before the start; it is the same one, and then \<open>None\<close>, or the one it replaced.
\<close>

record wiring =
  wi_network :: transport
  wi_senders :: "transport option"

datatype startup = Fatal | Crashed | Running wiring

definition prepare :: "string \<Rightarrow> transport \<Rightarrow> transport option" where
  "prepare peerID t = map_option give_handler (give_peer_id peerID (give_manager t))"

definition start_network :: "(protocol \<Rightarrow> bool) \<Rightarrow> string \<Rightarrow> int \<Rightarrow> string \<Rightarrow> startup" where
  "start_network listens cfg_protocol port peerID =
     (let prot = (if cfg_protocol = [] then ''quic'' else cfg_protocol)
      in case prepare peerID (NewTransport prot port) of
           None \<Rightarrow> Crashed
         | Some t \<Rightarrow>
             (case start_transport listens t of
                (t1, True) \<Rightarrow> Running \<lparr>wi_network = t1, wi_senders = None\<rparr>
              | (t1, False) \<Rightarrow>
                  if prot = ''quic'' then
                    (case prepare peerID (NewTransport ''tcp'' port) of
                       None \<Rightarrow> Crashed
                     | Some f \<Rightarrow>
                         (case start_transport listens f of
                            (f1, True) \<Rightarrow> Running \<lparr>wi_network = f1, wi_senders = Some t1\<rparr>
                          | (f1, False) \<Rightarrow> Fatal))
                  else Fatal))"

text \<open>The transport is stopped by the shutdown, and once more by the deferred call.\<close>

definition shutdown_network :: "wiring \<Rightarrow> transport option" where
  "shutdown_network w = Option.bind (stop_transport (wi_network w)) stop_transport"

section \<open>Whom to connect to\<close>

text \<open>A discovered peer is dialled unless it is this peer, or is connected and has a key. An empty key is a key.\<close>

definition should_connect :: "string \<Rightarrow> string \<Rightarrow> conn_manager \<Rightarrow> bool" where
  "should_connect own discovered cm \<longleftrightarrow>
     discovered \<noteq> own \<and>
     (case GetConnection discovered cm of
        Inr _ \<Rightarrow> (case GetSessionKey discovered cm of Inr _ \<Rightarrow> False | Inl _ \<Rightarrow> True)
      | Inl _ \<Rightarrow> True)"

text \<open>The callback of main, and the loop over the peers that were known when it was added: whom they dial, in goroutines.\<close>

definition discovered_callback :: "string \<Rightarrow> conn_manager \<Rightarrow> peer_info \<Rightarrow> (string \<times> string \<times> int64) list" where
  "discovered_callback own cm p =
     (if should_connect own (pi_peer_id p) cm then [(pi_peer_id p, pi_address p, pi_port p)] else [])"

definition connect_known :: "string \<Rightarrow> conn_manager \<Rightarrow> registry \<Rightarrow> (string \<times> string \<times> int64) list" where
  "connect_known own cm r = concat (map (discovered_callback own cm) (GetAllPeers r))"

definition splitAndTrim :: "char \<Rightarrow> string \<Rightarrow> string list" where
  "splitAndTrim delim s = filter (\<lambda>p. p \<noteq> []) (map TrimSpace (split_on delim s))"

text \<open>A configured peer, \<open>host:port\<close> or \<open>id:host:port\<close>: the id, the host and the port to dial.\<close>

definition peer_address :: "string \<Rightarrow> (string \<times> string \<times> int64) option" where
  "peer_address peerAddr =
     (let parts = splitAndTrim (CHR '':'') peerAddr; scanned = (\<lambda>s. case sscanf_d s of None \<Rightarrow> 8080 | Some n \<Rightarrow> n)
      in if length parts < 2 then None
         else if length parts = 2 then Some (parts ! 0, parts ! 0, scanned (parts ! 1))
         else if length parts = 3 then Some (parts ! 0, parts ! 1, scanned (parts ! 2))
         else Some (parts ! 0, parts ! 0, 8080))"

definition configured_peers :: "string \<Rightarrow> config \<Rightarrow> (string \<times> string \<times> int64) list" where
  "configured_peers peersEnv cfg =
     List.map_filter peer_address
       (if peersEnv \<noteq> [] then splitAndTrim (CHR '','') peersEnv else wc_peers (cf_network cfg))"

definition generatePeerID :: "time \<Rightarrow> string option \<Rightarrow> string" where
  "generatePeerID now hostname = (case hostname of None \<Rightarrow> ''unknown'' | Some h \<Rightarrow> h) @ ''-'' @ dec_int now"

section \<open>Properties of the start\<close>

lemma prepare_simps [simp]:
  "prepare p (QuicT q) = Some (QuicT (SetQUICMessageHandler (SetQUICPeerID p (SetQUICConnectionManager q))))"
  "prepare p (TcpT t) = Some (TcpT (SetTCPMessageHandler (SetTCPPeerID p (SetTCPConnectionManager t))))"
  "fb_current f = None \<Longrightarrow> prepare p (FallbackT f) = None"
  by (simp_all add: prepare_def SetFallbackPeerID_def)

text \<open>When QUIC cannot listen and TCP can, the program runs with two transports. The one that listens and dials is TCP; the messages of the handler, the
  messenger and the heartbeats still go to the QUIC transport, which does not listen, so nothing is ever sent over the connections
  that peers open. For every protocol the validation lets through this is the only such case, and the start neither crashes
  nor gives up while one of the allowed transports can listen.
\<close>

theorem tcp_fallback_splits_traffic:
  assumes "cfg_protocol \<in> {''quic'', ''tcp'', ''''}"
  shows "(\<forall>w. start_network listens cfg_protocol port p = Running w \<longrightarrow>
      (wi_senders w \<noteq> None \<longleftrightarrow> cfg_protocol \<noteq> ''tcp'' \<and> \<not> listens QUIC) \<and>
      (case wi_senders w of
         None \<Rightarrow> True
       | Some s \<Rightarrow> (\<exists>t q. wi_network w = TcpT t \<and> tp_listening t \<and> s = QuicT q \<and> \<not> qt_listening q \<and> tp_peer t = p \<and> qt_peer q = p))) \<and>
    start_network listens cfg_protocol port p \<noteq> Crashed \<and>
    (start_network listens cfg_protocol port p = Fatal \<longleftrightarrow> \<not> listens TCP \<and> (cfg_protocol = ''tcp'' \<or> \<not> listens QUIC))"
  using assms
  by (cases "listens QUIC"; cases "listens TCP")
     (auto simp: start_network_def NewTransport_def StartQUIC_def StartTCP_def NewQUICTransport_def NewTCPTransport_def
        SetQUICMessageHandler_def SetQUICPeerID_def SetQUICConnectionManager_def SetTCPMessageHandler_def SetTCPPeerID_def SetTCPConnectionManager_def)

theorem tcp_fallback_splits_traffic_witness:
  "\<exists>w t q. start_network (\<lambda>p. p = TCP) ''quic'' 8080 ''A'' = Running w \<and> wi_network w = TcpT t \<and> wi_senders w = Some (QuicT q) \<and> \<not> qt_listening q"
proof -
  have p: "''quic'' \<in> {''quic'', ''tcp'', ''''}" by simp
  have "start_network (\<lambda>p. p = TCP) ''quic'' 8080 ''A'' \<noteq> Fatal" "start_network (\<lambda>p. p = TCP) ''quic'' 8080 ''A'' \<noteq> Crashed"
    using tcp_fallback_splits_traffic [OF p, of "\<lambda>p. p = TCP" 8080 "''A''"] by auto
  then obtain w where "start_network (\<lambda>p. p = TCP) ''quic'' 8080 ''A'' = Running w"
    by (cases "start_network (\<lambda>p. p = TCP) ''quic'' 8080 ''A''") auto
  then show ?thesis using tcp_fallback_splits_traffic [OF p, of "\<lambda>p. p = TCP" 8080 "''A''"] by (auto split: option.splits)
qed

text \<open>A program that runs on QUIC panics when it ends, because its transport is stopped twice.\<close>

lemma quic_shutdown_panics: "wi_network w = QuicT q \<Longrightarrow> shutdown_network w = None"
  by (cases "qt_stopped q") (simp_all add: shutdown_network_def StopQUIC_def)

lemma tcp_shutdown: "wi_network w = TcpT t \<Longrightarrow> \<exists>t'. shutdown_network w = Some (TcpT t') \<and> tp_stopped t'"
  by (cases "tp_stopped t") (simp_all add: shutdown_network_def StopTCP_def)

text \<open>The fallback transport cannot be prepared as main does it, and main never asks for it.\<close>

lemma fallback_transport_crashes: "prepare p (FallbackT (NewFallbackTransport port)) = None"
  by (simp add: NewFallbackTransport_def)

text \<open>A connection without a key is never replaced by a discovered peer, contrary to what the comment in main says.\<close>

lemma should_connect_iff: "should_connect own p cm \<longleftrightarrow> p \<noteq> own \<and> conn_of cm p = None"
  by (simp add: should_connect_def GetSessionKey_def GetConnection_def split: option.split)

section \<open>The protocol of a peer\<close>

definition fallback_sends :: "string \<Rightarrow> (protocol \<Rightarrow> bool) list \<Rightarrow> fallback \<Rightarrow> fallback \<times> (protocol list \<times> bool) list" where
  "fallback_sends p ws ft =
     foldl (\<lambda>(ft, rs) works. case SendMessageFallback p works ft of (ft1, r) \<Rightarrow> (ft1, rs @ [r])) (ft, []) ws"

lemma SendMessageFallback_known:
  "fb_current ft \<noteq> None \<Longrightarrow> map_of (fb_protocols ft) p = Some x \<Longrightarrow> SendMessageFallback p works ft = (ft, [x], works x)"
  by (auto simp: SendMessageFallback_def split: option.split)

lemma fallback_sends_known:
  assumes "fb_current ft \<noteq> None" "map_of (fb_protocols ft) p = Some x"
  shows "foldl (\<lambda>(ft, rs) works. case SendMessageFallback p works ft of (ft1, r) \<Rightarrow> (ft1, rs @ [r])) (ft, rs) ws =
    (ft, rs @ map (\<lambda>works. ([x], works x)) ws)"
  by (induction ws arbitrary: rs) (simp_all add: SendMessageFallback_known [OF assms])

text \<open>The fallback transport settles on one protocol for each peer. The first message that gets through decides, TCP only if QUIC failed for it; every later message
  tries that protocol alone, also when it fails and the other one would work.
\<close>

theorem fallback_settles_on_protocol:
  assumes "fb_current ft = Some QUIC" "\<not> fb_used_fallback ft" "map_of (fb_protocols ft) p = None" "works QUIC \<or> works TCP"
  shows "snd (fallback_sends p (works # ws) ft) =
    (if works QUIC then [QUIC] else [QUIC, TCP], True) #
      map (\<lambda>w. ([if works QUIC then QUIC else TCP], w (if works QUIC then QUIC else TCP))) ws \<and>
    GetPeerProtocol p (fst (fallback_sends p (works # ws) ft)) = (if works QUIC then QUIC else TCP)"
proof -
  let ?x = "if works QUIC then QUIC else TCP" and ?ft = "ft\<lparr>fb_protocols := gm_put p (if works QUIC then QUIC else TCP) (fb_protocols ft)\<rparr>"
  have "SendMessageFallback p works ft = (?ft, if works QUIC then [QUIC] else [QUIC, TCP], True)"
    using assms by (cases "works QUIC") (simp_all add: SendMessageFallback_def try_both_def)
  moreover have "fb_current ?ft \<noteq> None" "map_of (fb_protocols ?ft) p = Some ?x" using assms(1) by simp_all
  ultimately show ?thesis
    using fallback_sends_known [of ?ft p ?x "[(if works QUIC then [QUIC] else [QUIC, TCP], True)]" ws]
    by (simp add: fallback_sends_def GetPeerProtocol_def)
qed

theorem fallback_settles_on_protocol_witness:
  "snd (fallback_sends ''B'' [\<lambda>p. p = TCP, \<lambda>p. p = QUIC] (fst (StartFallback (\<lambda>_. True) (NewFallbackTransport 8080)))) =
     [([QUIC, TCP], True), ([TCP], False)]"
proof -
  let ?ft = "fst (StartFallback (\<lambda>_. True) (NewFallbackTransport 8080))"
  have "fb_current ?ft = Some QUIC" "\<not> fb_used_fallback ?ft" "map_of (fb_protocols ?ft) ''B'' = None"
    by (simp_all add: StartFallback_def StartQUIC_def NewFallbackTransport_def)
  then show ?thesis
    using fallback_settles_on_protocol [of ?ft "''B''" "\<lambda>p. p = TCP" "[\<lambda>p. p = QUIC]"] by simp
qed

section \<open>Configured peers\<close>

text \<open>A name without white space, colon or comma, in ASCII.\<close>

definition token :: "string \<Rightarrow> bool" where
  "token s \<longleftrightarrow> s \<noteq> [] \<and> list_all (\<lambda>c. 33 \<le> byte_val c \<and> byte_val c < 127 \<and> c \<noteq> CHR '':'' \<and> c \<noteq> CHR '','') s"

lemma strip_one_None: "\<forall>w \<in> set ws. w = [] \<or> hd w \<noteq> c \<Longrightarrow> strip_one ws (c # r) = None"
proof (induction ws)
  case (Cons w ws)
  then show ?case by (cases w) auto
qed simp

lemma space_bytes:
  "\<forall>w \<in> set space_seqs. w \<noteq> [] \<and> \<not> (33 \<le> byte_val (hd w) \<and> byte_val (hd w) < 127)"
  "\<forall>w \<in> set (map rev space_seqs). w \<noteq> [] \<and> \<not> (33 \<le> byte_val (hd w) \<and> byte_val (hd w) < 127)"
proof -
  have "list_all (\<lambda>w. w \<noteq> [] \<and> \<not> (33 \<le> byte_val (hd w) \<and> byte_val (hd w) < 127)) space_seqs"
    "list_all (\<lambda>w. w \<noteq> [] \<and> \<not> (33 \<le> byte_val (hd w) \<and> byte_val (hd w) < 127)) (map rev space_seqs)" by code_simp+
  then show "\<forall>w \<in> set space_seqs. w \<noteq> [] \<and> \<not> (33 \<le> byte_val (hd w) \<and> byte_val (hd w) < 127)"
    "\<forall>w \<in> set (map rev space_seqs). w \<noteq> [] \<and> \<not> (33 \<le> byte_val (hd w) \<and> byte_val (hd w) < 127)"
    by (simp_all only: list_all_iff)
qed

lemma trim_left_visible:
  assumes "\<forall>w \<in> set ws. w \<noteq> [] \<and> \<not> (33 \<le> byte_val (hd w) \<and> byte_val (hd w) < 127)" "33 \<le> byte_val c" "byte_val c < 127"
  shows "trim_left ws (c # r) = c # r"
proof -
  have "strip_one ws (c # r) = None" using assms by (intro strip_one_None) fastforce
  then show ?thesis by (subst trim_left.simps) simp
qed

lemma TrimSpace_visible:
  assumes "s \<noteq> []" "list_all (\<lambda>c. 33 \<le> byte_val c \<and> byte_val c < 127) s"
  shows "TrimSpace s = s"
proof -
  obtain c r where c: "s = c # r" using assms(1) by (cases s) auto
  obtain d q where d: "rev s = d # q" using assms(1) by (cases "rev s") auto
  have "d \<in> set s" using d by (metis list.set_intros(1) set_rev)
  then have v: "33 \<le> byte_val c" "byte_val c < 127" "33 \<le> byte_val d" "byte_val d < 127" using assms(2) c by (auto simp: list_all_iff)
  have 1: "trim_left space_seqs s = s" unfolding c by (rule trim_left_visible [OF space_bytes(1) v(1,2)])
  have 2: "trim_left (map rev space_seqs) (rev s) = rev s" unfolding d by (rule trim_left_visible [OF space_bytes(2) v(3,4)])
  show ?thesis by (simp only: TrimSpace_def 1 2 rev_rev_ident)
qed

lemma token_trim: "token s \<Longrightarrow> TrimSpace s = s"
  by (rule TrimSpace_visible) (auto simp: token_def list_all_iff)

lemma token_no_sep: "token s \<Longrightarrow> CHR '':'' \<notin> set s" "token s \<Longrightarrow> CHR '','' \<notin> set s"
  by (auto simp: token_def list_all_iff)

lemma token_dec_int: "0 \<le> n \<Longrightarrow> token (dec_int n)"
  using dec_nat_digits [of "nat n"] by (auto simp: token_def dec_int_def list_all_iff is_digit_def)

definition peer_text :: "string \<times> string \<times> int64 \<Rightarrow> string" where
  "peer_text x = (case x of (p, h, port) \<Rightarrow> p @ '':'' @ h @ '':'' @ dec_int port)"

definition peer_ok :: "string \<times> string \<times> int64 \<Rightarrow> bool" where
  "peer_ok x \<longleftrightarrow> (case x of (p, h, port) \<Rightarrow> token p \<and> token h \<and> 0 \<le> port \<and> in_int64 port)"

lemma peer_address_text:
  assumes "peer_ok x"
  shows "peer_address (peer_text x) = Some x"
proof -
  obtain p h port where x: "x = (p, h, port)" by (cases x)
  have t: "token p" "token h" "token (dec_int port)" "0 \<le> port" "in_int64 port"
    using assms token_dec_int by (auto simp: x peer_ok_def)
  have "split_on (CHR '':'') (peer_text x) = [p, h, dec_int port]"
    using t token_no_sep by (simp add: x peer_text_def split_on_append_sep split_on_no_sep)
  then have "splitAndTrim (CHR '':'') (peer_text x) = [p, h, dec_int port]"
    using t token_trim by (auto simp: splitAndTrim_def token_def)
  then show ?thesis using t sscanf_dec_int by (simp add: peer_address_def x numeral_2_eq_2 numeral_3_eq_3)
qed

lemma peer_text_visible:
  assumes "peer_ok x"
  shows "TrimSpace (peer_text x) = peer_text x" "peer_text x \<noteq> []" "CHR '','' \<notin> set (peer_text x)"
proof -
  obtain p h port where x: "x = (p, h, port)" by (cases x)
  have t: "token p" "token h" "token (dec_int port)" using assms token_dec_int by (auto simp: x peer_ok_def)
  then show "TrimSpace (peer_text x) = peer_text x"
    by (intro TrimSpace_visible) (auto simp: x peer_text_def token_def list_all_iff)
  show "peer_text x \<noteq> []" by (simp add: x peer_text_def)
  show "CHR '','' \<notin> set (peer_text x)" using t token_no_sep by (auto simp: x peer_text_def)
qed

text \<open>A list of peers written as \<open>id:host:port\<close> with commas in between, in the environment variable \<open>PEERS\<close>, is read back as exactly these peers,
  whatever the configuration file lists.
\<close>

theorem configured_peers_roundtrip:
  assumes "\<forall>x \<in> set xs. peer_ok x" "xs \<noteq> []"
  shows "configured_peers (join_with '','' (map peer_text xs)) cfg = xs"
proof -
  have s: "split_on (CHR '','') (join_with '','' (map peer_text xs)) = map peer_text xs"
    by (rule split_join_on) (use assms peer_text_visible(3) in auto)
  have t: "map TrimSpace (map peer_text xs) = map peer_text xs" "filter (\<lambda>p. p \<noteq> []) (map peer_text xs) = map peer_text xs"
    using assms(1) peer_text_visible by (auto simp: filter_id_conv)
  have "join_with '','' (map peer_text xs) \<noteq> []"
  proof (cases xs)
    case (Cons y ys)
    then have "peer_text y \<noteq> []" using assms(1) peer_text_visible(2) by simp
    then show ?thesis by (cases ys) (simp_all add: Cons)
  qed (use assms(2) in simp)
  moreover have "List.map_filter peer_address (map peer_text xs) = xs"
    using assms(1) peer_address_text by (induction xs) (simp_all add: List.map_filter_simps)
  ultimately show ?thesis by (simp add: configured_peers_def splitAndTrim_def s t del: map_map)
qed

theorem configured_peers_roundtrip_witness:
  "configured_peers ''A:h1:8080,B:h2:9090'' DefaultConfig = [(''A'', ''h1'', 8080), (''B'', ''h2'', 9090)]"
proof -
  have d: "dec_int 8080 = ''8080''" "dec_int 9090 = ''9090''"
    by (simp_all add: dec_int_def dec_nat.simps digit_char_def char_of_def bit_0)
  show ?thesis
    using configured_peers_roundtrip [of "[(''A'', ''h1'', 8080), (''B'', ''h2'', 9090)]" DefaultConfig]
    by (simp add: peer_text_def d peer_ok_def token_def in_int64_def)
qed

section \<open>Dialling what was discovered\<close>

definition seen :: "(time \<times> string \<times> string \<times> int64 \<times> string) list \<Rightarrow> string set" where
  "seen ss = fst ` snd ` set ss"

text \<open>What the callbacks of main have dialled so far.\<close>

definition callback_dials :: "string \<Rightarrow> conn_manager \<Rightarrow> registry \<Rightarrow> (string \<times> string \<times> int64) list" where
  "callback_dials own cm r = concat (map (\<lambda>(i, p). discovered_callback own cm p) (rg_called r))"

definition named :: "registry \<Rightarrow> bool" where
  "named r \<longleftrightarrow> gm_ok (rg_peers r) \<and> (\<forall>(k, p) \<in> set (rg_peers r). pi_peer_id p = k)"

lemma named_sightings: "named r \<Longrightarrow> named (sightings ss r)"
proof (induction ss r rule: sightings.induct)
  case (2 now p a port v ss r)
  have "set (gm_put k x m) \<subseteq> insert (k, x) (set m)" for k x and m :: "(string, peer_info) gomap"
    by (induction m) (auto simp: gm_put_def)
  then have "named (AddOrUpdatePeer now p a port (JObj []) v r)"
    using "2.prems" by (fastforce simp: named_def AddOrUpdatePeer_def notifyDiscovery_def Let_def)
  with "2.IH" show ?case by simp
qed simp

lemma GetAllPeers_ids: "named r \<Longrightarrow> map pi_peer_id (GetAllPeers r) = map fst (rg_peers r)"
  by (auto simp: named_def GetAllPeers_def)

lemma dialled_ids: "map fst (concat (map (discovered_callback own cm) ps)) = filter (\<lambda>q. should_connect own q cm) (map pi_peer_id ps)"
  by (induction ps) (simp_all add: discovered_callback_def)

lemma callback_ids: "map fst (callback_dials own cm r) = filter (\<lambda>q. should_connect own q cm) (map (pi_peer_id \<circ> snd) (rg_called r))"
proof -
  have "map (\<lambda>(i, p). discovered_callback own cm p) xs = map (discovered_callback own cm) (map snd xs)" for xs :: "(nat \<times> peer_info) list"
    by auto
  then show ?thesis unfolding callback_dials_def by (simp only: dialled_ids) simp
qed

lemma called_without: "rg_callbacks r = 0 \<Longrightarrow> rg_called (sightings ss r) = rg_called r"
  by (induction ss r rule: sightings.induct) (simp_all add: AddOrUpdatePeer_def notifyDiscovery_def Let_def)

lemma called_first:
  "rg_callbacks r = 1 \<Longrightarrow> list_all (\<lambda>(i, p). i = 0) (rg_called r) \<Longrightarrow> list_all (\<lambda>(i, p). i = 0) (rg_called (sightings ss r))"
  by (induction ss r rule: sightings.induct) (simp_all add: AddOrUpdatePeer_def notifyDiscovery_def Let_def)

lemma told_all: "list_all (\<lambda>(i, p). i = 0) (rg_called r) \<Longrightarrow> map (pi_peer_id \<circ> snd) (rg_called r) = told 0 r"
proof -
  assume a: "list_all (\<lambda>(i, p). i = 0) (rg_called r)"
  have "filter (\<lambda>(j, p). j = 0) (rg_called r) = rg_called r"
    using a by (induction "rg_called r" arbitrary: r) (auto simp: filter_id_conv list_all_iff)
  then show ?thesis by (simp add: told_def)
qed

lemma count_distinct: "distinct xs \<Longrightarrow> length (filter (\<lambda>x. x = p) xs) = (if p \<in> set xs then 1 else 0)"
  by (induction xs) (auto simp: filter_empty_conv)

text \<open>C6. Every peer that discovery reports is dialled, whenever it is first seen: before main registers its callback, while it does so, or
  later. It is dialled once, except that a peer first seen between the registration and the walk over the known peers is dialled
  twice. However often it is seen again there is no further dial, so one whose dial fails is not
  tried again by discovery. The peers counted are those not connected to, and other than this one.
\<close>

theorem discovered_peers_dialled:
  fixes ss1 ss2 ss3 :: "(time \<times> string \<times> string \<times> int64 \<times> string) list"
  assumes "p \<noteq> own" "conn_of cm p = None"
  defines "r1 \<equiv> AddDiscoveryCallback (sightings ss1 NewRegistry)"
  defines "r2 \<equiv> sightings ss2 r1"
  defines "r3 \<equiv> sightings ss3 r2"
  shows "length (filter (\<lambda>d. fst d = p) (callback_dials own cm r3 @ connect_known own cm r2)) =
    (if p \<in> seen ss2 - seen ss1 then 2 else if p \<in> seen ss1 \<union> seen ss3 then 1 else 0)"
proof -
  have count: "length (filter (\<lambda>d. fst d = p) ds) = length (filter (\<lambda>q. q = p) (map fst ds))" for ds :: "(string \<times> string \<times> int64) list"
    by (simp add: filter_map comp_def)
  have ok: "should_connect own p cm" using assms(1,2) by (simp add: should_connect_iff)
  have only: "filter (\<lambda>q. q = p) (filter (\<lambda>q. should_connect own q cm) xs) = filter (\<lambda>q. q = p) xs" for xs
    using ok by (induction xs) auto
  have keys: "fst ` set (rg_peers (sightings ss NewRegistry)) = seen ss" for ss
    using sightings_peers [of ss NewRegistry] unfolding seen_def set_eq_iff by (simp add: map_of_eq_None_iff NewRegistry_def)
  have r1: "rg_callbacks r1 = 1" "rg_called r1 = []" "rg_peers r1 = rg_peers (sightings ss1 NewRegistry)"
    by (simp_all add: r1_def AddDiscoveryCallback_def called_without NewRegistry_def)
  have p1: "map_of (rg_peers r1) q = None \<longleftrightarrow> q \<notin> seen ss1" for q
    using keys [of ss1] by (simp add: r1(3) map_of_eq_None_iff)
  have called: "map (pi_peer_id \<circ> snd) (rg_called r3) = filter (\<lambda>q. q \<notin> seen ss1) (rev (remdups (rev (map (fst \<circ> snd) (ss2 @ ss3)))))"
  proof -
    have "r3 = sightings (ss2 @ ss3) r1" by (simp add: r3_def r2_def sightings_append)
    then show ?thesis using told_all [OF called_first [of r1 "ss2 @ ss3"]] told_sightings [of 0 r1 "ss2 @ ss3"] r1 p1
      by (simp add: told_def)
  qed
  have "length (filter (\<lambda>d. fst d = p) (callback_dials own cm r3)) = (if p \<in> (seen ss2 \<union> seen ss3) - seen ss1 then 1 else 0)"
    unfolding count callback_ids only called
    by (subst count_distinct) (auto simp: seen_def image_image)
  moreover have "length (filter (\<lambda>d. fst d = p) (connect_known own cm r2)) = (if p \<in> seen ss1 \<union> seen ss2 then 1 else 0)"
  proof -
    have "named (sightings ss1 NewRegistry)" by (rule named_sightings) (simp add: named_def NewRegistry_def gm_ok_def)
    then have "named r1" by (simp add: named_def r1(3))
    then have n: "named r2" unfolding r2_def by (rule named_sightings)
    have "p \<in> fst ` set (rg_peers r2) \<longleftrightarrow> p \<in> seen ss1 \<union> seen ss2"
      using sightings_peers [of ss2 r1 p] p1 by (auto simp: r2_def map_of_eq_None_iff seen_def)
    moreover have "distinct (map fst (rg_peers r2))" using n by (simp add: named_def gm_ok_def)
    ultimately show ?thesis
      unfolding count connect_known_def dialled_ids only GetAllPeers_ids [OF n] by (subst count_distinct) auto
  qed
  ultimately show ?thesis by auto
qed

theorem discovered_peers_dialled_witness:
  "length (filter (\<lambda>d. fst d = ''B'') (callback_dials ''A'' NewConnectionManager
       (sightings [(3, ''B'', ''h'', 1, ''v'')] (sightings [(2, ''B'', ''h'', 1, ''v'')] (AddDiscoveryCallback (sightings [] NewRegistry)))) @
     connect_known ''A'' NewConnectionManager (sightings [(2, ''B'', ''h'', 1, ''v'')] (AddDiscoveryCallback (sightings [] NewRegistry))))) = 2"
  using discovered_peers_dialled [of "''B''" "''A''" NewConnectionManager "[(3, ''B'', ''h'', 1, ''v'')]" "[(2, ''B'', ''h'', 1, ''v'')]" "[]"]
  by (simp add: seen_def NewConnectionManager_def)

end
