(* ===== verification/Metrics.thy ===== *)
theory Metrics
  imports Prelude
begin

text \<open>
  The counters of \<^verbatim>\<open>internal/monitoring/metrics.go\<close>. Each group of counters is a record, each method one function of the collector; counters are
  64-bit integers and wrap around. A snapshot copies the counters, while its table of connection times
  is a reference to the collector's, so it has no field of its own here. Durations are in nanoseconds; a summary gives the uptime as a
  duration, of which the code takes the seconds. The collector is read by the HTTP server only, whose handlers encode a group as JSON.
\<close>

section \<open>State\<close>

record sync_metrics =
  sm_total :: int64
  sm_create :: int64
  sm_update :: int64
  sm_delete :: int64
  sm_rename :: int64
  sm_failed :: int64
  sm_last_time :: time
  sm_bytes :: int64
  sm_files :: int64

record net_metrics =
  tm_bytes_sent :: int64
  tm_bytes_received :: int64
  tm_messages_sent :: int64
  tm_messages_received :: int64
  tm_chunks_sent :: int64
  tm_chunks_received :: int64
  tm_attempts :: int64
  tm_failed :: int64
  tm_active :: int64

record flow_metrics =
  lm_active :: int64
  lm_total :: int64
  lm_queued :: int64
  lm_bandwidth :: int64
  lm_peak :: int64
  lm_throttled :: int64

record peer_metrics =
  pm_connected :: int64
  pm_discovered :: int64
  pm_disconnects :: int64
  pm_reconnects :: int64

record conflict_metrics =
  km_total :: int64
  km_resolved :: int64
  km_pending :: int64
  km_lww :: int64
  km_three_way :: int64
  km_manual :: int64

record error_metrics =
  rm_total :: int64
  rm_network :: int64
  rm_filesystem :: int64
  rm_sync :: int64
  rm_encryption :: int64
  rm_last :: string
  rm_last_time :: time

record metrics =
  mt_sync :: sync_metrics
  mt_network :: net_metrics
  mt_flow :: flow_metrics
  mt_peers :: peer_metrics
  mt_connect_time :: "(string, time) gomap"
  mt_conflicts :: conflict_metrics
  mt_errors :: error_metrics
  mt_start :: time

definition NewMetrics :: "time \<Rightarrow> metrics" where
  "NewMetrics now =
     \<lparr>mt_sync = \<lparr>sm_total = 0, sm_create = 0, sm_update = 0, sm_delete = 0, sm_rename = 0, sm_failed = 0,
        sm_last_time = zero_time, sm_bytes = 0, sm_files = 0\<rparr>,
      mt_network = \<lparr>tm_bytes_sent = 0, tm_bytes_received = 0, tm_messages_sent = 0, tm_messages_received = 0, tm_chunks_sent = 0,
        tm_chunks_received = 0, tm_attempts = 0, tm_failed = 0, tm_active = 0\<rparr>,
      mt_flow = \<lparr>lm_active = 0, lm_total = 0, lm_queued = 0, lm_bandwidth = 0, lm_peak = 0, lm_throttled = 0\<rparr>,
      mt_peers = \<lparr>pm_connected = 0, pm_discovered = 0, pm_disconnects = 0, pm_reconnects = 0\<rparr>, mt_connect_time = [],
      mt_conflicts = \<lparr>km_total = 0, km_resolved = 0, km_pending = 0, km_lww = 0, km_three_way = 0, km_manual = 0\<rparr>,
      mt_errors = \<lparr>rm_total = 0, rm_network = 0, rm_filesystem = 0, rm_sync = 0, rm_encryption = 0, rm_last = [], rm_last_time = zero_time\<rparr>,
      mt_start = now\<rparr>"

definition inc :: "int64 \<Rightarrow> int64" where
  "inc x = wrap64 (x + 1)"

definition dec :: "int64 \<Rightarrow> int64" where
  "dec x = wrap64 (x - 1)"

section \<open>Recording\<close>

definition RecordSyncOperation :: "time \<Rightarrow> string \<Rightarrow> int64 \<Rightarrow> bool \<Rightarrow> metrics \<Rightarrow> metrics" where
  "RecordSyncOperation now opType bytes success m =
     (let s = (mt_sync m)\<lparr>sm_total := inc (sm_total (mt_sync m)), sm_last_time := now\<rparr>;
          s1 = (if success then
                  (let g = s\<lparr>sm_bytes := wrap64 (sm_bytes s + bytes), sm_files := inc (sm_files s)\<rparr>
                   in if opType = ''create'' then g\<lparr>sm_create := inc (sm_create g)\<rparr>
                      else if opType = ''update'' then g\<lparr>sm_update := inc (sm_update g)\<rparr>
                      else if opType = ''delete'' then g\<lparr>sm_delete := inc (sm_delete g)\<rparr>
                      else if opType = ''rename'' then g\<lparr>sm_rename := inc (sm_rename g)\<rparr>
                      else g)
                else s\<lparr>sm_failed := inc (sm_failed s)\<rparr>)
      in m\<lparr>mt_sync := s1\<rparr>)"

definition RecordNetworkTraffic :: "int64 \<Rightarrow> int64 \<Rightarrow> metrics \<Rightarrow> metrics" where
  "RecordNetworkTraffic sent received m =
     m\<lparr>mt_network := (mt_network m)\<lparr>tm_bytes_sent := wrap64 (tm_bytes_sent (mt_network m) + sent),
        tm_bytes_received := wrap64 (tm_bytes_received (mt_network m) + received)\<rparr>\<rparr>"

definition RecordMessage :: "bool \<Rightarrow> metrics \<Rightarrow> metrics" where
  "RecordMessage sent m =
     m\<lparr>mt_network := (if sent then (mt_network m)\<lparr>tm_messages_sent := inc (tm_messages_sent (mt_network m))\<rparr>
        else (mt_network m)\<lparr>tm_messages_received := inc (tm_messages_received (mt_network m))\<rparr>)\<rparr>"

definition RecordChunk :: "bool \<Rightarrow> metrics \<Rightarrow> metrics" where
  "RecordChunk sent m =
     m\<lparr>mt_network := (if sent then (mt_network m)\<lparr>tm_chunks_sent := inc (tm_chunks_sent (mt_network m))\<rparr>
        else (mt_network m)\<lparr>tm_chunks_received := inc (tm_chunks_received (mt_network m))\<rparr>)\<rparr>"

definition RecordConnection :: "bool \<Rightarrow> metrics \<Rightarrow> metrics" where
  "RecordConnection success m =
     (let n = (mt_network m)\<lparr>tm_attempts := inc (tm_attempts (mt_network m))\<rparr>
      in m\<lparr>mt_network := (if success then n else n\<lparr>tm_failed := inc (tm_failed n)\<rparr>)\<rparr>)"

definition SetActiveConnections :: "int64 \<Rightarrow> metrics \<Rightarrow> metrics" where
  "SetActiveConnections count m = m\<lparr>mt_network := (mt_network m)\<lparr>tm_active := count\<rparr>\<rparr>"

definition UpdateFlowControl :: "int64 \<Rightarrow> int64 \<Rightarrow> int64 \<Rightarrow> metrics \<Rightarrow> metrics" where
  "UpdateFlowControl active queued bandwidth m =
     (let f = (mt_flow m)\<lparr>lm_active := active, lm_queued := queued, lm_bandwidth := bandwidth\<rparr>
      in m\<lparr>mt_flow := (if bandwidth > lm_peak f then f\<lparr>lm_peak := bandwidth\<rparr> else f)\<rparr>)"

definition RecordTransfer :: "metrics \<Rightarrow> metrics" where
  "RecordTransfer m = m\<lparr>mt_flow := (mt_flow m)\<lparr>lm_total := inc (lm_total (mt_flow m))\<rparr>\<rparr>"

definition RecordThrottle :: "metrics \<Rightarrow> metrics" where
  "RecordThrottle m = m\<lparr>mt_flow := (mt_flow m)\<lparr>lm_throttled := inc (lm_throttled (mt_flow m))\<rparr>\<rparr>"

definition RecordPeerConnect :: "time \<Rightarrow> string \<Rightarrow> metrics \<Rightarrow> metrics" where
  "RecordPeerConnect now peerID m =
     m\<lparr>mt_peers := (mt_peers m)\<lparr>pm_connected := inc (pm_connected (mt_peers m)), pm_discovered := inc (pm_discovered (mt_peers m))\<rparr>,
       mt_connect_time := gm_put peerID now (mt_connect_time m)\<rparr>"

definition RecordPeerDisconnect :: "string \<Rightarrow> metrics \<Rightarrow> metrics" where
  "RecordPeerDisconnect peerID m =
     m\<lparr>mt_peers := (mt_peers m)\<lparr>pm_connected := dec (pm_connected (mt_peers m)), pm_disconnects := inc (pm_disconnects (mt_peers m))\<rparr>,
       mt_connect_time := gm_del peerID (mt_connect_time m)\<rparr>"

definition RecordConflict :: "string \<Rightarrow> metrics \<Rightarrow> metrics" where
  "RecordConflict resolutionType m =
     (let c = (mt_conflicts m)\<lparr>km_total := inc (km_total (mt_conflicts m)), km_pending := inc (km_pending (mt_conflicts m))\<rparr>
      in m\<lparr>mt_conflicts :=
           (if resolutionType = ''lww'' then c\<lparr>km_lww := inc (km_lww c)\<rparr>
            else if resolutionType = ''3way'' then c\<lparr>km_three_way := inc (km_three_way c)\<rparr>
            else if resolutionType = ''manual'' then c\<lparr>km_manual := inc (km_manual c)\<rparr>
            else c)\<rparr>)"

definition RecordConflictResolution :: "metrics \<Rightarrow> metrics" where
  "RecordConflictResolution m =
     m\<lparr>mt_conflicts := (mt_conflicts m)\<lparr>km_resolved := inc (km_resolved (mt_conflicts m)), km_pending := dec (km_pending (mt_conflicts m))\<rparr>\<rparr>"

definition RecordError :: "time \<Rightarrow> string \<Rightarrow> string \<Rightarrow> metrics \<Rightarrow> metrics" where
  "RecordError now errorType errorMsg m =
     (let e = (mt_errors m)\<lparr>rm_total := inc (rm_total (mt_errors m)), rm_last := errorMsg, rm_last_time := now\<rparr>
      in m\<lparr>mt_errors :=
           (if errorType = ''network'' then e\<lparr>rm_network := inc (rm_network e)\<rparr>
            else if errorType = ''filesystem'' then e\<lparr>rm_filesystem := inc (rm_filesystem e)\<rparr>
            else if errorType = ''sync'' then e\<lparr>rm_sync := inc (rm_sync e)\<rparr>
            else if errorType = ''encryption'' then e\<lparr>rm_encryption := inc (rm_encryption e)\<rparr>
            else e)\<rparr>)"

section \<open>Reading\<close>

record metrics_snapshot =
  sn_sync :: sync_metrics
  sn_network :: net_metrics
  sn_flow :: flow_metrics
  sn_peers :: peer_metrics
  sn_conflicts :: conflict_metrics
  sn_errors :: error_metrics
  sn_uptime :: int64
  sn_timestamp :: time

definition GetSnapshot :: "time \<Rightarrow> metrics \<Rightarrow> metrics_snapshot" where
  "GetSnapshot now m =
     \<lparr>sn_sync = mt_sync m, sn_network = mt_network m, sn_flow = mt_flow m, sn_peers = mt_peers m, sn_conflicts = mt_conflicts m,
      sn_errors = mt_errors m, sn_uptime = time_sub now (mt_start m), sn_timestamp = now\<rparr>"

datatype summary_value = Count int64 | Seconds int64

definition GetSummary :: "metrics_snapshot \<Rightarrow> (string \<times> summary_value) list" where
  "GetSummary s =
     [(''uptime_seconds'', Seconds (sn_uptime s)),
      (''total_operations'', Count (sm_total (sn_sync s))),
      (''files_synced'', Count (sm_files (sn_sync s))),
      (''bytes_synced'', Count (sm_bytes (sn_sync s))),
      (''connected_peers'', Count (pm_connected (sn_peers s))),
      (''active_transfers'', Count (lm_active (sn_flow s))),
      (''bandwidth_usage_bps'', Count (lm_bandwidth (sn_flow s))),
      (''total_conflicts'', Count (km_total (sn_conflicts s))),
      (''resolved_conflicts'', Count (km_resolved (sn_conflicts s))),
      (''total_errors'', Count (rm_total (sn_errors s))),
      (''network_bytes_sent'', Count (tm_bytes_sent (sn_network s))),
      (''network_bytes_received'', Count (tm_bytes_received (sn_network s)))]"

section \<open>The books balance\<close>

text \<open>Everything that can be recorded, as events.\<close>

datatype metric_event =
    SyncOperation time string int64 bool
  | Traffic int64 int64
  | MessageEvent bool
  | ChunkEvent bool
  | Connection bool
  | ActiveConnections int64
  | FlowEvent int64 int64 int64
  | Transfer
  | Throttle
  | PeerConnect time string
  | PeerDisconnect string
  | Conflict string
  | ConflictResolution
  | ErrorEvent time string string

fun record_event :: "metric_event \<Rightarrow> metrics \<Rightarrow> metrics" where
  "record_event (SyncOperation now ty n ok) = RecordSyncOperation now ty n ok"
| "record_event (Traffic s r) = RecordNetworkTraffic s r"
| "record_event (MessageEvent s) = RecordMessage s"
| "record_event (ChunkEvent s) = RecordChunk s"
| "record_event (Connection ok) = RecordConnection ok"
| "record_event (ActiveConnections n) = SetActiveConnections n"
| "record_event (FlowEvent a q b) = UpdateFlowControl a q b"
| "record_event Transfer = RecordTransfer"
| "record_event Throttle = RecordThrottle"
| "record_event (PeerConnect now p) = RecordPeerConnect now p"
| "record_event (PeerDisconnect p) = RecordPeerDisconnect p"
| "record_event (Conflict ty) = RecordConflict ty"
| "record_event ConflictResolution = RecordConflictResolution"
| "record_event (ErrorEvent now ty msg) = RecordError now ty msg"

definition record_all :: "metric_event list \<Rightarrow> metrics \<Rightarrow> metrics" where
  "record_all evs m = foldl (\<lambda>m e. record_event e m) m evs"

lemmas record_defs = RecordSyncOperation_def RecordNetworkTraffic_def RecordMessage_def RecordChunk_def RecordConnection_def
  SetActiveConnections_def UpdateFlowControl_def RecordTransfer_def RecordThrottle_def RecordPeerConnect_def RecordPeerDisconnect_def
  RecordConflict_def RecordConflictResolution_def RecordError_def

lemma wrap64_shift: "wrap64 (x + 2 ^ 64 * k) = wrap64 x"
proof -
  have "x + 2 ^ 64 * k + 2 ^ 63 = x + 2 ^ 63 + k * 2 ^ 64" by simp
  then show ?thesis unfolding wrap64_def by (simp only: mod_mult_self1)
qed

lemma wrap64_differs: "\<exists>k. wrap64 x = x + 2 ^ 64 * k"
proof -
  have "wrap64 x = x + 2 ^ 64 * - ((x + 2 ^ 63) div 2 ^ 64)"
    using mult_div_mod_eq [of "2 ^ 64" "x + 2 ^ 63"] unfolding wrap64_def by linarith
  then show ?thesis by blast
qed

lemma wrap64_step: "wrap64 (wrap64 x + y) = wrap64 (x + y)" "wrap64 (y + wrap64 x) = wrap64 (y + x)" "wrap64 (wrap64 x - y) = wrap64 (x - y)"
proof -
  obtain k where k: "wrap64 x = x + 2 ^ 64 * k" using wrap64_differs by blast
  show "wrap64 (wrap64 x + y) = wrap64 (x + y)" "wrap64 (y + wrap64 x) = wrap64 (y + x)" "wrap64 (wrap64 x - y) = wrap64 (x - y)"
    using wrap64_shift [of "x + y" k] wrap64_shift [of "y + x" k] wrap64_shift [of "x - y" k]
    unfolding k by (simp_all only: add.assoc add.commute add.left_commute diff_conv_add_uminus)
qed

lemma wrap64_0 [simp]: "wrap64 0 = 0"
  by (simp add: wrap64_def)

definition number :: "(metric_event \<Rightarrow> bool) \<Rightarrow> metric_event list \<Rightarrow> int" where
  "number P evs = int (length (filter P evs))"

lemma number_simps [simp]: "number P [] = 0" "number P (evs @ [e]) = (if P e then number P evs + 1 else number P evs)"
  by (simp_all add: number_def)

fun is_operation :: "metric_event \<Rightarrow> bool" where
  "is_operation (SyncOperation now ty n ok) = True"
| "is_operation _ = False"

fun is_failure :: "metric_event \<Rightarrow> bool" where
  "is_failure (SyncOperation now ty n ok) = (\<not> ok)"
| "is_failure _ = False"

fun is_success :: "metric_event \<Rightarrow> bool" where
  "is_success (SyncOperation now ty n ok) = ok"
| "is_success _ = False"

fun is_conflict :: "metric_event \<Rightarrow> bool" where
  "is_conflict (Conflict ty) = True"
| "is_conflict _ = False"

fun is_resolution :: "metric_event \<Rightarrow> bool" where
  "is_resolution ConflictResolution = True"
| "is_resolution _ = False"

fun is_connect :: "metric_event \<Rightarrow> bool" where
  "is_connect (PeerConnect now p) = True"
| "is_connect _ = False"

fun is_disconnect :: "metric_event \<Rightarrow> bool" where
  "is_disconnect (PeerDisconnect p) = True"
| "is_disconnect _ = False"

text \<open>Since when a peer is connected, by its last event.\<close>

fun connected_since :: "string \<Rightarrow> metric_event \<Rightarrow> time option \<Rightarrow> time option" where
  "connected_since p (PeerConnect now q) old = (if q = p then Some now else old)"
| "connected_since p (PeerDisconnect q) old = (if q = p then None else old)"
| "connected_since p _ old = old"

lemma record_all_simps [simp]: "record_all [] m = m" "record_all (evs @ [e]) m = record_event e (record_all evs m)"
  by (simp_all add: record_all_def)

lemma sync_counters:
  "sm_total (mt_sync (record_all evs (NewMetrics t0))) = wrap64 (number is_operation evs)"
  "sm_failed (mt_sync (record_all evs (NewMetrics t0))) = wrap64 (number is_failure evs)"
  "sm_files (mt_sync (record_all evs (NewMetrics t0))) = wrap64 (number is_success evs)"
proof (induction evs rule: rev_induct)
  case (snoc e evs)
  case 1 show ?case using snoc by (cases e) (simp_all add: record_defs Let_def inc_def wrap64_step)
  case 2 show ?case using snoc by (cases e) (simp_all add: record_defs Let_def inc_def wrap64_step)
  case 3 show ?case using snoc by (cases e) (simp_all add: record_defs Let_def inc_def wrap64_step)
qed (simp_all add: NewMetrics_def)

lemma conflict_counters:
  "km_pending (mt_conflicts (record_all evs (NewMetrics t0))) = wrap64 (number is_conflict evs - number is_resolution evs)"
  by (induction evs rule: rev_induct)
     (simp add: NewMetrics_def, rename_tac e evs, case_tac e, simp_all add: record_defs Let_def inc_def dec_def wrap64_step algebra_simps)

lemma peer_counters:
  "pm_connected (mt_peers (record_all evs (NewMetrics t0))) = wrap64 (number is_connect evs - number is_disconnect evs)"
  "map_of (mt_connect_time (record_all evs (NewMetrics t0))) p = fold (connected_since p) evs None"
proof (induction evs rule: rev_induct)
  case (snoc e evs)
  case 1 show ?case using snoc by (cases e) (simp_all add: record_defs Let_def inc_def dec_def wrap64_step algebra_simps)
  case 2 show ?case using snoc by (cases e) (simp_all add: record_defs Let_def)
qed (simp_all add: NewMetrics_def)

text \<open>C40. The books of the collector balance after any events, up to the wrap-around of 64 bits. The operations are the files plus the failures; the conflicts
  pending are those recorded less those resolved; the connected peers are the connects less the disconnects, each counted again when it
  is reported again, while the table of times follows the last report of each peer.
\<close>

theorem metrics_balance:
  "let m = record_all evs (NewMetrics t0)
   in sm_total (mt_sync m) = wrap64 (sm_files (mt_sync m) + sm_failed (mt_sync m)) \<and>
      km_pending (mt_conflicts m) = wrap64 (number is_conflict evs - number is_resolution evs) \<and>
      pm_connected (mt_peers m) = wrap64 (number is_connect evs - number is_disconnect evs) \<and>
      map_of (mt_connect_time m) p = fold (connected_since p) evs None"
proof -
  have "is_operation e \<longleftrightarrow> is_success e \<or> is_failure e" "\<not> (is_success e \<and> is_failure e)" for e by (cases e; simp)+
  then have "number is_operation evs = number is_success evs + number is_failure evs"
    by (induction evs rule: rev_induct) auto
  then show ?thesis by (simp add: Let_def sync_counters wrap64_step conflict_counters peer_counters)
qed

end
