(* ===== verification/FileWriter.thy ===== *)
theory FileWriter
  imports FileSystem
begin

text \<open>
  The writers of \<^verbatim>\<open>internal/filesystem/operations.go\<close>: unlike the engine's own \<open>atomicWriteFile\<close> they create the directory, set the mode and
  flush the file, and they remove the temporary file when a step fails. A \<open>device\<close> says which calls fail and
  how many bytes there is room for. A reader is that of \<open>Chunking\<close>; copying from it may never end, so it is a partial function.
\<close>

section \<open>Directories\<close>

text \<open>\<open>os.MkdirAll\<close> on a clean path. The root and the working directory exist, whether or not they are listed.\<close>

function MkdirAll :: "string \<Rightarrow> fs \<Rightarrow> fs \<times> fs_error option" where
  "MkdirAll path s =
     (if path \<in> set (fs_dirs s) then (s, None)
      else if map_of (fs_files s) path \<noteq> None then (s, Some NotDirectory)
      else if path \<noteq> ''.'' \<and> (Dir path = ''.'' \<or> length (Dir path) < length path) then
        (case MkdirAll (Dir path) s of
           (s1, None) \<Rightarrow> (s1\<lparr>fs_dirs := fs_dirs s1 @ [path]\<rparr>, None)
         | (s1, Some e) \<Rightarrow> (s1, Some e))
      else (s\<lparr>fs_dirs := fs_dirs s @ [path]\<rparr>, None))"
  by pat_completeness auto

termination
  by (relation "measure (\<lambda>(path, s). if path = ''.'' then 0 else Suc (length path))") auto

declare MkdirAll.simps [simp del]

definition EnsureDirectory :: "string \<Rightarrow> fs \<Rightarrow> fs \<times> fs_error option" where
  "EnsureDirectory dirPath s = MkdirAll dirPath s"

definition RemoveDirectory :: "string \<Rightarrow> fs \<Rightarrow> fs \<times> fs_error option" where
  "RemoveDirectory dirPath s = RemoveFile dirPath s"

text \<open>\<open>os.RemoveAll\<close>: a path that ends with a dot is refused, and a missing one is no error.\<close>

definition RemoveDirectoryRecursive :: "string \<Rightarrow> fs \<Rightarrow> fs option" where
  "RemoveDirectoryRecursive dirPath s =
     (if dirPath = ''.'' \<or> drop (length dirPath - 2) dirPath = ''/.'' then None
      else if dirPath = [] then Some s
      else Some (s\<lparr>fs_files := filter (\<lambda>(p, n). p \<noteq> dirPath \<and> \<not> below dirPath p) (fs_files s),
                   fs_dirs := filter (\<lambda>p. p \<noteq> dirPath \<and> \<not> below dirPath p) (fs_dirs s)\<rparr>))"

section \<open>Writers\<close>

datatype syscall = CreateCall | ChmodCall | SyncCall | CloseCall | RenameCall

datatype write_error = DirectoryFailed fs_error | CallFailed syscall | WriteFailed | CopyFailed string

record device =
  dv_fails :: "syscall \<Rightarrow> bool"
  dv_room :: "nat option"

definition fits :: "device \<Rightarrow> bytes \<Rightarrow> bool" where
  "fits dv data = (case dv_room dv of None \<Rightarrow> True | Some n \<Rightarrow> length data \<le> n)"

text \<open>What is on the device after an attempt to write the bytes.\<close>

definition stored :: "device \<Rightarrow> bytes \<Rightarrow> bytes" where
  "stored dv data = (case dv_room dv of None \<Rightarrow> data | Some n \<Rightarrow> take n data)"

definition chmod_temp :: "string \<Rightarrow> int \<Rightarrow> fs \<Rightarrow> fs" where
  "chmod_temp tmp mode s =
     (case map_of (fs_files s) tmp of
        None \<Rightarrow> s
      | Some n \<Rightarrow> s\<lparr>fs_files := gm_put tmp (n\<lparr>fn_mode := mode\<rparr>) (fs_files s)\<rparr>)"

text \<open>The deferred call, which runs on every error after the temporary file was created.\<close>

definition give_up :: "string \<Rightarrow> write_error \<Rightarrow> fs \<Rightarrow> fs \<times> write_error option" where
  "give_up tmp e s = (fst (RemoveFile tmp s), Some e)"

definition begin_write :: "string \<Rightarrow> string \<Rightarrow> device \<Rightarrow> time \<Rightarrow> fs \<Rightarrow> fs \<times> write_error option" where
  "begin_write tmp filePath dv now s =
     (case MkdirAll (Dir filePath) s of
        (s1, Some e) \<Rightarrow> (s1, Some (DirectoryFailed e))
      | (s1, None) \<Rightarrow> if dv_fails dv CreateCall then (s1, Some (CallFailed CreateCall)) else (create_temp tmp now s1, None))"

definition finish_write :: "string \<Rightarrow> string \<Rightarrow> int \<Rightarrow> device \<Rightarrow> fs \<Rightarrow> fs \<times> write_error option" where
  "finish_write tmp filePath mode dv s =
     (if dv_fails dv ChmodCall then give_up tmp (CallFailed ChmodCall) s
      else
        (let s1 = chmod_temp tmp mode s
         in if dv_fails dv SyncCall then give_up tmp (CallFailed SyncCall) s1
            else if dv_fails dv CloseCall then give_up tmp (CallFailed CloseCall) s1
            else if dv_fails dv RenameCall then give_up tmp (CallFailed RenameCall) s1
            else
              (case RenameFile tmp filePath s1 of
                 (s2, None) \<Rightarrow> (s2, None)
               | (s2, Some _) \<Rightarrow> give_up tmp (CallFailed RenameCall) s2)))"

definition AtomicWriteFile :: "string \<Rightarrow> string \<Rightarrow> bytes \<Rightarrow> int \<Rightarrow> device \<Rightarrow> time \<Rightarrow> fs \<Rightarrow> fs \<times> write_error option" where
  "AtomicWriteFile tmp filePath data mode dv now s =
     (case begin_write tmp filePath dv now s of
        (s1, Some e) \<Rightarrow> (s1, Some e)
      | (s1, None) \<Rightarrow>
          if fits dv data then finish_write tmp filePath mode dv (write_temp tmp data s1)
          else give_up tmp WriteFailed (write_temp tmp (stored dv data) s1))"

text \<open>\<open>io.Copy\<close> with its buffer of 32 KB: the bytes on the device and the error.\<close>

partial_function (option) copy_loop :: "'r io_reader \<Rightarrow> device \<Rightarrow> 'r \<Rightarrow> bytes \<Rightarrow> (bytes \<times> write_error option) option" where
  "copy_loop rd dv r written =
     (case rd r 32768 of
        (chunkData, err, r') \<Rightarrow>
          if \<not> fits dv (written @ chunkData) then Some (stored dv (written @ chunkData), Some WriteFailed)
          else
            (case err of
               NoError \<Rightarrow> copy_loop rd dv r' (written @ chunkData)
             | EOF \<Rightarrow> Some (written @ chunkData, None)
             | ReadFailed e \<Rightarrow> Some (written @ chunkData, Some (CopyFailed e))))"

definition AtomicWriteFileFromReader ::
  "'r io_reader \<Rightarrow> string \<Rightarrow> string \<Rightarrow> 'r \<Rightarrow> int \<Rightarrow> device \<Rightarrow> time \<Rightarrow> fs \<Rightarrow> (fs \<times> write_error option) option" where
  "AtomicWriteFileFromReader rd tmp filePath r mode dv now s =
     (case begin_write tmp filePath dv now s of
        (s1, Some e) \<Rightarrow> Some (s1, Some e)
      | (s1, None) \<Rightarrow>
          (case copy_loop rd dv r [] of
             None \<Rightarrow> None
           | Some (written, None) \<Rightarrow> Some (finish_write tmp filePath mode dv (write_temp tmp written s1))
           | Some (written, Some e) \<Rightarrow> Some (give_up tmp e (write_temp tmp written s1))))"

section \<open>Lemmas\<close>

lemma MkdirAll_files: "fs_files (fst (MkdirAll p s)) = fs_files s \<and> fs_xattr (fst (MkdirAll p s)) = fs_xattr s"
  by (induction p s rule: MkdirAll.induct) (subst (1 2) MkdirAll.simps, auto split: prod.splits option.splits)

lemma MkdirAll_dirs: "set (fs_dirs s) \<subseteq> set (fs_dirs (fst (MkdirAll p s)))"
  by (induction p s rule: MkdirAll.induct) (subst MkdirAll.simps, auto split: prod.splits option.splits)

lemma MkdirAll_made: "MkdirAll p s = (s', None) \<Longrightarrow> p \<in> set (fs_dirs s')"
  by (subst (asm) MkdirAll.simps) (auto split: if_splits prod.splits option.splits)

lemma MkdirAll_failed: "MkdirAll p s = (s', Some e) \<Longrightarrow> s' = s \<and> e = NotDirectory"
proof (induction p s arbitrary: s' e rule: MkdirAll.induct)
  case (1 path s)
  from "1.prems" show ?case
    by (subst (asm) MkdirAll.simps) (auto split: if_splits prod.splits option.splits dest!: "1.IH")
qed

text \<open>When a name is below a file, nothing is created.\<close>

lemma MkdirAll_existing [simp]: "p \<in> set (fs_dirs s) \<Longrightarrow> MkdirAll p s = (s, None)"
  by (subst MkdirAll.simps) simp

lemma gm_put_put [simp]: "gm_put k v (gm_put k w m) = gm_put k v m"
  by (simp add: gm_put_def)

lemma temp_written: "write_temp tmp data (create_temp tmp now s) =
    s\<lparr>fs_files := gm_put tmp \<lparr>fn_data = data, fn_mtime = now, fn_mode = 384, fn_file_id = None\<rparr> (fs_files s)\<rparr>"
  by (simp add: create_write)

lemma chmod_written: "chmod_temp tmp mode (write_temp tmp data (create_temp tmp now s)) =
    s\<lparr>fs_files := gm_put tmp \<lparr>fn_data = data, fn_mtime = now, fn_mode = mode, fn_file_id = None\<rparr> (fs_files s)\<rparr>"
  by (simp add: temp_written chmod_temp_def)

lemma give_up_clean:
  "map_of (fs_files (fst (give_up tmp e (s\<lparr>fs_files := gm_put tmp n (fs_files s)\<rparr>)))) q =
     (if q = tmp then None else map_of (fs_files s) q)"
  "snd (give_up tmp e s) = Some e"
  by (simp_all add: give_up_def RemoveFile_def)

text \<open>The device carries out the calls on the temporary file.\<close>

definition working :: "device \<Rightarrow> bool" where
  "working dv \<longleftrightarrow> \<not> dv_fails dv ChmodCall \<and> \<not> dv_fails dv SyncCall \<and> \<not> dv_fails dv CloseCall \<and> \<not> dv_fails dv RenameCall"

lemma finish_write_ok:
  assumes "working dv" "Dir p \<in> set (fs_dirs s)" "p \<notin> set (fs_dirs s)"
  shows "finish_write tmp p mode dv (write_temp tmp data (create_temp tmp now s)) =
    (s\<lparr>fs_files := gm_put p \<lparr>fn_data = data, fn_mtime = now, fn_mode = mode, fn_file_id = None\<rparr>
        (gm_del tmp (gm_put tmp \<lparr>fn_data = data, fn_mtime = now, fn_mode = mode, fn_file_id = None\<rparr> (fs_files s)))\<rparr>, None)"
  using assms by (simp add: finish_write_def working_def Let_def chmod_written RenameFile_def)

lemma finish_write_fails:
  assumes "\<not> (working dv \<and> Dir p \<in> set (fs_dirs s) \<and> p \<notin> set (fs_dirs s))"
  shows "\<exists>n e. finish_write tmp p mode dv (write_temp tmp data (create_temp tmp now s)) =
    give_up tmp e (s\<lparr>fs_files := gm_put tmp n (fs_files s)\<rparr>)"
proof -
  let ?n = "\<lambda>m. \<lparr>fn_data = data, fn_mtime = now, fn_mode = m, fn_file_id = None\<rparr>"
  have ren: "RenameFile tmp p (s\<lparr>fs_files := gm_put tmp (?n mode) (fs_files s)\<rparr>) =
      (s\<lparr>fs_files := gm_put tmp (?n mode) (fs_files s)\<rparr>, Some (if Dir p \<notin> set (fs_dirs s) then NotExist else IsDirectory))"
    if "working dv" using assms that by (auto simp: RenameFile_def)
  show ?thesis
  proof (cases "dv_fails dv ChmodCall")
    case True
    then show ?thesis unfolding finish_write_def temp_written by auto
  next
    case False
    show ?thesis
    proof (cases "working dv")
      case True
      then show ?thesis using ren [OF True]
        unfolding finish_write_def working_def Let_def chmod_written by auto
    next
      case bad: False
      with False show ?thesis unfolding finish_write_def working_def Let_def chmod_written by auto
    qed
  qed
qed

text \<open>How a write ends: with the new file and nothing else changed, or with all files as they were.\<close>

lemma begin_write_ok:
  "begin_write tmp p dv now s = (s1, None) \<Longrightarrow>
     \<exists>s0. MkdirAll (Dir p) s = (s0, None) \<and> fs_files s0 = fs_files s \<and> Dir p \<in> set (fs_dirs s0) \<and> s1 = create_temp tmp now s0 \<and>
       \<not> dv_fails dv CreateCall"
  using MkdirAll_files [of "Dir p" s] MkdirAll_made [of "Dir p" s]
  by (auto simp: begin_write_def split: prod.splits option.splits if_splits)

lemma begin_write_fails: "begin_write tmp p dv now s = (s1, Some e) \<Longrightarrow> fs_files s1 = fs_files s"
  using MkdirAll_files [of "Dir p" s]
  by (auto simp: begin_write_def split: prod.splits option.splits if_splits)


definition root_fs :: fs where "root_fs = \<lparr>fs_files = [(''/f/a'', \<lparr>fn_data = ''old'', fn_mtime = 1, fn_mode = 420, fn_file_id = None\<rparr>)],
  fs_dirs = [''/'', ''/f''], fs_xattr = True\<rparr>"


lemma copy_slice:
  "fits dv written \<Longrightarrow> copy_loop slice_reader dv data written =
     Some (if fits dv (written @ data) then (written @ data, None) else (stored dv (written @ data), Some WriteFailed))"
proof (induction data arbitrary: written rule: length_induct)
  case (1 data)
  show ?case
  proof (cases "data = []")
    case True
    with "1.prems" show ?thesis by (subst copy_loop.simps) (simp add: slice_reader_def)
  next
    case False
    let ?c = "take 32768 data"
    have "length (drop 32768 data) < length data" using False by simp
    moreover have "stored dv (written @ ?c) = stored dv (written @ data)" "\<not> fits dv (written @ data)" if "\<not> fits dv (written @ ?c)"
      using that by (auto simp: fits_def stored_def split: option.splits)
    moreover have "slice_reader data 32768 = (?c, NoError, drop 32768 data)" using False by (simp add: slice_reader_def)
    ultimately show ?thesis using 1
      by (subst copy_loop.simps) auto
  qed
qed


text \<open>The write of the engine is that of the library with mode 0600, into a directory that exists: the two leave the same
  file system and fail together. So a file that arrives loses its mode, and one in a new directory is not written at all, where the
  library's writer would keep the one and create the other.
\<close>

theorem engine_write_is_library_write:
  "Dir p \<in> set (fs_dirs s) \<Longrightarrow>
     fst (atomicWriteFile tmp p data now s) = fst (AtomicWriteFile tmp p data 384 \<lparr>dv_fails = (\<lambda>c. False), dv_room = None\<rparr> now s) \<and>
     (snd (atomicWriteFile tmp p data now s) = None \<longleftrightarrow>
      snd (AtomicWriteFile tmp p data 384 \<lparr>dv_fails = (\<lambda>c. False), dv_room = None\<rparr> now s) = None)"
  by (auto simp: AtomicWriteFile_def begin_write_def atomicWriteFile_def finish_write_def fits_def Let_def temp_written chmod_temp_def
      RenameFile_def give_up_def)

lemma engine_write_is_library_write_witness:
  "fst (atomicWriteFile ''/f/t'' ''/f/a'' ''new'' 5 root_fs) =
     fst (AtomicWriteFile ''/f/t'' ''/f/a'' ''new'' 384 \<lparr>dv_fails = (\<lambda>c. False), dv_room = None\<rparr> 5 root_fs)"
proof -
  have "Dir ''/f/a'' \<in> set (fs_dirs root_fs)" by (simp add: root_fs_def) code_simp
  then show ?thesis by (rule engine_write_is_library_write [THEN conjunct1])
qed

text \<open>Removing a directory with all that is below it leaves the rest.\<close>

lemma remove_all_exact:
  assumes "RemoveDirectoryRecursive d s = Some s'" "d \<noteq> []"
  shows "map_of (fs_files s') p = (if p = d \<or> below d p then None else map_of (fs_files s) p)"
proof -
  have "map_of (filter (\<lambda>(q, n). q \<noteq> d \<and> \<not> below d q) fs) p = (if p = d \<or> below d p then None else map_of fs p)" for fs :: "(string \<times> fnode) list"
    by (induction fs) auto
  then show ?thesis using assms by (auto simp: RemoveDirectoryRecursive_def split: if_splits)
qed

end
