(* ===== verification/NetworkProperties.thy ===== *)
theory NetworkProperties
  imports FileTransfer
begin

text \<open>
  Properties of the messenger and the handler beyond the delivery of a file: what may change the engine, when
  a message crashes the program, how often a message is sent, and the cases in which a file or an
  operation is lost although the sender sees a success.
\<close>

section \<open>Only encrypted operations are applied\<close>

lemma DecodeMessage_generic: "DecodeMessage J bs = Some m \<Longrightarrow> \<exists>j. ms_payload m = Generic j"
  by (auto simp: DecodeMessage_def dec_message_def bind_eq_Some_conv split: if_splits)

lemma request_engine [simp]: "nd_engine (fst (requestMissingFiles ev now p ms nd)) = nd_engine nd"
  by (auto simp: requestMissingFiles_def transport_send_def Let_def split: sum.split)

lemma generic_keeps_engine: "ms_payload m = Generic j \<Longrightarrow> nd_engine (fst (RouteMessage ev t m nd)) = nd_engine nd"
  by (auto simp: RouteMessage_def handleStateDeclaration_def handleSyncOperation_def handleChunk_def handleHeartbeat_def
      handleFileRequest_def handleChunkRequest_def Let_def split: option.split)

lemma dispatch_generic: "ms_payload m = Generic j \<Longrightarrow> nd_engine (nm_node (fst (dispatch ev t m nm))) = nd_engine (nm_node nm)"
  using generic_keeps_engine [of m j ev t "nm_node nm"]
  by (auto simp: dispatch_def handleAcknowledgment_def Let_def split: option.split prod.split)

text \<open>C30. Nothing that arrives in plain text reaches the engine. When handling a message that was read from the
  wire changes the engine, the sender is a known peer with a session key, and the payload decrypted under it.
\<close>

theorem plaintext_never_applied:
  assumes "DecodeMessage J bs = Some m" "ReceiveMessage ev t m nm = (nm', r)"
    and "nd_engine (nm_node nm') \<noteq> nd_engine (nm_node nm)"
  shows "\<exists>conn e d. GetConnection (ms_sender m) (nd_conns (nm_node nm)) = Inr conn \<and> cn_session_key conn \<noteq> [] \<and>
    encrypted_payload (ms_payload m) = Some e \<and> Decrypt (ev_crypto ev) e (cn_session_key conn) = Inr d"
proof -
  obtain j where j: "ms_payload m = Generic j" using DecodeMessage_generic [OF assms(1)] by blast
  obtain conn where c: "GetConnection (ms_sender m) (nd_conns (nm_node nm)) = Inr conn"
    using assms(2,3) by (cases "GetConnection (ms_sender m) (nd_conns (nm_node nm))") (auto simp: ReceiveMessage_def)
  obtain e where e: "encrypted_payload (ms_payload m) = Some e"
    using assms(2,3) c dispatch_generic [OF j, of ev t nm]
    by (cases "encrypted_payload (ms_payload m)") (auto simp: ReceiveMessage_def)
  show ?thesis using assms(2,3) c e
    by (auto simp: ReceiveMessage_def split: if_splits sum.splits)
qed

section \<open>Crashes\<close>

lemma request_no_panic [simp]: "nd_managed nd \<Longrightarrow> nd_transport nd \<Longrightarrow> snd (requestMissingFiles ev now p ms nd) \<noteq> Panicked"
  by (auto simp: requestMissingFiles_def transport_send_def Let_def split: sum.split)


lemma example_key: "cn_session_key (example_peer p) = replicate 32 (CHR ''k'')"
  by simp

definition example_update :: "bytes \<Rightarrow> message" where
  "example_update d = operation_message d example_op (example_step ''A'')"

lemma example_carries:
  "\<exists>m. on_wire plain_text (sealed example_env (replicate 32 (CHR ''k'')) (example_step ''A'') (example_update d)) = Some m \<and>
     ms_sender m = ''A'' \<and> carries example_env (example_peer ''A'') m (example_update d)"
proof -
  let ?key = "replicate 32 (CHR ''k'')" and ?st = "example_step ''A''"
  have j: "ev_json example_env = plain_text" by (simp add: example_env_def)
  have p: "so_peer_id example_op = ''A''" by (simp add: example_op_def NewSyncOperation_def)
  have st: "length (st_iv ?st) = 12" "in_int64 (unix_milli (st_now ?st))" by (simp_all add: example_step_def unix_milli_def in_int64_def)
  have "message_ok (example_update d)"
    unfolding example_update_def operation_message_def by (rule message_ok_NewMessage) (simp_all add: st p)
  then obtain m where m: "on_wire plain_text (sealed example_env ?key ?st (example_update d)) = Some m"
    using sealed_on_wire [OF example_laws(2), of "example_update d" ?key ?st] unfolding j by auto
  then show ?thesis
    using operation_carries [OF example_laws(1,2) _ st example_op_on_wire example_key, of d m] p j by (simp add: example_update_def)
qed

theorem plaintext_never_applied_witness:
  "\<exists>m e d. DecodeMessage plain_text (EncodeMessage plain_text
      (sealed example_env (replicate 32 (CHR ''k'')) (example_step ''A'') (example_update ''x''))) = Some m \<and>
    encrypted_payload (ms_payload m) = Some e \<and> Decrypt toy e (replicate 32 (CHR ''k'')) = Inr d"
proof -
  obtain m where m: "on_wire plain_text (sealed example_env (replicate 32 (CHR ''k'')) (example_step ''A'') (example_update ''x'')) = Some m"
    "ms_sender m = ''A''" "carries example_env (example_peer ''A'') m (example_update ''x'')"
    using example_carries by blast
  let ?nm = "example_messenger 1 ''B'' ''A''"
  have u: "ms_type (example_update ''x'') = ''sync_operation''" "ms_payload (example_update ''x'') = LogEntry (operation_payload ''x'' example_op)"
    by (simp_all add: example_update_def operation_message_def NewMessage_def)
  have o: "so_type (relayed (so_size example_op) example_op) = OpCreate \<or> so_type (relayed (so_size example_op) example_op) = OpUpdate"
    "pl_data (operation_payload ''x'' example_op) = ''x''"
    "maybe_decompress example_env ''x'' (relayed (so_size example_op) example_op) = Inr ''x''"
    by (simp_all add: example_op_def NewSyncOperation_def operation_payload_def maybe_decompress_def zero_op_def)
  obtain e0 where e0: "nd_engine (nm_node ?nm) = Some e0"
    by (simp add: example_node_def Let_def SetTransport_def SetConnectionManager_def NewNetworkMessageHandler_def)
  have h: "handled example_env 5 (example_update ''x'') (nm_node ?nm)
      ((nm_node ?nm)\<lparr>nd_engine := Some (HandleIncomingFile 5 ''x'' (relayed (so_size example_op) example_op) e0)\<rparr>)"
    by (rule handled_contents [OF u incoming_op_payload o(1) _ _ e0]) (simp_all add: o)
  then obtain out where "fst (RouteMessage example_env 5 (example_update ''x'') (nm_node ?nm)) =
      (nm_node ?nm)\<lparr>nd_engine := Some (HandleIncomingFile 5 ''x'' (relayed (so_size example_op) example_op) e0), nd_out := out\<rparr>"
    by (auto simp: handled_def)
  then have "nd_engine (nm_node (fst (ReceiveMessage example_env 5 m ?nm))) =
      Some (HandleIncomingFile 5 ''x'' (relayed (so_size example_op) example_op) e0)"
    using m(2,3) u by (simp add: carries_def dispatch_def split_beta)
  moreover have "HandleIncomingFile 5 ''x'' op e0 \<noteq> e0" for op
  proof
    assume "HandleIncomingFile 5 ''x'' op e0 = e0"
    then have "en_pending (HandleIncomingFile 5 ''x'' op e0) = en_pending e0" by simp
    then show False by (simp add: HandleIncomingFile_def Let_def addRecentWrite_def split: if_splits)
  qed
  ultimately have ne: "nd_engine (nm_node (fst (ReceiveMessage example_env 5 m ?nm))) \<noteq> nd_engine (nm_node ?nm)" using e0 by simp
  have d: "DecodeMessage plain_text (EncodeMessage plain_text
      (sealed example_env (replicate 32 (CHR ''k'')) (example_step ''A'') (example_update ''x''))) = Some m"
    using m(1) by (simp add: on_wire_def)
  obtain conn e d where "GetConnection ''A'' (nd_conns (nm_node ?nm)) = Inr conn" "encrypted_payload (ms_payload m) = Some e"
    "Decrypt (ev_crypto example_env) e (cn_session_key conn) = Inr d"
    using plaintext_never_applied [OF d surjective_pairing [of "ReceiveMessage example_env 5 m ?nm"] ne] m(2) by auto
  then show ?thesis using d by (auto simp: example_env_def)
qed


section \<open>A chunk that arrives twice\<close>

lemma contiguous_offsets:
  "contiguous off cks \<Longrightarrow> \<forall>ck \<in> set cks. 0 < ck_length ck \<Longrightarrow>
   distinct (map ck_offset cks) \<and> (\<forall>ck \<in> set cks. off \<le> ck_offset ck)"
proof (induction cks arbitrary: off)
  case (Cons ck cks)
  then have "distinct (map ck_offset cks)" "\<forall>c \<in> set cks. off + ck_length ck \<le> ck_offset c"
    using Cons.IH [of "off + ck_length ck"] by auto
  then show ?case using Cons.prems by fastforce
qed simp

lemma chunk_nonempty:
  assumes "0 < k" "1 < chunk_count k (length z)" "ck \<in> set (file_chunks H f k z)"
  shows "0 < ck_length ck"
proof -
  obtain i where i: "i < chunk_count k (length z)" "ck = file_chunk H f k z i" using assms(3) by (auto simp: file_chunks_def)
  have "1 * k < length z" by (rule chunk_count_tight [OF assms(1) _ assms(2)]) simp
  then have "i * k < length z" using chunk_count_tight [OF assms(1) _ i(1)] by (cases "i = 0") auto
  then show ?thesis using assms(1) by (simp add: i(2))
qed

lemma duplicate_not_assembled:
  assumes "0 < k" "in_int64 (int (length (all_data cks)))" "set cks \<subseteq> set (file_chunks H f k z)" "\<not> distinct cks"
    and "1 < chunk_count k (length z)"
  shows "\<exists>i j. AssembleChunks H cks h = Inl (OffsetMismatch i j)"
proof (rule AssembleChunks_wf(2))
  show "cks \<noteq> []" using assms(4) by auto
  show "list_all ck_wf cks" using assms(3) file_chunks_wf [of H f k z] by (auto simp: list_all_iff)
  show "in_int64 (int (length (all_data cks)))" by (rule assms(2))
  show "\<not> contiguous 0 (sort_key ck_id cks)"
  proof
    assume "contiguous 0 (sort_key ck_id cks)"
    then have "distinct (map ck_offset (sort_key ck_id cks))"
      using contiguous_offsets chunk_nonempty [OF assms(1,5)] assms(3) by (metis set_sort subsetD)
    then have "distinct (sort_key ck_id cks)" by (rule distinct_map [THEN iffD1, THEN conjunct1])
    then show False using assms(4) by simp
  qed
qed

lemma all_data_bound:
  assumes "0 < k" "set cks \<subseteq> set (file_chunks H f k z)" "length cks \<le> chunk_count k (length z)"
  shows "length (all_data cks) \<le> length z + k"
proof -
  have "length (all_data cks) \<le> length cks * k"
    using assms(2) by (induction cks) (auto simp: file_chunks_def)
  also have "\<dots> \<le> chunk_count k (length z) * k" using assms(3) by (rule mult_le_mono1)
  also have "\<dots> \<le> length z + k"
  proof -
    have "(length z + k - 1) div k * k \<le> length z + k" using div_times_less_eq_dividend [of "length z + k - 1" k] by linarith
    then show ?thesis by (simp add: chunk_count_def max_def)
  qed
  finally show ?thesis .
qed

text \<open>A chunk that arrives twice loses the file. The receiver counts what it stored, duplicates included, and
  tries to assemble only when the count equals the total: when one of the first arrivals up to that
  number is a repetition, the assembly fails, and whatever chunks arrive later, the engine never gets the file.
\<close>

theorem duplicate_chunk_loses_file:
  assumes "holds conn peer f (Some op) [] e rm" "0 < k" "in_int64 (int (length z) + int k)"
    and "list_all (\<lambda>(t, m, ck). carries_chunk ev conn peer (HashString (ev_hash ev) z) m ck \<and>
        ck \<in> set (file_chunks (ev_hash ev) f k z)) L"
    and "\<not> distinct (take (chunk_count k (length z)) (map (\<lambda>(t, m, ck). ck) L))"
  shows "\<exists>rm'. receive_messages ev (map (\<lambda>(t, m, ck). (t, m)) L) rm = (rm', True) \<and> nd_engine (nm_node rm') = Some e"
proof -
  let ?n = "chunk_count k (length z)" and ?ck = "\<lambda>(t :: time, m :: message, ck :: chunk). ck"
  let ?h = "HashString (ev_hash ev) z" and ?tm = "\<lambda>(t :: time, m :: message, ck :: chunk). (t, m)"
  let ?clear = "\<lambda>(t :: time, m :: message, ck :: chunk). ck\<lparr>ck_file_hash := []\<rparr>"
  have all: "\<forall>(t, m, ck) \<in> set L. carries_chunk ev conn peer ?h m ck \<and> ck_file_id ck = f \<and> ck_total ck = int ?n"
    using assms(4) by (fastforce simp: list_all_iff file_chunks_def)
  have inL: "ck \<in> set (file_chunks (ev_hash ev) f k z)" if "(t, m, ck) \<in> set L" for t m ck
    using assms(4) that by (auto simp: list_all_iff)
  show ?thesis
  proof (cases "length L < ?n")
    case True
    then show ?thesis using receive_chunks [OF assms(1) all, of "[]"] by (auto simp: holds_def)
  next
    case False
    define A where "A = take (?n - 1) L"
    obtain t m ck where x: "L ! (?n - 1) = (t, m, ck)" by (cases "L ! (?n - 1)")
    define B where "B = drop ?n L"
    have n: "?n = Suc (?n - 1)" "?n - 1 < length L" using chunk_count_pos [of k "length z"] False by linarith+
    have L: "L = A @ (t, m, ck) # B" unfolding A_def B_def using id_take_nth_drop [OF n(2)] x n(1) by simp
    have A: "length A = ?n - 1" unfolding A_def using n(2) by simp
    have allA: "\<forall>(t, m, ck) \<in> set A. carries_chunk ev conn peer ?h m ck \<and> ck_file_id ck = f \<and> ck_total ck = int ?n"
      and allB: "\<forall>(t, m, ck) \<in> set B. carries_chunk ev conn peer ?h m ck \<and> ck_file_id ck = f \<and> ck_total ck = int ?n"
      and ck: "carries_chunk ev conn peer ?h m ck" "ck_file_id ck = f" "ck_total ck = int ?n"
      using all unfolding L by auto
    have map_eq: "map ?clear A = map ?ck A" "ck\<lparr>ck_file_hash := []\<rparr> = ck"
      using inL unfolding L by (auto intro!: map_cong file_chunks_hash)
    obtain rm1 where r1: "receive_messages ev (map ?tm A @ (t, m) # map ?tm B) rm = receive_messages ev ((t, m) # map ?tm B) rm1"
      and h1: "holds conn peer f (Some op) ([] @ map ?clear A) e rm1"
      using receive_chunks [OF assms(1) allA, of "(t, m) # map ?tm B"] A n(1) by auto
    let ?cks = "map ?ck A @ [ck]"
    have sub: "set ?cks \<subseteq> set (file_chunks (ev_hash ev) f k z)" using inL unfolding L by auto
    have "?n = length ?cks" using A n(1) by simp
    then have "take ?n (map ?ck L) = ?cks" unfolding L by simp
    then have dup: "\<not> distinct ?cks" using assms(5) by simp
    then have "A \<noteq> []" by auto
    then have "1 < ?n" using A n(1) by (simp flip: length_greater_0_conv)
    moreover have "in_int64 (int (length (all_data ?cks)))"
      using all_data_bound [OF assms(2) sub] A n(1) assms(3) by (simp add: in_int64_def)
    ultimately obtain i j where "AssembleChunks (ev_hash ev) ?cks ?h = Inl (OffsetMismatch i j)"
      using duplicate_not_assembled [OF assms(2) _ sub dup] by blast
    then have bad: "AssembleChunks (ev_hash ev) (([] @ map ?clear A) @ [ck\<lparr>ck_file_hash := []\<rparr>]) ?h = Inl (OffsetMismatch i j)"
      by (simp add: map_eq)
    have full: "int (Suc (length ([] @ map ?clear A))) = ck_total ck" using A n(1) ck(3) by simp
    obtain rm2 where r2: "receive_messages ev ((t, m) # map ?tm B) rm1 = receive_messages ev (map ?tm B) rm2"
      and h2: "holds conn peer f (Some op) (([] @ map ?clear A) @ [ck\<lparr>ck_file_hash := []\<rparr>]) e rm2"
      using receive_bad_chunk [OF h1 ck(1,2) full bad] by blast
    obtain rm3 where r3: "receive_messages ev (map ?tm B @ []) rm2 = receive_messages ev [] rm3"
      and h3: "holds conn peer f (Some op) ((([] @ map ?clear A) @ [ck\<lparr>ck_file_hash := []\<rparr>]) @ map ?clear B) e rm3"
      using receive_chunks [OF h2 allB, of "[]"] A n(1) by auto
    show ?thesis using r1 r2 r3 h3 by (auto simp: L holds_def)
  qed
qed

definition example_chunk :: chunk where
  "example_chunk = file_chunk id_hash ''f'' 1 ''abc'' 0"

definition example_expecting :: messenger where
  "example_expecting = (example_messenger 1 ''B'' ''A'')\<lparr>nm_node := expect_chunks (relayed 3 example_op) (example_node ''B'' ''A'')\<rparr>"

theorem duplicate_chunk_loses_file_witness:
  "\<exists>m rm'. on_wire plain_text (sealed example_env (replicate 32 (CHR ''k'')) (example_step ''A'')
      (chunk_msg (HashString id_hash ''abc'') example_op (example_step ''A'') example_chunk)) = Some m \<and>
    receive_messages example_env [(5, m), (6, m), (7, m)] example_expecting = (rm', True) \<and>
    nd_engine (nm_node rm') = nd_engine (example_node ''B'' ''A'')"
proof -
  let ?key = "replicate 32 (CHR ''k'')" and ?st = "example_step ''A''" and ?h = "HashString id_hash ''abc''"
  have j: "ev_json example_env = plain_text" "ev_hash example_env = id_hash" by (simp_all add: example_env_def)
  have p: "so_peer_id example_op = ''A''" "so_file_id example_op = ''f''" by (simp_all add: example_op_def NewSyncOperation_def)
  have st: "length (st_iv ?st) = 12" "in_int64 (unix_milli (st_now ?st))" by (simp_all add: example_step_def unix_milli_def in_int64_def)
  have "message_ok (chunk_msg ?h example_op ?st example_chunk)"
    unfolding chunk_msg_def by (rule message_ok_NewMessage) (simp_all add: st p)
  then obtain m where m: "on_wire plain_text (sealed example_env ?key ?st (chunk_msg ?h example_op ?st example_chunk)) = Some m"
    using sealed_on_wire [OF example_laws(2), of "chunk_msg ?h example_op ?st example_chunk" ?key ?st] unfolding j by auto
  have n: "chunk_count 1 (length ''abc'') = 3" by (simp add: chunk_count_def)
  have ck: "example_chunk \<in> set (file_chunks (ev_hash example_env) ''f'' 1 ''abc'')"
    unfolding file_chunks_def example_chunk_def j n by simp
  have c: "carries_chunk example_env (example_peer ''A'') ''A'' ?h m example_chunk"
    using chunk_carries [OF example_laws(1,2) _ st example_op_on_wire example_key, of id_hash "''abc''" example_chunk m]
      file_chunk_in_range [OF _ _ ck] m p j by (simp add: in_int64_def)
  obtain e where e: "nd_engine (example_node ''B'' ''A'') = Some e"
    by (simp add: example_node_def Let_def SetTransport_def SetConnectionManager_def NewNetworkMessageHandler_def)
  have h: "holds (example_peer ''A'') ''A'' ''f'' (Some (relayed 3 example_op)) [] e example_expecting"
    using e p by (simp add: example_expecting_def holds_def expect_chunks_def store_laws)
  have "\<exists>rm'. receive_messages example_env (map (\<lambda>(t, m, ck). (t, m)) [(5, m, example_chunk), (6, m, example_chunk), (7, m, example_chunk)])
      example_expecting = (rm', True) \<and> nd_engine (nm_node rm') = Some e"
    by (rule duplicate_chunk_loses_file [OF h, of 1 "''abc''"]) (use c ck n j in \<open>simp_all add: in_int64_def\<close>)
  then show ?thesis using m e by auto
qed

section \<open>Answers that are not understood\<close>

lemma ack_sent:
  assumes "sendAcknowledgment ev now msg err nd = (nd', Done)" "nd_transport nd" "nd_managed nd"
  shows "nd' = nd\<lparr>nd_out := nd_out nd @ [(ms_sender msg, WithCorrelationID (ms_id msg)
     (NewMessage now (fst (ack_payload ev msg err)) (nd_peer nd) (snd (ack_payload ev msg err))))]\<rparr>"
  using assms by (auto simp: sendAcknowledgment_def transport_send_def Let_def split: sum.splits prod.splits if_splits)

lemma ack_payload_type: "fst (ack_payload ev msg err) = (if ms_type msg = ''chunk'' then ''chunk_ack'' else ''operation_ack'')"
  by (simp add: ack_payload_def Let_def)

lemma ack_payload_ascii:
  assumes "\<And>f. err = Some f \<Longrightarrow> ascii (ev_describe ev f)"
  shows "json_ascii (enc_payload (snd (ack_payload ev msg err)))"
  using assms by (cases err) (simp_all add: ack_payload_def Let_def omit_empty_def)

lemma ack_not_encrypted: "encrypted_payload (Generic (enc_payload (snd (ack_payload ev msg err)))) = None"
  by (simp add: ack_payload_def Let_def encrypted_payload_def obj_def omit_empty_def)

text \<open>A negative answer counts as a success. The handler answers in plain text, so the answer arrives as a
  generic JSON object; the sender looks for a failure only in the two typed payloads and takes everything
  else as a success. Whatever went wrong at the receiver, the waiting sender is told that all is well.
\<close>

theorem negative_answer_is_success:
  assumes "sendAcknowledgment ev now msg (Some f) nd = (nd', Done)" "nd_transport nd" "nd_managed nd"
    and "text_laws (ev_json ev)" "in_int64 (unix_milli now)" "ascii (nd_peer nd)" "ascii (ms_id msg)" "ascii (ev_describe ev f)" "ms_id msg \<noteq> []"
    and "GetConnection (nd_peer nd) (nd_conns (nm_node nm)) = Inr conn" "map_of (nm_acks nm) (ms_id msg) = Some None"
  shows "\<exists>ack a nm'. nd_out nd' = nd_out nd @ [(ms_sender msg, ack)] \<and> on_wire (ev_json ev) ack = Some a \<and>
    ReceiveMessage ev' t a nm = (nm', Done) \<and> map_of (nm_acks nm') (ms_id msg) = Some (Some None)"
proof -
  let ?ap = "ack_payload ev msg (Some f)"
  let ?ack = "WithCorrelationID (ms_id msg) (NewMessage now (fst ?ap) (nd_peer nd) (snd ?ap))"
  let ?a = "?ack\<lparr>ms_payload := Generic (enc_payload (snd ?ap))\<rparr>"
  have o: "nd_out nd' = nd_out nd @ [(ms_sender msg, ?ack)]" using ack_sent [OF assms(1-3)] by simp
  have "message_ok ?ack" using assms(5-7)
    by (simp add: message_ok_def WithCorrelationID_def NewMessage_def ack_payload_type optional_def)
  then have w: "on_wire (ev_json ev) ?ack = Some ?a"
    using on_wire_message [OF assms(4), of ?ack] ack_payload_ascii [of "Some f" ev msg] assms(8)
    by (simp add: WithCorrelationID_def NewMessage_def)
  have "ReceiveMessage ev' t ?a nm = dispatch ev' t ?a nm"
    using assms(10) ack_not_encrypted [of ev msg "Some f"] by (simp add: ReceiveMessage_def WithCorrelationID_def NewMessage_def)
  also have "\<dots> = handleAcknowledgment ?a nm" by (simp add: dispatch_def WithCorrelationID_def NewMessage_def ack_payload_type)
  also have "\<dots> = (nm\<lparr>nm_acks := gm_put (ms_id msg) (Some None) (nm_acks nm)\<rparr>, Done)"
    using assms(9,11) by (simp add: handleAcknowledgment_def WithCorrelationID_def NewMessage_def ack_error_def)
  finally show ?thesis using o w by (intro exI conjI) (assumption | simp)+
qed

text \<open>A rename is lost without a trace. The payload of an operation leaves out the old path, so the receiver
  refuses every rename and its engine stays as it is; its answer is negative, which the sender does not see.
\<close>

theorem rename_never_crosses:
  assumes "so_type op = OpRename" "nd_engine nd = Some e" "nd_transport nd" "nd_managed nd"
    and "GetConnection (so_peer_id op) (nd_conns nd) = Inr conn" "\<And>m. ev_accepts ev (so_peer_id op) (cn_address conn) (cn_port conn) m"
  shows "\<exists>ack. RouteMessage ev now (operation_message [] op st) nd = (nd\<lparr>nd_out := nd_out nd @ [(so_peer_id op, ack)]\<rparr>, Done) \<and>
    ms_payload ack = OperationAck \<lparr>oa_operation_id = [], oa_success = False,
      oa_error = ev_describe ev (RenameHandlingFailed MissingFromPath)\<rparr> \<and>
    ms_correlation ack = Some (GenerateMessageID (st_now st))"
proof -
  let ?m = "operation_message [] op st" and ?err = "Some (RenameHandlingFailed MissingFromPath)"
  have f: "so_from_path (relayed n op) = None" for n by (simp add: relayed_def zero_op_def)
  have nd: "nd\<lparr>nd_engine := Some e\<rparr> = nd" using assms(2) by simp
  have "RouteMessage ev now ?m nd = handleSyncOperation ev now ?m nd"
    by (simp add: RouteMessage_def operation_message_def NewMessage_def)
  also have "\<dots> = sendAcknowledgment ev now ?m ?err nd"
    using assms(1,2) f
    by (simp add: handleSyncOperation_def operation_message_def NewMessage_def incoming_op_payload HandleIncomingRename_def
        OpRename_def OpCreate_def OpUpdate_def OpDelete_def) (simp only: nd)
  also have "\<dots> = (nd\<lparr>nd_out := nd_out nd @ [(so_peer_id op, WithCorrelationID (GenerateMessageID (st_now st))
      (NewMessage now ''operation_ack'' (nd_peer nd) (OperationAck \<lparr>oa_operation_id = [], oa_success = False,
        oa_error = ev_describe ev (RenameHandlingFailed MissingFromPath)\<rparr>)))]\<rparr>, Done)"
    using assms(3-6) by (simp add: sendAcknowledgment_def operation_message_def NewMessage_def ack_payload_def transport_send_def Let_def)
  finally show ?thesis by (intro exI conjI) (assumption | simp add: WithCorrelationID_def NewMessage_def)+
qed

text \<open>An empty file never arrives. Its operation carries no data, which the receiver reads as the announcement
  of chunks that follow; none does, and the engine of the receiver never hears of the file.
\<close>

theorem empty_file_never_arrives:
  assumes laws: "aead_laws (ev_crypto ev)" "text_laws (ev_json ev)"
    and config: "nm_chunker nm = NewChunker (int k)" "nc_chunk_size (nm_config nm) = int k" "0 < k" "in_int64 (int k)" "0 \<le> nc_threshold (nm_config nm)"
    and ready: "ready ev peer conn steps nm" "can_send T 0 steps (nm_flow nm)"
      "\<And>i. length (st_iv (steps i)) = 12" "\<And>i. in_int64 (unix_milli (st_now (steps i)))"
    and op: "so_type op = OpCreate \<or> so_type op = OpUpdate" "op_on_wire op"
    and receiver: "holds conn' (so_peer_id op) (so_file_id op) mo got e rm" "cn_session_key conn' = cn_session_key conn"
  shows "\<exists>nm' op1 s m rm'. SendFileToPeer ev peer [] op steps nm = (nm', op1, Done) \<and>
    nd_out (nm_node nm') = nd_out (nm_node nm) @ [(peer, s)] \<and> on_wire (ev_json ev) s = Some m \<and>
    receive_messages ev [(t, m)] rm = (rm', True) \<and> nd_engine (nm_node rm') = Some e"
proof -
  let ?op1 = "op\<lparr>so_compressed := Some False\<rparr>" and ?key = "cn_session_key conn"
  have c: "compress_for_sending ev [] op nm = Some ([], ?op1)" using config(5) by (simp add: compress_for_sending_def)
  have key: "length ?key = 32" using ready(1) by (simp add: ready_def)
  have w1: "op_on_wire ?op1" using op(2) by (simp add: op_on_wire_def operation_payload_def log_payload_ok_def enc_log_payload_def)
  obtain nm' where s: "SendFileToPeer ev peer [] op steps nm = (nm', ?op1, Done)"
    using SendFile_complete [OF ready(1) _ c config(1,3), of T] ready(2) config(4) by auto
  let ?s = "sealed ev ?key (steps 0) (operation_message [] ?op1 (steps 0))"
  have o: "nd_out (nm_node nm') = nd_out (nm_node nm) @ [(peer, ?s)]"
    using SendFile_sent [OF ready(1) c s] config(2) sent_fields by auto
  have p: "ascii (so_peer_id op)" using op(2) by (simp add: op_on_wire_def enc_log_payload_def operation_payload_def)
  have "message_ok (operation_message [] ?op1 (steps 0))"
    unfolding operation_message_def by (rule message_ok_NewMessage) (simp_all add: ready(4) p)
  then obtain m where m: "on_wire (ev_json ev) ?s = Some m" using sealed_on_wire [OF laws(2) _ key] by blast
  have cr: "ms_sender m = so_peer_id op \<and> carries ev conn' m (operation_message [] ?op1 (steps 0))"
    using operation_carries [OF laws key ready(3,4) w1 receiver(2) m] by simp
  have om: "ms_type (operation_message [] ?op1 st) = ''sync_operation''"
    "ms_payload (operation_message [] ?op1 st) = LogEntry (operation_payload [] ?op1)" for st
    by (simp_all add: operation_message_def NewMessage_def)
  obtain rm' where "receive_messages ev [(t, m)] rm = receive_messages ev [] rm'"
    "holds conn' (so_peer_id op) (so_file_id op) (Some (relayed (so_size ?op1) ?op1)) [] e rm'"
    using receive_announcement [where t = t and ms = "[]", OF receiver(1) conjunct2 [OF cr] conjunct1 [OF cr] om incoming_op_payload] op(1)
    by (auto simp: operation_payload_def)
  then show ?thesis using s o m by (auto simp: holds_def)
qed

lemma send_loop_unanswered:
  assumes "GetConnection peer (nd_conns (nm_node nm)) = Inr conn" "\<And>m. ev_accepts ev peer (cn_address conn) (cn_port conn) m"
    and "\<And>i. st_answers st i = []" "\<And>i. st_asleep st i = []"
  shows "\<exists>nm'. send_loop ev peer msg st i n err nm =
      (nm', Failed (NotAcknowledged (if n = 0 then err else Some AckTimeout))) \<and>
    nd_out (nm_node nm') = nd_out (nm_node nm) @ replicate n (peer, msg) \<and> map_of (nm_acks nm') (ms_id msg) = None"
  using assms(1)
proof (induction n arbitrary: i err nm)
  case (Suc n)
  let ?nm = "(trackAcknowledgment (ms_id msg) nm)\<lparr>nm_node := (nm_node nm)\<lparr>nd_out := nd_out (nm_node nm) @ [(peer, msg)]\<rparr>\<rparr>"
  have a: "attempt_send ev peer msg [] nm = (?nm, Inr AckTimeout)"
    using Suc.prems assms(2) by (simp add: attempt_send_def transport_send_def Let_def trackAcknowledgment_def)
  obtain nm' where "send_loop ev peer msg st (Suc i) n (Some AckTimeout) ?nm = (nm', Failed (NotAcknowledged (Some AckTimeout)))"
    "nd_out (nm_node nm') = nd_out (nm_node ?nm) @ replicate n (peer, msg)" "map_of (nm_acks nm') (ms_id msg) = None"
    using Suc.IH [of ?nm "Suc i" "Some AckTimeout"] Suc.prems by (auto split: if_splits)
  then show ?case using a by (cases "i = 0") (simp_all add: assms(3,4))
qed (simp add: untrackAcknowledgment_def)

text \<open>C32. A message that nobody answers is given up. It is transmitted exactly as often as the retry count says, three
  times after \<open>NewNetworkMessenger\<close>, then the call returns with an error, and the message is no longer tracked.
\<close>

theorem unanswered_message_given_up:
  assumes "GetConnection peer (nd_conns (nm_node nm)) = Inr conn" "\<And>m. ev_accepts ev peer (cn_address conn) (cn_port conn) m"
    and "\<And>i. st_answers st i = []" "\<And>i. st_asleep st i = []" "length (cn_session_key conn) = 32" "0 < nm_retry_count nm"
  shows "\<exists>nm'. sendMessage ev peer msg st nm = (nm', Failed (NotAcknowledged (Some AckTimeout))) \<and>
    nd_out (nm_node nm') = nd_out (nm_node nm) @ replicate (nm_retry_count nm) (peer, sealed ev (cn_session_key conn) st msg) \<and>
    map_of (nm_acks nm') (ms_id msg) = None"
proof -
  obtain e where e: "encryptMessagePayload ev (st_iv st) msg (cn_session_key conn) = Inr e" using encrypt_total [OF assms(5)] by blast
  have i: "ms_id (msg\<lparr>ms_payload := Encrypted e\<rparr>) = ms_id msg" by simp
  show ?thesis
    using send_loop_unanswered [OF assms(1-4), of "msg\<lparr>ms_payload := Encrypted e\<rparr>" 0 "nm_retry_count nm" None] assms(1,6) e
    by (simp add: sendMessage_def sealed_def)
qed

section \<open>Instances\<close>

definition silent_step :: send_step where
  "silent_step = (example_step ''B'')\<lparr>st_answers := (\<lambda>_. [])\<rparr>"

lemma example_node_fields [simp]:
  "nd_transport (example_node p q)" "nd_managed (example_node p q)" "nd_out (example_node p q) = []" "nd_peer (example_node p q) = p"
  "\<exists>e. nd_engine (example_node p q) = Some e"
  by (simp_all add: example_node_def Let_def SetTransport_def SetConnectionManager_def NewNetworkMessageHandler_def)

theorem unanswered_message_given_up_witness:
  "\<exists>nm'. sendMessage example_env ''B'' (example_update ''x'') silent_step (example_messenger 1 ''A'' ''B'') =
      (nm', Failed (NotAcknowledged (Some AckTimeout))) \<and> length (nd_out (nm_node nm')) = 3"
proof -
  have "st_answers silent_step i = []" "st_asleep silent_step i = []" for i by (simp_all add: silent_step_def example_step_def)
  then show ?thesis
    using unanswered_message_given_up [of "''B''" "example_messenger 1 ''A'' ''B''" "example_peer ''B''" example_env silent_step "example_update ''x''"]
    by (force simp: example_env_def)
qed

theorem rename_never_crosses_witness:
  "\<exists>ack. RouteMessage example_env 5 (operation_message [] (example_op\<lparr>so_type := OpRename, so_from_path := Some ''q''\<rparr>) (example_step ''A''))
      (example_node ''B'' ''A'') = ((example_node ''B'' ''A'')\<lparr>nd_out := [(''A'', ack)]\<rparr>, Done) \<and>
    ms_payload ack = OperationAck \<lparr>oa_operation_id = [], oa_success = False, oa_error = ''failed''\<rparr>"
proof -
  let ?op = "example_op\<lparr>so_type := OpRename, so_from_path := Some ''q''\<rparr>"
  obtain e where "nd_engine (example_node ''B'' ''A'') = Some e" using example_node_fields(5) by blast
  moreover have "so_peer_id ?op = ''A''" by (simp add: example_op_def NewSyncOperation_def)
  ultimately show ?thesis
    using rename_never_crosses [of ?op "example_node ''B'' ''A''" e "example_peer ''A''" example_env 5 "example_step ''A''"]
    by (auto simp: example_env_def)
qed

theorem empty_file_never_arrives_witness:
  "\<exists>nm' op1 s m rm'. SendFileToPeer example_env ''B'' [] example_op (\<lambda>_. example_step ''B'') (example_messenger 1 ''A'' ''B'') = (nm', op1, Done) \<and>
    nd_out (nm_node nm') = [(''B'', s)] \<and> on_wire plain_text s = Some m \<and>
    receive_messages example_env [(5, m)] (example_messenger 1 ''B'' ''A'') = (rm', True) \<and>
    nd_engine (nm_node rm') = nd_engine (example_node ''B'' ''A'')"
proof -
  obtain e where e: "nd_engine (example_node ''B'' ''A'') = Some e" using example_node_fields(5) by blast
  have o: "so_type example_op = OpCreate \<or> so_type example_op = OpUpdate" "so_peer_id example_op = ''A''"
    by (simp_all add: example_op_def NewSyncOperation_def)
  have h: "holds (example_peer ''A'') (so_peer_id example_op) (so_file_id example_op) None [] e (example_messenger 1 ''B'' ''A'')"
    using example_receives [of "''A''" "so_file_id example_op" "''B''" 1] e o(2) by simp
  have j: "ev_json example_env = plain_text" by (simp add: example_env_def)
  show ?thesis
    using empty_file_never_arrives [where k = 1 and T = 0 and t = 5, OF example_laws(1,2) _ _ _ _ _ example_ready _ _ _ o(1) example_op_on_wire h]
      example_can_send [of 0 "''B''" 1 "''A''"] e
    by (simp add: example_config_def example_step_def in_int64_def unix_milli_def j)
qed

theorem negative_answer_is_success_witness:
  "\<exists>nd' ack a nm'. sendAcknowledgment example_env 5 (example_update ''x'') (Some SyncEngineNotAvailable) (example_node ''B'' ''A'') = (nd', Done) \<and>
    nd_out nd' = [(''A'', ack)] \<and> on_wire plain_text ack = Some a \<and>
    ReceiveMessage example_env 6 a (trackAcknowledgment (GenerateMessageID 0) (example_messenger 1 ''A'' ''B'')) = (nm', Done) \<and>
    map_of (nm_acks nm') (GenerateMessageID 0) = Some (Some None)"
proof -
  have u: "ms_id (example_update ''x'') = GenerateMessageID 0" "ms_sender (example_update ''x'') = ''A''"
    by (simp_all add: example_update_def operation_message_def NewMessage_def example_step_def example_op_def NewSyncOperation_def)
  have j: "ev_json example_env = plain_text" by (simp add: example_env_def)
  obtain nd' where s: "sendAcknowledgment example_env 5 (example_update ''x'') (Some SyncEngineNotAvailable) (example_node ''B'' ''A'') = (nd', Done)"
    using u(2) by (simp add: sendAcknowledgment_def transport_send_def example_env_def Let_def split_beta)
  show ?thesis
    using negative_answer_is_success [OF s _ _ example_laws(2), of "trackAcknowledgment (GenerateMessageID 0) (example_messenger 1 ''A'' ''B'')"
        "example_peer ''B''" example_env 6] s u j
    by (simp add: trackAcknowledgment_def in_int64_def unix_milli_def example_env_def)
qed

end
