(* ===== verification/Spec2Isabelle.thy ===== *)
theory Spec2Isabelle
  imports Watching ChunkBuffer ChunkManager FlowControl Connections Reconciliation Startup Metrics FileWriter NetworkProperties
begin

text \<open>
  A model of p2p-folder-sync, a Go program that keeps folders of several peers equal. Paths below are
  relative to \<^verbatim>\<open>src/internal\<close>.

  \<^bold>\<open>The program.\<close> A watcher reports changes of files to the engine (\<^verbatim>\<open>sync/engine.go\<close>). The engine finds the
  file id (an extended attribute, or a BLAKE3 digest of a prefix), records the file in a SQLite
  database, gives the operation the next vector clock, queues it, appends it to the operation log
  and hands it to a messenger. The network messenger compresses, encrypts and sends it, large files in
  chunks, and waits for an acknowledgment; the transports carry the messages, over QUIC or TCP, and
  set up the key of a session when a connection is made. Discovery reports peers to dial. A peer that receives an operation
  writes the file atomically, or resolves a conflict first when its own row of the file has another
  checksum. \<^verbatim>\<open>cmd/p2p-sync/main.go\<close> loads the configuration and puts the parts together.

  \<^bold>\<open>Theories: data and files.\<close>
  \<^item> \<open>Prelude\<close>: 64-bit integers with their wrap-around, bytes, times, Go maps as association lists, and
    the interface of a keyed store with its laws as locales. \<open>Float64\<close>: the rounding of \<^verbatim>\<open>float64\<close>.
  \<^item> \<open>VectorClock\<close> (\<^verbatim>\<open>sync/vectorclock.go\<close>): \<open>vc_increment\<close>, \<open>vc_merge\<close>, \<open>vc_compare\<close>; the locale of clocks
    with a join; a transition system of peers that send and receive.
  \<^item> \<open>Operations\<close> (\<^verbatim>\<open>sync/operation.go\<close>, \<^verbatim>\<open>sync/queue.go\<close>): the operation record and the queue per file.
  \<^item> \<open>LineMerge\<close> (\<^verbatim>\<open>sync/conflict/merge.go\<close>) and \<open>Resolver\<close> (\<^verbatim>\<open>sync/conflict/resolver.go\<close>): the merge of two
    text versions, the choice between two operations, the three-way merge.
  \<^item> \<open>Chunking\<close> (\<^verbatim>\<open>chunking/chunker.go\<close>, \<^verbatim>\<open>chunking/assembler.go\<close>), \<open>ChunkBuffer\<close> (\<^verbatim>\<open>chunking/buffer.go\<close>) and
    \<open>ChunkManager\<close> (\<^verbatim>\<open>chunking/manager.go\<close>).
  \<^item> \<open>Database\<close> (\<^verbatim>\<open>database/db.go\<close>, \<^verbatim>\<open>files.go\<close>, \<^verbatim>\<open>chunks.go\<close>, \<^verbatim>\<open>peers.go\<close>) and \<open>OperationLog\<close>
    (\<^verbatim>\<open>database/operations.go\<close>): the tables as lists of rows, each query as a function.
  \<^item> \<open>Paths\<close> (the standard library's \<^verbatim>\<open>path/filepath\<close> on Unix), \<open>FileSystem\<close> (\<^verbatim>\<open>filesystem/operations.go\<close>,
    \<^verbatim>\<open>filesystem/xattr.go\<close>, \<^verbatim>\<open>hashing/fileid.go\<close>, \<open>atomicWriteFile\<close> of the engine), \<open>FileWriter\<close> (the writers of
    \<^verbatim>\<open>filesystem/operations.go\<close>), \<open>RenameDetector\<close> (\<^verbatim>\<open>filesystem/rename_detector.go\<close>) and \<open>Watcher\<close>
    (\<^verbatim>\<open>filesystem/watcher.go\<close>).

  \<^bold>\<open>Theories: the engine.\<close>
  \<^item> \<open>Engine\<close>: the record \<open>engine\<close> with one function per method of \<^verbatim>\<open>sync/engine.go\<close>, and the in-memory
    messenger (\<^verbatim>\<open>sync/messenger.go\<close>).
  \<^item> \<open>EngineProperties\<close>, \<open>Convergence\<close>, \<open>Propagation\<close>: what the engine guarantees for local changes, for two
    versions of a file, and for a change that travels to another peer. \<open>LocalChanges\<close>: watcher and engine together;
    \<open>Watching\<close>: which directories are watched.
  \<^item> \<open>Reconciliation\<close> (\<^verbatim>\<open>state/*.go\<close>): declarations of the files of a peer and their comparison.

  \<^bold>\<open>Theories: the network.\<close>
  \<^item> \<open>Base64\<close>, \<open>Crypto\<close> (\<^verbatim>\<open>crypto/*.go\<close>), \<open>Compression\<close> (\<^verbatim>\<open>compression/*.go\<close>), \<open>Messages\<close>
    (\<^verbatim>\<open>network/messages/*.go\<close>: every struct, its JSON value, decoding by type).
  \<^item> \<open>FlowControl\<close> (\<^verbatim>\<open>network/flowcontrol/*.go\<close>) and \<open>Connections\<close> (\<^verbatim>\<open>network/connection/*.go\<close>).
  \<^item> \<open>Handler\<close> (\<^verbatim>\<open>network/handler.go\<close>) and \<open>Messenger\<close> (\<^verbatim>\<open>network/messenger.go\<close>); \<open>FileTransfer\<close> and
    \<open>NetworkProperties\<close>: a file from one messenger to another, and what the two do with bad or repeated messages.
  \<^item> \<open>Sessions\<close>, \<open>QuicTransport\<close> (\<^verbatim>\<open>network/transport/quic.go\<close>), \<open>TcpTransport\<close> (\<^verbatim>\<open>network/transport/tcp.go\<close>)
    with \<open>QuicProperties\<close> and \<open>TcpProperties\<close>: a \<open>host\<close> is a transport, its messenger and what was written to each
    socket. A call that waits, for an answer or for the lock of the connection table, is split where it waits.
  \<^item> \<open>Discovery\<close> (\<^verbatim>\<open>network/discovery/*.go\<close>), \<open>Configuration\<close> (\<^verbatim>\<open>config/*.go\<close>), \<open>Startup\<close>
    (\<^verbatim>\<open>network/transport/fallback.go\<close>, \<^verbatim>\<open>network/transport/interface.go\<close>, \<^verbatim>\<open>cmd/p2p-sync/main.go\<close>) and \<open>Metrics\<close>
    (\<^verbatim>\<open>monitoring/metrics.go\<close>).

  \<^bold>\<open>State and effects.\<close> Methods take and return the record of the state. A call that reads the clock
  takes the time as an argument, in nanoseconds; the name that the operating system picks for a
  temporary file is an argument too. A goroutine is a task in a list of pending tasks or a \<open>delivery\<close>, and running
  it is one step, so theorems quantify over the order of steps. Errors and panics are values of sum
  types. Bytes are characters, strings and byte slices are lists of them. An \<open>int64\<close> is an integer with
  \<open>wrap64\<close> where the arithmetic of the code may leave the range. Loops are structural recursion
  or recursion on a bound that the definition states. A loop that may not end is a partial function, whose
  value None says that the call does not return: the reader loop of the chunker and the copy of the file writer. Where a loop is
  driven from outside, as the wait for bandwidth or the readers of sockets, its definition takes the list of what comes in.

  \<^bold>\<open>Parameters and their laws.\<close> BLAKE3 is \<open>H\<close>; no theorem assumes that it has no collisions. The ciphers and
  hashes are a record of functions with \<open>aead_laws\<close> (decryption inverts encryption under the same key) and \<open>hkdf_laws\<close> (keys have 32
  bytes). The text of a JSON value has \<open>text_laws\<close> (reading inverts writing, for ASCII strings).
  The codecs of compression have laws of the same kind. Each is shown satisfiable by an instance in a witness. Parsing YAML, what a socket accepts, which port can be
  listened on and which call of a device fails are arguments without a law.

  \<^bold>\<open>What the lemmas show.\<close> Clocks are a join semilattice and \<open>Compare\<close> decides their order; the queue is
  first in, first out per file under any interleaving; splitting and assembling are inverse in every
  order of arrival, and the chunk manager delivers exactly the file; the tables return what was
  stored, up to the precision of the columns; the log keeps what is not acknowledged; a write is atomic
  at every crash point, and the library's writer leaves all files as they were whatever call fails; a local change is durable;
  a new file reaches the other peer, in memory and through compression, encryption, chunks and JSON; what is not encrypted is never
  applied; a health check and a comparison of declarations are exact; waiting for bandwidth ends; a loaded configuration
  is in its ranges; one broadcast and one dial are enough to find a peer and share a key with it; every discovered peer is dialled.
  Where the code does not do what it means to, the theorem states what it does: concurrent edits swap, a merged row
  is stale, a file in a new subfolder never arrives, an incoming path may leave the folder, anyone may speak in the name of any peer,
  two peers that dial each other at once block, and no dial over TCP returns.

  \<^bold>\<open>Not modelled.\<close> Accept loops, certificates and sockets, the zeroconf and fsnotify libraries and the opening
  of the database are calls of libraries, of which the model takes the results as arguments. Logging, telemetry and tracing
  (\<^verbatim>\<open>observability/*.go\<close>) and the HTTP server of the metrics (\<^verbatim>\<open>monitoring/server.go\<close>), which no code starts, have no
  influence on the files. The list of migrations (\<^verbatim>\<open>database/migrations.go\<close>) is empty. Loops that only wait for a ticker or a
  channel appear as their single steps. Data races on unprotected fields are not modelled: a step is atomic.
\<close>

end
